(* ===== verification/Go_Prelude.thy ===== *)
theory Go_Prelude
  imports Main "HOL-Library.Sublist" "HOL-Library.Multiset"
begin

text \<open>
  What the models of all components share: the parts of Go and of its standard
  library the sources use (errors as values, \<^verbatim>\<open>github.com/pkg/errors\<close> wrapping, panics,
  \<^verbatim>\<open>strings.Contains\<close>, \<^verbatim>\<open>strings.Split\<close>, \<^verbatim>\<open>strings.Join\<close>, \<^verbatim>\<open>strings.Replace\<close>, number
  formatting, \<^verbatim>\<open>float32\<close> conversion, durations), an effect type that records every call
  to the outside world in a trace, the predicate \<open>emits\<close> that bounds the calls of an
  effectful function, and the generic lemmas on lists the components use.
\<close>

section \<open>Collections of facts\<close>

named_theorems emits_intro \<open>introduction rules for bounds on emitted calls\<close>
named_theorems returns_intro \<open>introduction rules for postconditions\<close>
named_theorems no_panic_intro \<open>introduction rules for the absence of panics\<close>
named_theorems go_defs \<open>definitions of the effect combinators\<close>

section \<open>Errors as values\<close>

text \<open>
  An \<^verbatim>\<open>error\<close> is its message and the answer of \<^verbatim>\<open>apierrors.IsNotFound\<close> on it; the nil
  error is \<open>None\<close>. \<^verbatim>\<open>errors.Wrap\<close> keeps the cause, so it keeps \<open>IsNotFound\<close>, and
  maps nil to nil; \<^verbatim>\<open>fmt.Errorf\<close> makes a new error.
\<close>

datatype gerr = GErr (err_msg: string) (IsNotFound: bool)

definition Errorf :: "string \<Rightarrow> gerr" where
  "Errorf msg = GErr msg False"

definition Wrap :: "gerr \<Rightarrow> string \<Rightarrow> gerr" where
  "Wrap e msg = GErr (msg @ '': '' @ err_msg e) (IsNotFound e)"

definition Wrapf :: "gerr option \<Rightarrow> string \<Rightarrow> gerr option" where
  "Wrapf e msg = map_option (\<lambda>e. Wrap e msg) e"

section \<open>Strings\<close>

text \<open>\<^verbatim>\<open>strings.Contains(s, sub)\<close>.\<close>

fun contains :: "string \<Rightarrow> string \<Rightarrow> bool" where
  "contains [] sub = (sub = [])"
| "contains (c # s) sub = (prefix sub (c # s) \<or> contains s sub)"

text \<open>\<^verbatim>\<open>strings.Join(xs, sep)\<close>.\<close>

fun join :: "string \<Rightarrow> string list \<Rightarrow> string" where
  "join sep [] = []"
| "join sep [x] = x"
| "join sep (x # y # xs) = x @ sep @ join sep (y # xs)"

text \<open>\<^verbatim>\<open>strings.Split(s, sep)\<close> for a separator that is not empty; \<open>acc\<close> is the reversed
  current piece.\<close>

function split_acc :: "string \<Rightarrow> string \<Rightarrow> string \<Rightarrow> string list" where
  "split_acc sep acc [] = [rev acc]"
| "split_acc sep acc (c # s) =
     (if sep \<noteq> [] \<and> prefix sep (c # s)
      then rev acc # split_acc sep [] (drop (length sep) (c # s))
      else split_acc sep (c # acc) s)"
  by pat_completeness auto
termination
  by (relation "measure (\<lambda>(sep, acc, s). length s)") auto

definition split_on :: "string \<Rightarrow> string \<Rightarrow> string list" where
  "split_on s sep = split_acc sep [] s"

text \<open>\<^verbatim>\<open>strings.Replace(s, old, new, -1)\<close> for an \<open>old\<close> that is not empty.\<close>

definition replace_all :: "string \<Rightarrow> string \<Rightarrow> string \<Rightarrow> string" where
  "replace_all s old new = join new (split_on s old)"

text \<open>\<^verbatim>\<open>strings.TrimSpace(s) == ""\<close> on ASCII white space.\<close>

definition is_space :: "char \<Rightarrow> bool" where
  "is_space c \<longleftrightarrow> of_char c \<in> {9, 10, 11, 12, 13, 32 :: nat}"

definition is_blank :: "string \<Rightarrow> bool" where
  "is_blank s \<longleftrightarrow> list_all is_space s"

text \<open>\<^verbatim>\<open>%d\<close> and \<^verbatim>\<open>%x\<close> of a natural number, \<^verbatim>\<open>%d\<close> of an integer.\<close>

fun utoa :: "nat \<Rightarrow> string" where
  "utoa n = (if n < 10 then [char_of (48 + n)] else utoa (n div 10) @ [char_of (48 + n mod 10)])"

declare utoa.simps [simp del]

definition hex_digit :: "nat \<Rightarrow> char" where
  "hex_digit d = char_of (if d < 10 then 48 + d else 87 + d)"

fun utox :: "nat \<Rightarrow> string" where
  "utox n = (if n < 16 then [hex_digit n] else utox (n div 16) @ [hex_digit (n mod 16)])"

declare utox.simps [simp del]

definition itoa :: "int \<Rightarrow> string" where
  "itoa i = (if i < 0 then CHR ''-'' # utoa (nat (- i)) else utoa (nat i))"

section \<open>Numbers\<close>

text \<open>
  \<^verbatim>\<open>float32(n)\<close> of a natural number: exact below \<open>2 ^ 24\<close>, otherwise the nearest multiple
  of the unit in the last place, ties to even. The result is a natural number again.
\<close>

fun f32_scale :: "nat \<Rightarrow> nat" where
  "f32_scale n = (if n < 2 ^ 24 then 0 else Suc (f32_scale (n div 2)))"

declare f32_scale.simps [simp del]

definition float32 :: "nat \<Rightarrow> nat" where
  "float32 n =
     (let u = 2 ^ f32_scale n; q = n div u; r = n mod u
      in if 2 * r > u \<or> (2 * r = u \<and> odd q) then (q + 1) * u else q * u)"

text \<open>Durations are integers in nanoseconds, as \<^verbatim>\<open>time.Duration\<close> is.\<close>

definition Second :: int where "Second = 1000000000"
definition Minute :: int where "Minute = 60 * Second"

section \<open>Effects\<close>

text \<open>
  An effectful function runs on the trace of the calls made so far, appends its own calls
  and either returns a value or panics. What a call answers is a function of the trace
  before it, so an answer may depend on everything that happened.
\<close>

datatype 'a outcome = Ret 'a | Panic string

type_synonym ('c, 'a) io = "'c list \<Rightarrow> 'a outcome \<times> 'c list"

definition ret :: "'a \<Rightarrow> ('c, 'a) io" where
  [go_defs]: "ret x = (\<lambda>tr. (Ret x, tr))"

definition panic :: "string \<Rightarrow> ('c, 'a) io" where
  [go_defs]: "panic s = (\<lambda>tr. (Panic s, tr))"

definition perform :: "'c \<Rightarrow> ('c list \<Rightarrow> 'a) \<Rightarrow> ('c, 'a) io" where
  [go_defs]: "perform c ans = (\<lambda>tr. (Ret (ans tr), tr @ [c]))"

definition andThen :: "('c, 'a) io \<Rightarrow> ('a \<Rightarrow> ('c, 'b) io) \<Rightarrow> ('c, 'b) io" where
  [go_defs]: "andThen m f = (\<lambda>tr. case m tr of
     (r, tr') \<Rightarrow> (case r of Ret x \<Rightarrow> f x tr' | Panic s \<Rightarrow> (Panic s, tr')))"

text \<open>
  A loop over a slice whose body may return an error early
  (\<^verbatim>\<open>for ... { if err != nil { return err } }\<close>).
\<close>

fun forM :: "'a list \<Rightarrow> ('a \<Rightarrow> ('c, gerr option) io) \<Rightarrow> ('c, gerr option) io" where
  "forM [] body = ret None"
| "forM (x # xs) body = andThen (body x) (\<lambda>e. case e of
     None \<Rightarrow> forM xs body
   | Some err \<Rightarrow> ret (Some err))"

text \<open>The calls a run adds to the trace, and its outcome.\<close>

definition new_calls :: "('c, 'a) io \<Rightarrow> 'c list \<Rightarrow> 'c list" where
  "new_calls m tr = drop (length tr) (snd (m tr))"

definition result :: "('c, 'a) io \<Rightarrow> 'c list \<Rightarrow> 'a outcome" where
  "result m tr = fst (m tr)"

text \<open>\<open>emits A m\<close>: \<open>m\<close> only extends the trace, and only by calls in \<open>A\<close>.\<close>

definition emits :: "'c set \<Rightarrow> ('c, 'a) io \<Rightarrow> bool" where
  "emits A m \<longleftrightarrow> (\<forall>tr. \<exists>new. snd (m tr) = tr @ new \<and> set new \<subseteq> A)"

text \<open>\<open>returns P m\<close>: whatever \<open>m\<close> returns satisfies \<open>P\<close>.\<close>

definition returns :: "('a \<Rightarrow> bool) \<Rightarrow> ('c, 'a) io \<Rightarrow> bool" where
  "returns P m \<longleftrightarrow> (\<forall>tr x t. m tr = (Ret x, t) \<longrightarrow> P x)"

section \<open>Lemmas\<close>

subsection \<open>Errors and strings\<close>

lemma Wrapf_None [simp]: "Wrapf None msg = None"
  by (simp add: Wrapf_def)

lemma Wrapf_Some [simp]: "Wrapf (Some e) msg = Some (Wrap e msg)"
  by (simp add: Wrapf_def)

lemma contains_iff: "contains s sub \<longleftrightarrow> (\<exists>ps ss. s = ps @ sub @ ss)"
proof (induction s sub rule: contains.induct)
  case (1 sub)
  then show ?case by auto
next
  case (2 c s sub)
  show ?case
  proof
    assume "contains (c # s) sub"
    then consider "prefix sub (c # s)" | "contains s sub" by auto
    then show "\<exists>ps ss. c # s = ps @ sub @ ss"
    proof cases
      case 1
      then show ?thesis by (auto simp: prefix_def intro: exI [of _ "[]"])
    next
      case 2
      then obtain ps ss where "s = ps @ sub @ ss" using "2.IH" by auto
      then have "c # s = (c # ps) @ sub @ ss" by simp
      then show ?thesis by blast
    qed
  next
    assume "\<exists>ps ss. c # s = ps @ sub @ ss"
    then obtain ps ss where eq: "c # s = ps @ sub @ ss" by blast
    show "contains (c # s) sub"
    proof (cases ps)
      case Nil
      with eq have "prefix sub (c # s)" by (auto simp: prefix_def)
      then show ?thesis by simp
    next
      case (Cons a as)
      with eq have "s = as @ sub @ ss" by simp
      with "2.IH" show ?thesis by auto
    qed
  qed
qed

lemma contains_self [simp]: "contains s s"
  unfolding contains_iff by (rule exI [of _ "[]"], rule exI [of _ "[]"]) simp

lemma contains_suffix [simp]: "contains (ps @ s) s"
  unfolding contains_iff by (rule exI [of _ ps], rule exI [of _ "[]"]) simp

lemma contains_mid [simp]: "contains (ps @ s @ ss) s"
  unfolding contains_iff by blast

lemma contains_trans: "contains a b \<Longrightarrow> contains b c \<Longrightarrow> contains a c"
  unfolding contains_iff by (metis append.assoc)

lemma contains_Wrap: "contains (err_msg e) s \<Longrightarrow> contains (err_msg (Wrap e msg)) s"
  using contains_trans [OF contains_suffix [of "msg @ '': ''" "err_msg e"]]
  by (simp add: Wrap_def)

subsection \<open>Splitting and joining\<close>

lemma split_acc_no_sep:
  assumes "sep \<noteq> []" and "\<not> contains s sep"
  shows "split_acc sep acc s = [rev acc @ s]"
  using assms(2)
proof (induction s arbitrary: acc)
  case Nil
  then show ?case by simp
next
  case (Cons c s)
  then have "\<not> prefix sep (c # s)" and "\<not> contains s sep" by auto
  with Cons.IH show ?case by simp
qed

lemma split_on_no_sep: "sep \<noteq> [] \<Longrightarrow> \<not> contains s sep \<Longrightarrow> split_on s sep = [s]"
  by (simp add: split_on_def split_acc_no_sep)

text \<open>Splitting at the first occurrence of a one-character separator.\<close>

lemma split_acc_char:
  "c \<notin> set a \<Longrightarrow> split_acc [c] acc (a @ c # s) = (rev acc @ a) # split_acc [c] [] s"
  by (induction a arbitrary: acc) auto

lemma contains_single: "contains s [c] \<longleftrightarrow> c \<in> set s"
  by (induction s) auto

lemma split_on_char: "c \<notin> set a \<Longrightarrow> split_on (a @ c # s) [c] = a # split_on s [c]"
  by (simp add: split_on_def split_acc_char)

lemma split_on_char_none: "c \<notin> set a \<Longrightarrow> split_on a [c] = [a]"
  by (rule split_on_no_sep) (auto simp: contains_single)

lemma split_acc_not_Nil: "split_acc sep acc s \<noteq> []"
  by (induction sep acc s rule: split_acc.induct) auto

lemma join_Cons: "xs \<noteq> [] \<Longrightarrow> join sep (x # xs) = x @ sep @ join sep xs"
  by (cases xs) auto

lemma join_split_acc: "join sep (split_acc sep acc s) = rev acc @ s"
proof (induction sep acc s rule: split_acc.induct)
  case (2 sep acc c s)
  then show ?case
  proof (cases "sep \<noteq> [] \<and> prefix sep (c # s)")
    case True
    then have "c # s = sep @ drop (length sep) (c # s)"
      by (metis append_eq_conv_conj prefix_def)
    with 2 True show ?thesis by (simp add: join_Cons split_acc_not_Nil)
  qed auto
qed simp

lemma join_split_on: "join sep (split_on s sep) = s"
  by (simp add: split_on_def join_split_acc)

lemma split_acc_pieces: "c \<notin> set acc \<Longrightarrow> x \<in> set (split_acc [c] acc s) \<Longrightarrow> c \<notin> set x"
proof (induction s arbitrary: acc)
  case (Cons a s)
  with Cons.IH [of "[]"] Cons.IH [of "a # acc"] show ?case by (auto split: if_splits)
qed auto

lemma split_on_pieces: "x \<in> set (split_on s [c]) \<Longrightarrow> c \<notin> set x"
  unfolding split_on_def by (rule split_acc_pieces) auto

subsection \<open>Numbers\<close>

lemma float32_exact: "n < 2 ^ 24 \<Longrightarrow> float32 n = n"
  by (simp add: float32_def f32_scale.simps [of n])

lemma float32_exact_le: "n \<le> 2 ^ 24 \<Longrightarrow> float32 n = n"
proof (cases "n = 2 ^ 24")
  case True
  have "f32_scale (2 ^ 24) = 1"
    by (simp add: f32_scale.simps)
  with True show ?thesis by (simp add: float32_def)
next
  case False
  assume "n \<le> 2 ^ 24"
  with False show ?thesis by (intro float32_exact) simp
qed

text \<open>Evaluation: the comparison with \<open>2 ^ 24\<close> in binary.\<close>

lemma float32_code [code]:
  "float32 n = (if int n < 16777216 then n else
     let u = 2 ^ f32_scale n; q = n div u; r = n mod u
     in if 2 * r > u \<or> (2 * r = u \<and> odd q) then (q + 1) * u else q * u)"
  using float32_exact [of n] by (simp add: float32_def)

subsection \<open>Running effects\<close>

lemma new_calls_append [simp]: "snd (m tr) = tr @ new \<Longrightarrow> new_calls m tr = new"
  by (simp add: new_calls_def)

lemma emitsI: "(\<And>tr. \<exists>new. snd (m tr) = tr @ new \<and> set new \<subseteq> A) \<Longrightarrow> emits A m"
  by (simp add: emits_def)

lemma emitsD: "emits A m \<Longrightarrow> \<exists>new. snd (m tr) = tr @ new \<and> set new \<subseteq> A"
  by (simp add: emits_def)

lemma emits_new_calls: "emits A m \<Longrightarrow> set (new_calls m tr) \<subseteq> A"
  using emitsD [of A m tr] by auto

lemma emits_mono: "emits A m \<Longrightarrow> A \<subseteq> B \<Longrightarrow> emits B m"
  unfolding emits_def by (meson order_trans)

lemma emits_ret [emits_intro]: "emits A (ret x)"
  by (simp add: emits_def ret_def)

lemma emits_panic [emits_intro]: "emits A (panic s)"
  by (simp add: emits_def panic_def)

lemma emits_perform [emits_intro]: "c \<in> A \<Longrightarrow> emits A (perform c ans)"
  by (simp add: emits_def perform_def)

lemma emits_andThen [emits_intro]:
  assumes m: "emits A m" and f: "\<And>x. emits A (f x)"
  shows "emits A (andThen m f)"
proof (rule emitsI)
  fix tr
  from emitsD [OF m, of tr] obtain new where
    new: "snd (m tr) = tr @ new" "set new \<subseteq> A" by blast
  show "\<exists>new. snd (andThen m f tr) = tr @ new \<and> set new \<subseteq> A"
  proof (cases "fst (m tr)")
    case (Ret x)
    from emitsD [OF f, of x "tr @ new"] obtain new' where
      new': "snd (f x (tr @ new)) = (tr @ new) @ new'" "set new' \<subseteq> A" by blast
    from Ret new have "andThen m f tr = f x (tr @ new)"
      by (cases "m tr") (simp add: andThen_def)
    with new new' show ?thesis by (intro exI [of _ "new @ new'"]) simp
  next
    case (Panic s)
    with new have "snd (andThen m f tr) = tr @ new"
      by (cases "m tr") (simp add: andThen_def)
    with new show ?thesis by blast
  qed
qed

lemma emits_if [emits_intro]:
  "(b \<Longrightarrow> emits A m) \<Longrightarrow> (\<not> b \<Longrightarrow> emits A n) \<Longrightarrow> emits A (if b then m else n)"
  by simp

lemma emits_case_option [emits_intro]:
  "(x = None \<Longrightarrow> emits A m) \<Longrightarrow> (\<And>y. x = Some y \<Longrightarrow> emits A (f y)) \<Longrightarrow>
   emits A (case x of None \<Rightarrow> m | Some y \<Rightarrow> f y)"
  by (cases x) simp_all

lemma emits_case_sum [emits_intro]:
  "(\<And>y. x = Inl y \<Longrightarrow> emits A (f y)) \<Longrightarrow> (\<And>y. x = Inr y \<Longrightarrow> emits A (g y)) \<Longrightarrow>
   emits A (case x of Inl y \<Rightarrow> f y | Inr y \<Rightarrow> g y)"
  by (cases x) simp_all

lemma emits_case_prod [emits_intro]:
  "(\<And>y z. x = (y, z) \<Longrightarrow> emits A (f y z)) \<Longrightarrow> emits A (case x of (y, z) \<Rightarrow> f y z)"
  by (cases x) simp_all

lemma emits_case_list [emits_intro]:
  "(xs = [] \<Longrightarrow> emits A m) \<Longrightarrow> (\<And>y ys. xs = y # ys \<Longrightarrow> emits A (f y ys)) \<Longrightarrow>
   emits A (case xs of [] \<Rightarrow> m | y # ys \<Rightarrow> f y ys)"
  by (cases xs) simp_all

lemma emits_Let [emits_intro]: "(\<And>y. y = x \<Longrightarrow> emits A (f y)) \<Longrightarrow> emits A (let y = x in f y)"
  by (simp add: Let_def)

lemma emits_forM [emits_intro]:
  "(\<And>x. x \<in> set xs \<Longrightarrow> emits A (body x)) \<Longrightarrow> emits A (forM xs body)"
proof (induction xs)
  case Nil
  show ?case by (simp add: emits_ret)
next
  case (Cons x xs)
  then show ?case
    by (simp, intro emits_intro) simp_all
qed

lemma andThen_ret [simp]: "andThen (ret x) f = f x"
  by (simp add: go_defs)

lemma andThen_panic [simp]: "andThen (panic s) f = panic s"
  by (simp add: go_defs)

lemma andThen_assoc: "andThen (andThen m f) g = andThen m (\<lambda>x. andThen (f x) g)"
  by (rule ext) (simp add: andThen_def split: prod.split outcome.split)

lemma andThen_perform: "andThen (perform c ans) f tr = f (ans tr) (tr @ [c])"
  by (simp add: go_defs)

lemma ret_iff [simp]: "ret x tr = (r, t) \<longleftrightarrow> r = Ret x \<and> t = tr" "fst (ret x tr) = Ret x"
  "snd (ret x tr) = tr"
  by (auto simp: go_defs)

lemma panic_iff [simp]: "panic s tr = (r, t) \<longleftrightarrow> r = Panic s \<and> t = tr" "fst (panic s tr) = Panic s"
  "snd (panic s tr) = tr"
  by (auto simp: go_defs)

lemma ret_apply: "ret x tr = (Ret x, tr)"
  by (simp add: go_defs)

lemma panic_apply: "panic s tr = (Panic s, tr)"
  by (simp add: go_defs)

lemma perform_apply: "perform c ans tr = (Ret (ans tr), tr @ [c])"
  by (simp add: go_defs)

lemma andThen_apply: "m tr = (Ret x, tr') \<Longrightarrow> andThen m f tr = f x tr'"
  by (simp add: go_defs)

lemma andThen_apply_panic: "m tr = (Panic s, tr') \<Longrightarrow> andThen m f tr = (Panic s, tr')"
  by (simp add: go_defs)

lemma andThen_Ret_iff:
  "andThen m f tr = (Ret y, t) \<longleftrightarrow> (\<exists>x tr'. m tr = (Ret x, tr') \<and> f x tr' = (Ret y, t))"
  by (cases "m tr") (auto simp: andThen_def split: outcome.splits)

text \<open>The usual step: return the wrapped error, or go on with the value.\<close>

lemma andThen_value_iff:
  "andThen m (\<lambda>r. case r of Inl e \<Rightarrow> ret (Inl (h e)) | Inr x \<Rightarrow> f x) tr = (Ret (Inr y), t) \<longleftrightarrow>
   (\<exists>x tr'. m tr = (Ret (Inr x), tr') \<and> f x tr' = (Ret (Inr y), t))"
  unfolding andThen_Ret_iff by (auto split: sum.split_asm)

text \<open>The same for functions that answer only an error.\<close>

lemma andThen_nil_iff:
  "andThen m (\<lambda>r. case r of Inl e \<Rightarrow> ret (Some (h e)) | Inr x \<Rightarrow> f x) tr = (Ret None, t) \<longleftrightarrow>
   (\<exists>x tr'. m tr = (Ret (Inr x), tr') \<and> f x tr' = (Ret None, t))"
  "andThen m' (\<lambda>err. case err of None \<Rightarrow> g | Some e \<Rightarrow> ret (Some (h' e))) tr = (Ret None, t) \<longleftrightarrow>
   (\<exists>tr'. m' tr = (Ret None, tr') \<and> g tr' = (Ret None, t))"
  "andThen m'' (\<lambda>(err, x). case err of None \<Rightarrow> f' x | Some e \<Rightarrow> ret (Some (h'' e))) tr = (Ret None, t) \<longleftrightarrow>
   (\<exists>x tr'. m'' tr = (Ret (None, x), tr') \<and> f' x tr' = (Ret None, t))"
  unfolding andThen_Ret_iff by (auto split: sum.split_asm option.split_asm)

lemma emits_run:
  assumes "emits A m" and "m tr = (r, t)"
  obtains new where "t = tr @ new" and "set new \<subseteq> A"
  using emitsD [OF assms(1), of tr] assms(2) by auto

lemma emits_prefix: "emits A m \<Longrightarrow> m tr = (r, t) \<Longrightarrow> prefix tr t"
  by (erule (1) emits_run) simp

text \<open>A call that the first step cannot make is made by the rest of the run.\<close>

lemma late_call:
  assumes m: "emits A m" and "c \<notin> A" and f: "\<And>x. emits UNIV (f x)"
    and c: "c \<in> set (new_calls (andThen m f) tr)"
  obtains x tr' where "m tr = (Ret x, tr')" and "prefix tr tr'"
    and "c \<in> set (new_calls (f x) tr')" and "andThen m f tr = f x tr'"
proof -
  from emitsD [OF m, of tr] obtain new where new: "snd (m tr) = tr @ new" "set new \<subseteq> A" by blast
  show thesis
  proof (cases "fst (m tr)")
    case (Ret x)
    with new have mx: "m tr = (Ret x, tr @ new)" by (metis prod.collapse)
    then have eq: "andThen m f tr = f x (tr @ new)" by (rule andThen_apply)
    from emitsD [OF f, of x "tr @ new"] obtain new' where
      new': "snd (f x (tr @ new)) = (tr @ new) @ new'" by blast
    with eq c \<open>c \<notin> A\<close> new(2) have "c \<in> set (new_calls (f x) (tr @ new))"
      by (auto simp: new_calls_def)
    with mx eq show ?thesis by (intro that) auto
  next
    case (Panic s)
    with new have "m tr = (Panic s, tr @ new)" by (metis prod.collapse)
    then have "andThen m f tr = (Panic s, tr @ new)" by (rule andThen_apply_panic)
    with c \<open>c \<notin> A\<close> new(2) show ?thesis by (auto simp: new_calls_def)
  qed
qed

text \<open>Bounds that depend on what the first computation can answer.\<close>

lemma emits_bind:
  assumes m: "emits A m" and f: "\<And>x tr t. m tr = (Ret x, t) \<Longrightarrow> emits A (f x)"
  shows "emits A (andThen m f)"
proof (rule emitsI)
  fix tr
  obtain r t where run: "m tr = (r, t)" by fastforce
  with emitsD [OF m, of tr] obtain new where new: "t = tr @ new" "set new \<subseteq> A" by auto
  show "\<exists>new. snd (andThen m f tr) = tr @ new \<and> set new \<subseteq> A"
  proof (cases r)
    case (Ret x)
    with f run emitsD [of A "f x" t] obtain new' where "snd (f x t) = t @ new'" "set new' \<subseteq> A" by blast
    with run Ret new show ?thesis by (intro exI [of _ "new @ new'"]) (simp add: andThen_def)
  next
    case (Panic s)
    with run new show ?thesis by (simp add: andThen_def)
  qed
qed

lemma emits_bind_perform:
  "c \<in> A \<Longrightarrow> (\<And>tr. emits A (f (ans tr))) \<Longrightarrow> emits A (andThen (perform c ans) f)"
  unfolding emits_def andThen_perform
  by (metis (no_types, opaque_lifting) append.assoc append_Cons append_Nil insert_subset list.simps(15))

text \<open>What the first computation did stays.\<close>

lemma prefix_andThen: "(\<And>x. emits UNIV (f x)) \<Longrightarrow> prefix (snd (m tr)) (snd (andThen m f tr))"
  by (auto simp: andThen_def split: prod.split outcome.split) (metis emits_prefix prod.collapse)

subsection \<open>Postconditions\<close>

lemma returnsD: "returns P m \<Longrightarrow> m tr = (Ret x, t) \<Longrightarrow> P x"
  unfolding returns_def by blast

lemma returns_ret [returns_intro]: "P x \<Longrightarrow> returns P (ret x)"
  by (simp add: returns_def)

lemma returns_panic [returns_intro]: "returns P (panic s)"
  by (simp add: returns_def)

lemma returns_andThen [returns_intro]: "(\<And>x. returns P (f x)) \<Longrightarrow> returns P (andThen m f)"
  unfolding returns_def andThen_Ret_iff by blast

lemma returns_if [returns_intro]:
  "(b \<Longrightarrow> returns P m) \<Longrightarrow> (\<not> b \<Longrightarrow> returns P n) \<Longrightarrow> returns P (if b then m else n)"
  by simp

lemma returns_case_option [returns_intro]:
  "(x = None \<Longrightarrow> returns P m) \<Longrightarrow> (\<And>y. x = Some y \<Longrightarrow> returns P (f y)) \<Longrightarrow>
   returns P (case x of None \<Rightarrow> m | Some y \<Rightarrow> f y)"
  by (cases x) simp_all

lemma returns_case_sum [returns_intro]:
  "(\<And>y. x = Inl y \<Longrightarrow> returns P (f y)) \<Longrightarrow> (\<And>y. x = Inr y \<Longrightarrow> returns P (g y)) \<Longrightarrow>
   returns P (case x of Inl y \<Rightarrow> f y | Inr y \<Rightarrow> g y)"
  by (cases x) simp_all

lemma returns_case_prod [returns_intro]:
  "(\<And>y z. x = (y, z) \<Longrightarrow> returns P (f y z)) \<Longrightarrow> returns P (case x of (y, z) \<Rightarrow> f y z)"
  by (cases x) simp_all

lemma returns_Let [returns_intro]: "(\<And>y. y = x \<Longrightarrow> returns P (f y)) \<Longrightarrow> returns P (let y = x in f y)"
  by (simp add: Let_def)

subsection \<open>Absence of panics\<close>

text \<open>\<open>no_panic m\<close>: every run of \<open>m\<close> returns.\<close>

definition no_panic :: "('c, 'a) io \<Rightarrow> bool" where
  "no_panic m \<longleftrightarrow> (\<forall>tr. \<exists>x t. m tr = (Ret x, t))"

lemma no_panic_ret [no_panic_intro]: "no_panic (ret x)"
  by (simp add: no_panic_def)

lemma no_panic_perform [no_panic_intro]: "no_panic (perform c ans)"
  by (simp add: no_panic_def perform_apply)

lemma no_panic_andThen [no_panic_intro]:
  assumes "no_panic m" and "\<And>x. no_panic (f x)"
  shows "no_panic (andThen m f)"
  unfolding no_panic_def
proof
  fix tr
  from assms(1) obtain x t where "m tr = (Ret x, t)" unfolding no_panic_def by blast
  moreover from assms(2) obtain y u where "f x t = (Ret y, u)" unfolding no_panic_def by blast
  ultimately show "\<exists>y u. andThen m f tr = (Ret y, u)" by (simp add: andThen_def)
qed

lemma no_panic_if [no_panic_intro]:
  "(b \<Longrightarrow> no_panic m) \<Longrightarrow> (\<not> b \<Longrightarrow> no_panic n) \<Longrightarrow> no_panic (if b then m else n)"
  by simp

lemma no_panic_case_option [no_panic_intro]:
  "(x = None \<Longrightarrow> no_panic m) \<Longrightarrow> (\<And>y. x = Some y \<Longrightarrow> no_panic (f y)) \<Longrightarrow>
   no_panic (case x of None \<Rightarrow> m | Some y \<Rightarrow> f y)"
  by (cases x) simp_all

lemma no_panic_case_sum [no_panic_intro]:
  "(\<And>y. x = Inl y \<Longrightarrow> no_panic (f y)) \<Longrightarrow> (\<And>y. x = Inr y \<Longrightarrow> no_panic (g y)) \<Longrightarrow>
   no_panic (case x of Inl y \<Rightarrow> f y | Inr y \<Rightarrow> g y)"
  by (cases x) simp_all

lemma no_panic_case_prod [no_panic_intro]:
  "(\<And>y z. x = (y, z) \<Longrightarrow> no_panic (f y z)) \<Longrightarrow> no_panic (case x of (y, z) \<Rightarrow> f y z)"
  by (cases x) simp_all

lemma no_panic_case_list [no_panic_intro]:
  "(xs = [] \<Longrightarrow> no_panic m) \<Longrightarrow> (\<And>y ys. xs = y # ys \<Longrightarrow> no_panic (f y ys)) \<Longrightarrow>
   no_panic (case xs of [] \<Rightarrow> m | y # ys \<Rightarrow> f y ys)"
  by (cases xs) simp_all

lemma no_panic_Let [no_panic_intro]: "(\<And>y. y = x \<Longrightarrow> no_panic (f y)) \<Longrightarrow> no_panic (let y = x in f y)"
  by (simp add: Let_def)

text \<open>The combinators at one trace, for rewriting a run step by step.\<close>

lemmas run_simps = andThen_perform perform_apply ret_apply panic_apply andThen_def

end
