(* ===== verification/Api_Types.thy ===== *)
theory Api_Types
  imports Go_Prelude
begin

text \<open>
  The data of \<^verbatim>\<open>pkg/apis/alibabacloud.com/v1/types.go\<close>, of \<^verbatim>\<open>pkg/iaas/provider/provider.go\<close>
  and of \<^verbatim>\<open>pkg/actions/etcd/types.go\<close>, one record per Go struct with the source's fields
  (prefixed, so that two structs may share a field name), and the part of the Kubernetes
  object types that the sources read or write: names, labels, finalizers, the provider id,
  the conditions and the addresses of a node. A pointer field is an option, a Go map is an
  association list, and a map that may be nil is an option of one.
\<close>

section \<open>Kubernetes objects\<close>

type_synonym labels = "(string \<times> string) list"

record ObjectMeta =
  om_Name :: string
  om_Namespace :: string
  om_UID :: string
  om_Labels :: "labels option"
  om_Finalizers :: "string list"
  om_Deleted :: bool

record NodeCondition =
  nc_Type :: string
  nc_Status :: string
  nc_LastHeartbeatTime :: int
  nc_Reason :: string

record Node =
  node_Meta :: ObjectMeta
  node_ProviderID :: string
  node_Conditions :: "NodeCondition list"
  node_Addresses :: "string list"

section \<open>Cluster, master and node pool resources\<close>

record KeyCert =
  kc_Key :: string
  kc_Cert :: string

record Host =
  host_ID :: string
  host_IP :: string

record Unit =
  unit_Name :: string
  unit_Version :: string
  unit_Paras :: "(string \<times> string) list option"

record Kubernetes =
  k8s_Unit :: Unit
  k8s_KubeadmToken :: string
  k8s_RootCA :: "KeyCert option"
  k8s_FrontProxyCA :: "KeyCert option"
  k8s_SvcAccountCA :: "KeyCert option"
  k8s_ControlRoot :: "KeyCert option"

record EtcdSpec =
  etcd_Unit :: Unit
  etcd_Endpoints :: string
  etcd_InitToken :: string
  etcd_PeerCA :: "KeyCert option"
  etcd_ServerCA :: "KeyCert option"

record Endpoint =
  ep_Intranet :: string
  ep_Internet :: string

record Network =
  net_Mode :: string
  net_PodCIDR :: string
  net_SVCCIDR :: string
  net_Domain :: string
  net_NetMask :: string

record Provider =
  prvd_Name :: string
  prvd_Value :: string

record Disk =
  disk_Size :: string
  disk_Type :: string

record SecretValue =
  sv_Name :: string
  sv_Password :: string

record Secret =
  sec_Type :: string
  sec_Value :: SecretValue

record BindInfra =
  bi_Image :: string
  bi_Disk :: Disk
  bi_Secret :: Secret
  bi_Sysctl :: "string list"
  bi_Region :: string
  bi_ZoneId :: string
  bi_Instance :: string
  bi_WorkerCount :: int
  bi_Provider :: "Provider option"
  bi_ResourceId :: string

record ClusterSpec =
  cs_Bind :: BindInfra
  cs_ClusterID :: string
  cs_Namespace :: string
  cs_CloudType :: string
  cs_Network :: Network
  cs_Etcd :: EtcdSpec
  cs_Runtime :: Unit
  cs_Kubernetes :: Kubernetes
  cs_AddonInitialized :: bool
  cs_Sans :: "string list"
  cs_Token :: string
  cs_Registry :: string
  cs_Endpoint :: Endpoint
  cs_SilentTime :: int

record Cluster =
  cl_Meta :: ObjectMeta
  cl_Spec :: ClusterSpec
  cl_Peers :: "Host list"

record MasterSpec =
  ms_IP :: string
  ms_ID :: string
  ms_Role :: string

record MasterStatus =
  mst_Peer :: "Host list"
  mst_BootCFG :: "Cluster option"
  mst_InstanceId :: string

record Master =
  m_Meta :: ObjectMeta
  m_Spec :: MasterSpec
  m_Status :: MasterStatus

record MasterSet =
  mset_Meta :: ObjectMeta
  mset_Replicas :: int
  mset_InstanceIDS :: "string list"
  mset_BootCFG :: "Cluster option"

record BindID =
  bind_VswitchIDS :: "string list"
  bind_ScalingGroupId :: string
  bind_ConfigurationId :: string

record InfraSpec =
  inf_DesiredCapacity :: int
  inf_ImageId :: string
  inf_CPU :: int
  inf_Mem :: int
  inf_Tags :: "(string \<times> string) list option"
  inf_Bind :: "BindID option"

record NodePoolSpec =
  nps_NodePoolID :: string
  nps_AutoHeal :: bool
  nps_Infra :: InfraSpec

record NodePool =
  np_Meta :: ObjectMeta
  np_Spec :: NodePoolSpec

section \<open>Options and cluster ids\<close>

record ContextKey =
  ck_ProviderKey :: string

record ContextItem =
  ci_Name :: string
  ci_Context :: "ContextKey option"

record ProviderItem =
  pi_Name :: string
  pi_Provider :: "Provider option"

record ContextCFG =
  cc_Kind :: string
  cc_APIVersion :: string
  cc_CurrentContext :: string
  cc_Contexts :: "ContextItem list"
  cc_Providers :: "ProviderItem list"

record OperatorFlag =
  of_MetricsAddr :: string
  of_EnableLeader :: bool
  of_BindAddr :: string
  of_Token :: string
  of_MetaConfig :: string
  of_InitialCount :: int

record WdripOptions =
  wo_Endpoint :: string
  wo_Role :: string
  wo_Token :: string
  wo_Config :: string
  wo_Bucket :: string
  wo_BootType :: string
  wo_Resource :: string
  wo_TargetCount :: int
  wo_RecoverFrom :: string
  wo_ClusterName :: string
  wo_Default :: "ContextCFG option"
  wo_Addons :: string
  wo_ExpectedMasterCnt :: int
  wo_RecoverMode :: string
  wo_OperatorCFG :: OperatorFlag

record ClusterIdSpec =
  cis_ResourceId :: string
  cis_ExtraRIDs :: "string list"
  cis_CreatedAt :: string
  cis_UpdatedAt :: string
  cis_Options :: "WdripOptions option"
  cis_Cluster :: ClusterSpec

record ClusterId =
  cid_Meta :: ObjectMeta
  cid_Spec :: ClusterIdSpec

text \<open>
  \<^verbatim>\<open>(*ContextCFG).CurrentPrvdCFG\<close>: for every context with the current name, the first provider
  under its key; a nil context panics, no provider is nil.
\<close>

fun prvdCFG :: "string \<Rightarrow> ProviderItem list \<Rightarrow> ContextItem list \<Rightarrow> Provider option outcome" where
  "prvdCFG cur prvds [] = Ret None"
| "prvdCFG cur prvds (v # vs) =
     (if ci_Name v = cur
      then (case prvds of
          [] \<Rightarrow> prvdCFG cur prvds vs
        | _ \<Rightarrow> (case ci_Context v of
            None \<Rightarrow> Panic ''invalid memory address or nil pointer dereference''
          | Some c \<Rightarrow> (case find (\<lambda>p. pi_Name p = ck_ProviderKey c) prvds of
              Some p \<Rightarrow> Ret (pi_Provider p)
            | None \<Rightarrow> prvdCFG cur prvds vs)))
      else prvdCFG cur prvds vs)"

definition CurrentPrvdCFG :: "ContextCFG \<Rightarrow> Provider option outcome" where
  "CurrentPrvdCFG i = prvdCFG (cc_CurrentContext i) (cc_Providers i) (cc_Contexts i)"

section \<open>Provider values\<close>

text \<open>The dynamic value of an \<^verbatim>\<open>interface{}\<close>: nil, a string, or a value of another type.\<close>

datatype goval = VNil | VStr string | VOther

record Value =
  val_Key :: string
  val_Val :: goval

record Instance =
  ins_Region :: string
  ins_Id :: string
  ins_Ip :: string
  ins_Tags :: "Value list"
  ins_CreatedAt :: string
  ins_UpdatedAt :: string
  ins_Status :: string

section \<open>Etcd members\<close>

record Member =
  mem_ID :: "int option"
  mem_IP :: string
  mem_State :: string
  mem_Name :: string
  mem_PeerURLs :: "string list"
  mem_ClientURLs :: "string list"

record Header =
  hdr_ClusterID :: "int option"
  hdr_MemberID :: "int option"
  hdr_Revision :: "int option"
  hdr_RaftTerm :: "int option"

record Status =
  st_Header :: Header
  st_Version :: string
  st_DBsize :: "int option"
  st_Leader :: "int option"
  st_RaftIndex :: "int option"
  st_RaftTerm :: "int option"

record EndpointStatus =
  es_Endpoint :: string
  es_Status :: Status

section \<open>Constants and zero values\<close>

definition NODE_ROLE_MASTER :: string where "NODE_ROLE_MASTER = ''Master''"
definition NODE_ROLE_ETCD :: string where "NODE_ROLE_ETCD = ''ETCD''"
definition NODE_ROLE_WORKER :: string where "NODE_ROLE_WORKER = ''Worker''"
definition NODE_ROLE_HYBRID :: string where "NODE_ROLE_HYBRID = ''Hybrid''"

definition KUBERNETES_CLUSTER :: string where
  "KUBERNETES_CLUSTER = ''kubernetes-cluster''"

definition ActionInstanceIDS :: string where "ActionInstanceIDS = ''InstanceIDS''"

definition MasterUserdata :: string where "MasterUserdata = ''Master''"
definition WorkerUserdata :: string where "WorkerUserdata = ''Worker''"
definition RecoverUserdata :: string where "RecoverUserdata = ''Recover''"
definition JoinMasterUserdata :: string where "JoinMasterUserdata = ''JoinMaster''"

definition zeroMeta :: ObjectMeta where
  "zeroMeta = \<lparr>om_Name = [], om_Namespace = [], om_UID = [], om_Labels = None,
     om_Finalizers = [], om_Deleted = False\<rparr>"

definition zeroCondition :: NodeCondition where
  "zeroCondition = \<lparr>nc_Type = [], nc_Status = [], nc_LastHeartbeatTime = - 62135596800000000000,
     nc_Reason = []\<rparr>"

definition zeroMasterStatus :: MasterStatus where
  "zeroMasterStatus = \<lparr>mst_Peer = [], mst_BootCFG = None, mst_InstanceId = []\<rparr>"

definition zeroMember :: Member where
  "zeroMember = \<lparr>mem_ID = None, mem_IP = [], mem_State = [], mem_Name = [], mem_PeerURLs = [],
     mem_ClientURLs = []\<rparr>"

text \<open>\<^verbatim>\<open>(*Master).String\<close> and \<^verbatim>\<open>ToMasterStringList\<close>.\<close>

definition masterString :: "Master \<Rightarrow> string" where
  "masterString m = ''master://'' @ om_Name (m_Meta m) @ ''/'' @ ms_ID (m_Spec m) @ ''/'' @
     ms_IP (m_Spec m) @ ''/'' @ mst_InstanceId (m_Status m)"

definition ToMasterStringList :: "Master list \<Rightarrow> string list" where
  "ToMasterStringList ms = map masterString ms"

text \<open>The \<^verbatim>\<open>client.Object\<close> values the sources pass to the client.\<close>

datatype kobj = ONode Node | OMaster Master | OMasterSet MasterSet | ONodePool NodePool
  | OCluster Cluster

fun kobj_meta :: "kobj \<Rightarrow> ObjectMeta" where
  "kobj_meta (ONode n) = node_Meta n"
| "kobj_meta (OMaster m) = m_Meta m"
| "kobj_meta (OMasterSet m) = mset_Meta m"
| "kobj_meta (ONodePool p) = np_Meta p"
| "kobj_meta (OCluster c) = cl_Meta c"

abbreviation node_Name :: "Node \<Rightarrow> string" where
  "node_Name n \<equiv> om_Name (node_Meta n)"

abbreviation np_Name :: "NodePool \<Rightarrow> string" where
  "np_Name p \<equiv> om_Name (np_Meta p)"

abbreviation m_Name :: "Master \<Rightarrow> string" where
  "m_Name m \<equiv> om_Name (m_Meta m)"

text \<open>\<^verbatim>\<open>m[k] = v\<close> on a Go map: replaces the value in place or adds the key.\<close>

fun put :: "('k \<times> 'v) list \<Rightarrow> 'k \<Rightarrow> 'v \<Rightarrow> ('k \<times> 'v) list" where
  "put [] k v = [(k, v)]"
| "put ((k', v') # m) k v = (if k' = k then (k, v) # m else (k', v') # put m k v)"

lemma map_of_put [simp]: "map_of (put m k v) = (map_of m)(k \<mapsto> v)"
  by (induction m) auto

lemma keys_put: "set (map fst (put m k v)) = insert k (set (map fst m))"
proof (induction m)
  case (Cons a m)
  then show ?case by (cases a) (simp add: insert_commute)
qed simp

lemma distinct_put: "distinct (map fst m) \<Longrightarrow> distinct (map fst (put m k v))"
proof (induction m)
  case (Cons a m)
  then show ?case using keys_put [of m k v] by (cases a) auto
qed simp

end
