(* ===== verification/World.thy ===== *)
theory World
  imports Api_Types
begin

text \<open>
  The outside world as the control plane sees it. A \<open>call\<close> is one interaction: a request to
  the API server through \<^verbatim>\<open>client.Client\<close>, a method of the \<^verbatim>\<open>provider.Interface\<close>, a
  command run on the host, a file operation, a reading of the clock. Every interaction is
  appended to the trace; the answers come from an environment \<open>env\<close>, whose fields are
  functions of the trace before the call, so that an answer may differ from one call to the
  next and may depend on everything done so far.
\<close>

section \<open>Calls\<close>

text \<open>The label selectors the sources build: everything, or one label with one value.\<close>

datatype selector = SelAll | SelLabel string string

text \<open>The calls, by the party they go to and by whether they change anything there.\<close>

datatype sys_call = NowC | IntnC nat | SleepC int | TimerC int | RangeC nat | LockC string
  | UnlockC string | SetCheckingC bool | GetCheckingC

datatype kube_read = GetNodeC string | GetMasterC string string | GetMasterSetC string string
  | GetNodePoolC string string | GetClusterC string string | GetDeploymentC string string
  | ListNodesC selector | ListMastersC

datatype kube_write = CreateC kobj | DeleteC kobj | PatchC kobj | PatchStatusC kobj

datatype prvd_read = GetStackOutPutsC string | GetInfraStackC string
  | ScalingGroupDetailC string string | UserDataC string

datatype ecs_write = RunCommandC string string | RestartECSC string
  | ReplaceSystemDiskC string string | TagECSC string Value

datatype group_write = ModifyScalingConfigC string string | ScaleMasterGroupC string int
  | RemoveScalingGroupECSC string string | CreateNodeGroupC NodePool | DeleteNodeGroupC NodePool
  | ModifyNodeGroupC NodePool

text \<open>The object storage: a bucket, and in it objects under keys.\<close>

datatype blob_read = GetObjectC string string | ListObjectC string string | BucketInfoC string
  | GetReaderC string string

datatype blob_write = PutObjectC string string string | DeleteObjectC string string
  | PutFileC string string string | PutBucketC string

text \<open>The life cycle of a cluster at the provider.\<close>

datatype cluster_call = CreateClusterC ClusterSpec | RecoverClusterC ClusterId | DeleteClusterC ClusterId
  | WatchResultC ClusterId

datatype drain_call = CordonC string bool | GetPodsC string | EvictC "string list"

datatype host_read = ExistC string | SignC string string | OpenReadC string | HomeC | ReadFileC string

datatype host_write = OpenWriteC string | CopyC string | CmdC "string list" | MkdirAllC string | WriteC string string
  | RenameC string string | RemoveAllC string

datatype call = Sys sys_call | KubeRead kube_read | KubeWrite kube_write | PrvdRead prvd_read
  | EcsWrite ecs_write | GroupWrite group_write | BlobRead blob_read | BlobWrite blob_write
  | DrainCall drain_call | HostRead host_read | HostWrite host_write | ClusterCall cluster_call

text \<open>Names for the calls as the other theories use them.\<close>

abbreviation "CNow \<equiv> Sys NowC"
abbreviation "CIntn n \<equiv> Sys (IntnC n)"
abbreviation "CSleep d \<equiv> Sys (SleepC d)"
abbreviation "CTimer d \<equiv> Sys (TimerC d)"
abbreviation "CRange n \<equiv> Sys (RangeC n)"
abbreviation "CLock l \<equiv> Sys (LockC l)"
abbreviation "CUnlock l \<equiv> Sys (UnlockC l)"
abbreviation "CSetChecking b \<equiv> Sys (SetCheckingC b)"
abbreviation "CGetChecking \<equiv> Sys GetCheckingC"
abbreviation "KGetNode n \<equiv> KubeRead (GetNodeC n)"
abbreviation "KGetMaster ns n \<equiv> KubeRead (GetMasterC ns n)"
abbreviation "KGetMasterSet ns n \<equiv> KubeRead (GetMasterSetC ns n)"
abbreviation "KGetNodePool ns n \<equiv> KubeRead (GetNodePoolC ns n)"
abbreviation "KGetCluster ns n \<equiv> KubeRead (GetClusterC ns n)"
abbreviation "KGetDeployment ns n \<equiv> KubeRead (GetDeploymentC ns n)"
abbreviation "KListNodes sel \<equiv> KubeRead (ListNodesC sel)"
abbreviation "KListMasters \<equiv> KubeRead ListMastersC"
abbreviation "KCreate x \<equiv> KubeWrite (CreateC x)"
abbreviation "KDelete x \<equiv> KubeWrite (DeleteC x)"
abbreviation "KPatch x \<equiv> KubeWrite (PatchC x)"
abbreviation "KPatchStatus x \<equiv> KubeWrite (PatchStatusC x)"
abbreviation "PGetStackOutPuts i \<equiv> PrvdRead (GetStackOutPutsC i)"
abbreviation "PGetInfraStack i \<equiv> PrvdRead (GetInfraStackC i)"
abbreviation "PScalingGroupDetail g a \<equiv> PrvdRead (ScalingGroupDetailC g a)"
abbreviation "PUserData r \<equiv> PrvdRead (UserDataC r)"
abbreviation "PRunCommand i c \<equiv> EcsWrite (RunCommandC i c)"
abbreviation "PRestartECS i \<equiv> EcsWrite (RestartECSC i)"
abbreviation "PReplaceSystemDisk i d \<equiv> EcsWrite (ReplaceSystemDiskC i d)"
abbreviation "PTagECS i v \<equiv> EcsWrite (TagECSC i v)"
abbreviation "PModifyScalingConfig g d \<equiv> GroupWrite (ModifyScalingConfigC g d)"
abbreviation "PScaleMasterGroup g n \<equiv> GroupWrite (ScaleMasterGroupC g n)"
abbreviation "PRemoveScalingGroupECS g i \<equiv> GroupWrite (RemoveScalingGroupECSC g i)"
abbreviation "PCreateNodeGroup p \<equiv> GroupWrite (CreateNodeGroupC p)"
abbreviation "PDeleteNodeGroup p \<equiv> GroupWrite (DeleteNodeGroupC p)"
abbreviation "PModifyNodeGroup p \<equiv> GroupWrite (ModifyNodeGroupC p)"
abbreviation "BGetObject b k \<equiv> BlobRead (GetObjectC b k)"
abbreviation "BListObject b p \<equiv> BlobRead (ListObjectC b p)"
abbreviation "BBucketInfo b \<equiv> BlobRead (BucketInfoC b)"
abbreviation "BGetReader b k \<equiv> BlobRead (GetReaderC b k)"
abbreviation "BPutObject b k d \<equiv> BlobWrite (PutObjectC b k d)"
abbreviation "BDeleteObject b k \<equiv> BlobWrite (DeleteObjectC b k)"
abbreviation "BPutFile b k f \<equiv> BlobWrite (PutFileC b k f)"
abbreviation "BPutBucket b \<equiv> BlobWrite (PutBucketC b)"
abbreviation "FOpenRead f \<equiv> HostRead (OpenReadC f)"
abbreviation "FOpenWrite f \<equiv> HostWrite (OpenWriteC f)"
abbreviation "FCopy f \<equiv> HostWrite (CopyC f)"
abbreviation "DCordon n b \<equiv> DrainCall (CordonC n b)"
abbreviation "DGetPods n \<equiv> DrainCall (GetPodsC n)"
abbreviation "DEvict ps \<equiv> DrainCall (EvictC ps)"
abbreviation "FExist f \<equiv> HostRead (ExistC f)"
abbreviation "FHome \<equiv> HostRead HomeC"
abbreviation "FReadFile f \<equiv> HostRead (ReadFileC f)"
abbreviation "PCreate spec \<equiv> ClusterCall (CreateClusterC spec)"
abbreviation "PRecover i \<equiv> ClusterCall (RecoverClusterC i)"
abbreviation "PDelete i \<equiv> ClusterCall (DeleteClusterC i)"
abbreviation "PWatchResult i \<equiv> ClusterCall (WatchResultC i)"
abbreviation "FSign k i \<equiv> HostRead (SignC k i)"
abbreviation "XCmd as \<equiv> HostWrite (CmdC as)"
abbreviation "FMkdirAll f \<equiv> HostWrite (MkdirAllC f)"
abbreviation "FWrite f d \<equiv> HostWrite (WriteC f d)"
abbreviation "FRename f g \<equiv> HostWrite (RenameC f g)"
abbreviation "FRemoveAll f \<equiv> HostWrite (RemoveAllC f)"

section \<open>Answers\<close>

text \<open>\<^verbatim>\<open>cmd.Status\<close> of a finished command.\<close>

record CmdStatus =
  cmd_Exit :: int
  cmd_Error :: "gerr option"
  cmd_Stdout :: "string list"
  cmd_Stderr :: "string list"

record env =
  e_err :: "call list \<Rightarrow> call \<Rightarrow> gerr option"
  e_now :: "call list \<Rightarrow> int"
  e_intn :: "call list \<Rightarrow> nat"
  e_ticks :: "call list \<Rightarrow> nat"
  e_perm :: "call list \<Rightarrow> nat \<Rightarrow> nat list"
  e_parse_time :: "string \<Rightarrow> int option"
  e_format_time :: "int \<Rightarrow> string"
  e_format_hour :: "int \<Rightarrow> string"
  e_in_cluster :: bool
  e_checking :: "call list \<Rightarrow> bool"
  e_node :: "call list \<Rightarrow> string \<Rightarrow> gerr + Node"
  e_master :: "call list \<Rightarrow> string \<Rightarrow> string \<Rightarrow> gerr + Master"
  e_masterset :: "call list \<Rightarrow> string \<Rightarrow> string \<Rightarrow> gerr + MasterSet"
  e_nodepool :: "call list \<Rightarrow> string \<Rightarrow> string \<Rightarrow> gerr + NodePool"
  e_cluster :: "call list \<Rightarrow> string \<Rightarrow> string \<Rightarrow> gerr + Cluster"
  e_ready_replicas :: "call list \<Rightarrow> string \<Rightarrow> string \<Rightarrow> gerr + int"
  e_nodes :: "call list \<Rightarrow> gerr + Node list"
  e_masters :: "call list \<Rightarrow> gerr + Master list"
  e_stack_outputs :: "call list \<Rightarrow> string \<Rightarrow> gerr + (string \<times> Value) list"
  e_infra_stack :: "call list \<Rightarrow> string \<Rightarrow> gerr + (string \<times> Value) list"
  e_scaling_group :: "call list \<Rightarrow> string \<Rightarrow> gerr + (string \<times> Instance) list"
  e_userdata :: "call list \<Rightarrow> string \<Rightarrow> gerr + string"
  e_create_group :: "call list \<Rightarrow> NodePool \<Rightarrow> gerr + BindID"
  e_cordon :: "call list \<Rightarrow> string \<Rightarrow> bool \<Rightarrow> gerr option \<times> gerr option"
  e_pods :: "call list \<Rightarrow> string \<Rightarrow> gerr + string list"
  e_aggregate :: "gerr option list \<Rightarrow> gerr"
  e_cmd :: "call list \<Rightarrow> string list \<Rightarrow> CmdStatus"
  e_exist :: "call list \<Rightarrow> string \<Rightarrow> gerr + bool"
  e_home :: "call list \<Rightarrow> gerr + string"
  e_read_file :: "call list \<Rightarrow> string \<Rightarrow> gerr + string"
  e_create_cluster :: "call list \<Rightarrow> ClusterSpec \<Rightarrow> gerr + ClusterId"
  e_watch :: "call list \<Rightarrow> ClusterId \<Rightarrow> ClusterId \<times> gerr option"
  e_sign :: "call list \<Rightarrow> string \<Rightarrow> string \<Rightarrow> gerr + KeyCert"
  e_object :: "call list \<Rightarrow> string \<Rightarrow> string \<Rightarrow> gerr + string"
  e_list_object :: "call list \<Rightarrow> string \<Rightarrow> string \<Rightarrow> gerr + string list"
  e_label_valid :: "string \<Rightarrow> bool"
  e_marshal :: "kobj \<Rightarrow> gerr option"
  e_merge_patch :: "kobj \<Rightarrow> kobj \<Rightarrow> gerr option"
  e_json_members :: "string \<Rightarrow> Member list \<Rightarrow> Member list \<times> gerr option"
  e_json_endpoints :: "string \<Rightarrow> gerr + EndpointStatus list"
  e_hash_object :: "NodePoolSpec \<Rightarrow> gerr + string"

type_synonym 'a eff = "(call, 'a) io"

section \<open>Classes of calls\<close>

text \<open>The calls that change the cluster, the cloud resources, the host or shared memory.\<close>

fun mutating :: "call \<Rightarrow> bool" where
  "mutating (Sys c) = (case c of LockC _ \<Rightarrow> True | UnlockC _ \<Rightarrow> True | SetCheckingC _ \<Rightarrow> True | _ \<Rightarrow> False)"
| "mutating (KubeRead _) = False"
| "mutating (KubeWrite _) = True"
| "mutating (PrvdRead _) = False"
| "mutating (EcsWrite _) = True"
| "mutating (GroupWrite _) = True"
| "mutating (BlobRead _) = False"
| "mutating (BlobWrite _) = True"
| "mutating (DrainCall c) = (case c of GetPodsC _ \<Rightarrow> False | _ \<Rightarrow> True)"
| "mutating (HostRead _) = False"
| "mutating (HostWrite _) = True"
| "mutating (ClusterCall c) = (case c of WatchResultC _ \<Rightarrow> False | _ \<Rightarrow> True)"

definition reads :: "call set" where
  "reads = {c. \<not> mutating c}"

lemma in_reads [simp]: "c \<in> reads \<longleftrightarrow> \<not> mutating c"
  by (simp add: reads_def)

section \<open>Primitive interactions\<close>

definition nil_deref :: string where
  "nil_deref = ''invalid memory address or nil pointer dereference''"

definition out_of_range :: string where
  "out_of_range = ''index out of range''"

text \<open>A call whose only answer is an error.\<close>

definition do_call :: "env \<Rightarrow> call \<Rightarrow> gerr option eff" where
  "do_call E c = perform c (\<lambda>tr. e_err E tr c)"

definition now :: "env \<Rightarrow> int eff" where
  "now E = perform CNow (e_now E)"

text \<open>\<^verbatim>\<open>rand.Intn(n)\<close> answers a number below \<open>n\<close> and panics for \<open>n = 0\<close>.\<close>

definition Intn :: "env \<Rightarrow> nat \<Rightarrow> nat eff" where
  "Intn E n = (if n = 0 then panic ''invalid argument to Intn''
     else perform (CIntn n) (\<lambda>tr. e_intn E tr mod n))"

definition Sleep :: "int \<Rightarrow> unit eff" where
  "Sleep d = perform (CSleep d) (\<lambda>tr. ())"

text \<open>
  \<^verbatim>\<open>for k, v := range m\<close> visits every entry of a map once, in an order the language leaves
  open. The environment proposes a permutation of the positions; a proposal that is none
  leaves the order as it is.
\<close>

definition range_map :: "env \<Rightarrow> 'a list \<Rightarrow> 'a list eff" where
  "range_map E xs = perform (CRange (length xs)) (\<lambda>tr.
     let p = e_perm E tr (length xs)
     in if sort p = [0..<length xs] then map ((!) xs) p else xs)"

definition matches :: "selector \<Rightarrow> Node \<Rightarrow> bool" where
  "matches sel n = (case sel of
     SelAll \<Rightarrow> True
   | SelLabel k v \<Rightarrow> (case om_Labels (node_Meta n) of
       None \<Rightarrow> False
     | Some ls \<Rightarrow> map_of ls k = Some v))"

text \<open>\<^verbatim>\<open>client.List\<close> of the nodes a selector matches.\<close>

definition list_nodes :: "env \<Rightarrow> selector \<Rightarrow> (gerr + Node list) eff" where
  "list_nodes E sel = perform (KListNodes sel) (\<lambda>tr. case e_nodes E tr of
     Inl e \<Rightarrow> Inl e
   | Inr ns \<Rightarrow> Inr (filter (matches sel) ns))"

definition run_cmd :: "env \<Rightarrow> string list \<Rightarrow> CmdStatus eff" where
  "run_cmd E args = perform (XCmd args) (\<lambda>tr. e_cmd E tr args)"

text \<open>
  \<^verbatim>\<open>wait.Poll\<close> and \<^verbatim>\<open>wait.PollImmediate\<close> of \<^verbatim>\<open>k8s.io/apimachinery\<close>: the condition is tried at
  every tick until it is done, fails, or the timer has run out. The number of ticks before
  the timer runs out is the environment's. The condition answers \<open>(done, err)\<close>.
\<close>

definition ErrWaitTimeout :: gerr where
  "ErrWaitTimeout = Errorf ''timed out waiting for the condition''"

fun poll_ticks :: "nat \<Rightarrow> ('c, bool \<times> gerr option) io \<Rightarrow> ('c, gerr option) io" where
  "poll_ticks 0 cond = ret (Some ErrWaitTimeout)"
| "poll_ticks (Suc n) cond = andThen cond (\<lambda>(fin, err). case err of
     Some e \<Rightarrow> ret (Some e)
   | None \<Rightarrow> if fin then ret None else poll_ticks n cond)"

definition Poll :: "env \<Rightarrow> int \<Rightarrow> (bool \<times> gerr option) eff \<Rightarrow> gerr option eff" where
  "Poll E timeout cond =
     andThen (perform (CTimer timeout) (e_ticks E)) (\<lambda>n. poll_ticks n cond)"

definition PollImmediate :: "env \<Rightarrow> int \<Rightarrow> (bool \<times> gerr option) eff \<Rightarrow> gerr option eff" where
  "PollImmediate E timeout cond =
     andThen cond (\<lambda>(fin, err). case err of
       Some e \<Rightarrow> ret (Some e)
     | None \<Rightarrow> if fin then ret None else Poll E timeout cond)"

text \<open>\<^verbatim>\<open>defer\<close>: a final call made whether the body returns or panics.\<close>

definition with_defer :: "'a eff \<Rightarrow> call \<Rightarrow> 'a eff" where
  "with_defer m c = (\<lambda>tr. case m tr of (r, tr') \<Rightarrow> (r, tr' @ [c]))"

section \<open>A concrete environment\<close>

text \<open>
  An environment for evaluating the definitions on examples: every write succeeds, the clock
  stands at \<open>1000\<close> seconds, times are the numbers of the API (a time stamp is parsed as zero),
  there are no objects, commands succeed with empty output and files exist. The examples
  override the fields they need.
\<close>

definition not_found :: gerr where
  "not_found = GErr ''not found'' True"

definition env0 :: env where
  "env0 = \<lparr>e_err = (\<lambda>tr c. None), e_now = (\<lambda>tr. 1000 * Second), e_intn = (\<lambda>tr. 0),
     e_ticks = (\<lambda>tr. 3), e_perm = (\<lambda>tr n. [0..<n]), e_parse_time = (\<lambda>s. Some 0),
     e_format_time = (\<lambda>t. ''1970-01-01T00:16:40Z''), e_format_hour = (\<lambda>t. ''19700101-0016''),
     e_in_cluster = True, e_checking = (\<lambda>tr. False),
     e_node = (\<lambda>tr n. Inl not_found), e_master = (\<lambda>tr ns n. Inl not_found),
     e_masterset = (\<lambda>tr ns n. Inl not_found), e_nodepool = (\<lambda>tr ns n. Inl not_found),
     e_cluster = (\<lambda>tr ns n. Inl not_found), e_ready_replicas = (\<lambda>tr ns n. Inr 0),
     e_nodes = (\<lambda>tr. Inr []), e_masters = (\<lambda>tr. Inr []),
     e_stack_outputs = (\<lambda>tr n. Inr []), e_infra_stack = (\<lambda>tr n. Inr []),
     e_scaling_group = (\<lambda>tr g. Inr []), e_userdata = (\<lambda>tr r. Inr ''userdata''),
     e_create_group = (\<lambda>tr np. Inl not_found), e_cordon = (\<lambda>tr n b. (None, None)),
     e_pods = (\<lambda>tr n. Inr []),
     e_aggregate = (\<lambda>es. Errorf ''aggregate''),
     e_cmd = (\<lambda>tr as. \<lparr>cmd_Exit = 0, cmd_Error = None, cmd_Stdout = [],
       cmd_Stderr = []\<rparr>),
     e_exist = (\<lambda>tr f. Inr True), e_home = (\<lambda>tr. Inr ''/root''),
     e_read_file = (\<lambda>tr f. Inl not_found), e_create_cluster = (\<lambda>tr spec. Inl not_found),
     e_watch = (\<lambda>tr i. (i, None)), e_sign = (\<lambda>tr k i. Inr \<lparr>kc_Key = [], kc_Cert = []\<rparr>),
     e_object = (\<lambda>tr b k. Inl not_found), e_list_object = (\<lambda>tr b p. Inr []),
     e_label_valid = (\<lambda>s. True), e_marshal = (\<lambda>x. None), e_merge_patch = (\<lambda>x y. None),
     e_json_members = (\<lambda>s ms. (ms, None)), e_json_endpoints = (\<lambda>s. Inr []),
     e_hash_object = (\<lambda>s. Inr ''hash'')\<rparr>"

definition node0 :: "string \<Rightarrow> string \<Rightarrow> bool \<Rightarrow> Node" where
  "node0 name pid ready = \<lparr>node_Meta = zeroMeta\<lparr>om_Name := name\<rparr>, node_ProviderID = pid,
     node_Conditions = [\<lparr>nc_Type = ''Ready'', nc_Status = if ready then ''True'' else ''False'',
       nc_LastHeartbeatTime = 1000 * Second, nc_Reason = []\<rparr>],
     node_Addresses = [''10.0.0.1'']\<rparr>"

definition instance0 :: "string \<Rightarrow> string \<Rightarrow> Instance" where
  "instance0 ident ip = \<lparr>ins_Region = ''cn'', ins_Id = ident, ins_Ip = ip, ins_Tags = [],
     ins_CreatedAt = [], ins_UpdatedAt = [], ins_Status = ''Running''\<rparr>"

definition master0 :: "string \<Rightarrow> string \<Rightarrow> string \<Rightarrow> Master" where
  "master0 name ident ip = \<lparr>m_Meta = zeroMeta\<lparr>om_Name := name\<rparr>,
     m_Spec = \<lparr>ms_IP = ip, ms_ID = ident, ms_Role = ''Hybrid''\<rparr>, m_Status = zeroMasterStatus\<rparr>"

definition unit0 :: Unit where
  "unit0 = \<lparr>unit_Name = [], unit_Version = [], unit_Paras = None\<rparr>"

definition spec0 :: ClusterSpec where
  "spec0 = \<lparr>cs_Bind = \<lparr>bi_Image = [], bi_Disk = \<lparr>disk_Size = [], disk_Type = []\<rparr>,
       bi_Secret = \<lparr>sec_Type = [], sec_Value = \<lparr>sv_Name = [], sv_Password = []\<rparr>\<rparr>,
       bi_Sysctl = [], bi_Region = ''cn'', bi_ZoneId = [], bi_Instance = [], bi_WorkerCount = 0,
       bi_Provider = None, bi_ResourceId = ''stack-1''\<rparr>,
     cs_ClusterID = ''c1'', cs_Namespace = [], cs_CloudType = [],
     cs_Network = \<lparr>net_Mode = [], net_PodCIDR = [], net_SVCCIDR = [], net_Domain = [],
       net_NetMask = []\<rparr>,
     cs_Etcd = \<lparr>etcd_Unit = unit0, etcd_Endpoints = [], etcd_InitToken = ''token'',
       etcd_PeerCA = Some \<lparr>kc_Key = ''pk'', kc_Cert = ''pc''\<rparr>,
       etcd_ServerCA = Some \<lparr>kc_Key = ''sk'', kc_Cert = ''sc''\<rparr>\<rparr>,
     cs_Runtime = unit0,
     cs_Kubernetes = \<lparr>k8s_Unit = unit0, k8s_KubeadmToken = [], k8s_RootCA = None,
       k8s_FrontProxyCA = None, k8s_SvcAccountCA = None, k8s_ControlRoot = None\<rparr>,
     cs_AddonInitialized = False, cs_Sans = [], cs_Token = [], cs_Registry = [],
     cs_Endpoint = \<lparr>ep_Intranet = [], ep_Internet = []\<rparr>, cs_SilentTime = 0\<rparr>"

definition cluster0 :: Cluster where
  "cluster0 = \<lparr>cl_Meta = zeroMeta\<lparr>om_Name := ''kubernetes-cluster''\<rparr>, cl_Spec = spec0,
     cl_Peers = []\<rparr>"

definition nodepool0 :: "string \<Rightarrow> BindID option \<Rightarrow> NodePool" where
  "nodepool0 name bind = \<lparr>np_Meta = zeroMeta\<lparr>om_Name := name, om_Namespace := ''kube-system''\<rparr>,
     np_Spec = \<lparr>nps_NodePoolID = name, nps_AutoHeal = False,
       nps_Infra = \<lparr>inf_DesiredCapacity = 1, inf_ImageId = [], inf_CPU = 4, inf_Mem = 8,
         inf_Tags = None, inf_Bind = bind\<rparr>\<rparr>\<rparr>"

section \<open>Lemmas\<close>

lemma emits_do_call [emits_intro]: "c \<in> A \<Longrightarrow> emits A (do_call E c)"
  by (simp add: do_call_def emits_perform)

lemma emits_now [emits_intro]: "CNow \<in> A \<Longrightarrow> emits A (now E)"
  by (simp add: now_def emits_perform)

lemma emits_Intn [emits_intro]: "CIntn n \<in> A \<Longrightarrow> emits A (Intn E n)"
  by (simp add: Intn_def emits_perform emits_panic)

lemma emits_Sleep [emits_intro]: "CSleep d \<in> A \<Longrightarrow> emits A (Sleep d)"
  by (simp add: Sleep_def emits_perform)

lemma emits_range_map [emits_intro]: "CRange (length xs) \<in> A \<Longrightarrow> emits A (range_map E xs)"
  by (simp add: range_map_def emits_perform)

lemma emits_list_nodes [emits_intro]: "KListNodes sel \<in> A \<Longrightarrow> emits A (list_nodes E sel)"
  by (simp add: list_nodes_def emits_perform)

lemma emits_run_cmd [emits_intro]: "XCmd args \<in> A \<Longrightarrow> emits A (run_cmd E args)"
  by (simp add: run_cmd_def emits_perform)

lemma emits_poll_ticks: "emits A cond \<Longrightarrow> emits A (poll_ticks n cond)"
  by (induction n) (auto intro!: emits_intro)

lemma emits_Poll [emits_intro]: "CTimer t \<in> A \<Longrightarrow> emits A cond \<Longrightarrow> emits A (Poll E t cond)"
  unfolding Poll_def by (intro emits_intro emits_poll_ticks)

lemma emits_PollImmediate [emits_intro]:
  "CTimer t \<in> A \<Longrightarrow> emits A cond \<Longrightarrow> emits A (PollImmediate E t cond)"
  unfolding PollImmediate_def by (intro emits_intro)

lemma emits_with_defer [emits_intro]: "c \<in> A \<Longrightarrow> emits A m \<Longrightarrow> emits A (with_defer m c)"
  unfolding emits_def with_defer_def by (auto split: prod.split) (metis append.assoc prod.sel(2)
    set_append Un_insert_right list.simps(15) empty_set Un_empty_right insert_subset)

lemma with_defer_apply: "with_defer m c tr = (fst (m tr), snd (m tr) @ [c])"
  by (simp add: with_defer_def split: prod.split)

lemma returns_with_defer [returns_intro]: "returns P m \<Longrightarrow> returns P (with_defer m c)"
  unfolding returns_def with_defer_apply by (metis prod.collapse prod.inject)

lemma mset_map_nth: "sort p = [0..<length xs] \<Longrightarrow> mset (map ((!) xs) p) = mset xs"
proof -
  assume "sort p = [0..<length xs]"
  then have "mset p = mset [0..<length xs]" by (metis mset_sort)
  then have "mset (map ((!) xs) p) = mset (map ((!) xs) [0..<length xs])" by simp
  then show ?thesis by (simp add: map_nth)
qed

lemma range_map_mset:
  assumes "range_map E xs tr = (r, tr')"
  shows "\<exists>ys. r = Ret ys \<and> mset ys = mset xs \<and> tr' = tr @ [CRange (length xs)]"
  using assms unfolding range_map_def perform_apply Let_def
  by (auto intro: mset_map_nth simp del: mset_map)

end
