(* ===== verification/Help.thy ===== *)
theory Help
  imports World
begin

text \<open>
  The package \<^verbatim>\<open>pkg/operator/controllers/help\<close>: reading the cluster objects, node readiness and
  heartbeats, waiting for a node, patching an object, and the small list helpers. Functions
  whose Go name is also a type of the model carry the suffix \<open>_get\<close>.
\<close>

section \<open>Time\<close>

definition After :: "env \<Rightarrow> string \<Rightarrow> int \<Rightarrow> bool eff" where
  "After E t duration = (case e_parse_time E t of
     None \<Rightarrow> ret False
   | Some me \<Rightarrow> andThen (now E) (\<lambda>n. ret (n > me + duration)))"

definition Now :: "env \<Rightarrow> string eff" where
  "Now E = andThen (now E) (\<lambda>n. ret (e_format_time E n))"

section \<open>Reading objects\<close>

definition Cluster_get :: "env \<Rightarrow> string \<Rightarrow> (gerr + Cluster) eff" where
  "Cluster_get E name = perform (KGetCluster [] name) (\<lambda>tr. e_cluster E tr [] name)"

definition MyCluster :: "env \<Rightarrow> (gerr + ClusterSpec) eff" where
  "MyCluster E = perform (KGetCluster ''kube-system'' ''kubernetes-cluster'')
     (\<lambda>tr. map_sum id cl_Spec (e_cluster E tr ''kube-system'' ''kubernetes-cluster''))"

definition MasterSet_get :: "env \<Rightarrow> string \<Rightarrow> (gerr + MasterSet) eff" where
  "MasterSet_get E name = perform (KGetMasterSet [] name) (\<lambda>tr. e_masterset E tr [] name)"

definition Master_get :: "env \<Rightarrow> string \<Rightarrow> (gerr + Master) eff" where
  "Master_get E name = perform (KGetMaster [] name) (\<lambda>tr. e_master E tr [] name)"

definition Node_get :: "env \<Rightarrow> string \<Rightarrow> (gerr + Node) eff" where
  "Node_get E name = perform (KGetNode name) (\<lambda>tr. e_node E tr name)"

definition NodeItems :: "env \<Rightarrow> (gerr + Node list) eff" where
  "NodeItems E = list_nodes E SelAll"

definition MasterNodes :: "env \<Rightarrow> (gerr + Node list) eff" where
  "MasterNodes E = list_nodes E (SelLabel ''node-role.kubernetes.io/master'' [])"

text \<open>
  \<^verbatim>\<open>labels.NewRequirement\<close> answers nil for a value that is no label value; the source drops
  its error and dereferences the answer.
\<close>

definition NodePoolItems :: "env \<Rightarrow> NodePool \<Rightarrow> (gerr + Node list) eff" where
  "NodePoolItems E np =
     (if \<not> e_label_valid E (nps_NodePoolID (np_Spec np)) then panic nil_deref
      else list_nodes E (SelLabel ''np.wdrip.io/id'' (nps_NodePoolID (np_Spec np))))"

definition MasterCRDS :: "env \<Rightarrow> (gerr + Master list) eff" where
  "MasterCRDS E = perform KListMasters (e_masters E)"

definition IsMaster :: "Node \<Rightarrow> bool" where
  "IsMaster node = (let lbl = (case om_Labels (node_Meta node) of None \<Rightarrow> [] | Some l \<Rightarrow> l)
     in map_of lbl ''node-role.kubernetes.io/master'' \<noteq> None)"

definition Workers :: "env \<Rightarrow> (gerr + Node list) eff" where
  "Workers E = andThen (NodeItems E) (\<lambda>r. case r of
     Inl e \<Rightarrow> ret (Inl e)
   | Inr nodes \<Rightarrow> ret (Inr (filter (\<lambda>n. \<not> IsMaster n) nodes)))"

definition HasNodePoolID :: "Node \<Rightarrow> string \<Rightarrow> bool" where
  "HasNodePoolID node npid = (case om_Labels (node_Meta node) of
     None \<Rightarrow> False
   | Some ls \<Rightarrow> (case map_of ls ''np.wdrip.io/id'' of
       None \<Rightarrow> False
     | Some i \<Rightarrow> i = npid))"

definition Condition :: "Node \<Rightarrow> NodeCondition option" where
  "Condition node = find (\<lambda>v. nc_Type v = ''Ready'') (node_Conditions node)"

section \<open>Infrastructure stack\<close>

definition StackID :: string where "StackID = ''StackID''"

text \<open>\<^verbatim>\<open>m[StackID].Val.(string)\<close>: a missing key gives the zero value, whose \<^verbatim>\<open>Val\<close> is nil.\<close>

definition assert_string :: "goval \<Rightarrow> ('c, string) io" where
  "assert_string v = (case v of
     VStr s \<Rightarrow> ret s
   | VNil \<Rightarrow> panic ''interface conversion: interface is nil, not string''
   | VOther \<Rightarrow> panic ''interface conversion: not string'')"

definition stack_val :: "(string \<times> Value) list \<Rightarrow> string \<Rightarrow> goval" where
  "stack_val m k = (case map_of m k of None \<Rightarrow> VNil | Some v \<Rightarrow> val_Val v)"

definition set_resource_id :: "ClusterSpec \<Rightarrow> string \<Rightarrow> ClusterSpec" where
  "set_resource_id spec i = spec\<lparr>cs_Bind := (cs_Bind spec)\<lparr>bi_ResourceId := i\<rparr>\<rparr>"

text \<open>The result carries the cluster spec, whose \<^verbatim>\<open>ResourceId\<close> the function fills in.\<close>

definition LoadStackFromSpec ::
    "env \<Rightarrow> ClusterSpec \<Rightarrow> (ClusterSpec \<times> (gerr + (string \<times> Value) list)) eff" where
  "LoadStackFromSpec E spec =
     (let infra = (\<lambda>spec. andThen
        (perform (PGetInfraStack (bi_ResourceId (cs_Bind spec)))
          (\<lambda>tr. e_infra_stack E tr (bi_ResourceId (cs_Bind spec))))
        (\<lambda>r. ret (spec, r)))
      in if bi_ResourceId (cs_Bind spec) = []
         then andThen (perform (PGetStackOutPuts (cs_ClusterID spec))
                (\<lambda>tr. e_stack_outputs E tr (cs_ClusterID spec))) (\<lambda>r. case r of
              Inl e \<Rightarrow> ret (spec, Inl (Errorf (''provider: list resource fail, '' @ err_msg e)))
            | Inr resource \<Rightarrow> andThen (assert_string (stack_val resource StackID))
                (\<lambda>i. infra (set_resource_id spec i)))
         else infra spec)"

definition LoadStack ::
    "env \<Rightarrow> Cluster \<Rightarrow> (Cluster \<times> (gerr + (string \<times> Value) list)) eff" where
  "LoadStack E c =
     (let infra = (\<lambda>c. andThen
        (perform (PGetInfraStack (bi_ResourceId (cs_Bind (cl_Spec c))))
          (\<lambda>tr. e_infra_stack E tr (bi_ResourceId (cs_Bind (cl_Spec c)))))
        (\<lambda>r. ret (c, r)))
      in if bi_ResourceId (cs_Bind (cl_Spec c)) = []
         then andThen (perform (PGetStackOutPuts (cs_ClusterID (cl_Spec c)))
                (\<lambda>tr. e_stack_outputs E tr (cs_ClusterID (cl_Spec c)))) (\<lambda>r. case r of
              Inl e \<Rightarrow> ret (c, Inl (Errorf (''provider: list resource fail, '' @ err_msg e)))
            | Inr resource \<Rightarrow> andThen (assert_string (stack_val resource StackID))
                (\<lambda>i. infra (c\<lparr>cl_Spec := set_resource_id (cl_Spec c) i\<rparr>)))
         else infra c)"

section \<open>Readiness and heartbeats\<close>

definition findCondition :: "NodeCondition list \<Rightarrow> string \<Rightarrow> NodeCondition" where
  "findCondition conds typ = (case find (\<lambda>c. nc_Type c = typ) conds of
     Some c \<Rightarrow> c
   | None \<Rightarrow> zeroCondition)"

definition HeartBeatTimeOut :: int where
  "HeartBeatTimeOut = 2 * Minute"

definition isHeartbeatNormal :: "env \<Rightarrow> NodeCondition \<Rightarrow> int \<Rightarrow> bool eff" where
  "isHeartbeatNormal E cond timeout =
     (let duration = (if timeout \<noteq> 0 then timeout else HeartBeatTimeOut)
      in andThen (now E) (\<lambda>n. ret (\<not> nc_LastHeartbeatTime cond < n + (-1) * duration)))"

definition nodeHeartbeatReady :: "env \<Rightarrow> Node \<Rightarrow> int \<Rightarrow> (bool \<times> string) eff" where
  "nodeHeartbeatReady E node timeout =
     (let cond = findCondition (node_Conditions node) ''Ready''
      in if nc_Type cond \<noteq> ''Ready'' then ret (True, ''ConditionNotFound'')
         else if nc_Status cond = ''True''
         then andThen (isHeartbeatNormal E cond timeout) (\<lambda>b. ret (b, nc_Reason cond))
         else ret (False, nc_Reason cond))"

definition NodeHeartbeatReady :: "env \<Rightarrow> Node \<Rightarrow> int \<Rightarrow> (bool \<times> string) eff" where
  "NodeHeartbeatReady E node timeout = nodeHeartbeatReady E node timeout"

fun condsReady :: "NodeCondition list \<Rightarrow> bool" where
  "condsReady [] = True"
| "condsReady (con # cs) =
     (if nc_Type con \<noteq> ''Ready'' then condsReady cs
      else if nc_Status con \<noteq> ''True'' then False
      else condsReady cs)"

fun NodesReady :: "Node list \<Rightarrow> bool" where
  "NodesReady [] = True"
| "NodesReady (n # ns) = (if condsReady (node_Conditions n) then NodesReady ns else False)"

definition NodeReady :: "Node \<Rightarrow> bool" where
  "NodeReady n = NodesReady [n]"

definition waitReady :: "env \<Rightarrow> string \<Rightarrow> (bool \<times> gerr option) eff" where
  "waitReady E nodeName = andThen (Node_get E nodeName) (\<lambda>r. case r of
     Inl e \<Rightarrow> ret (False, None)
   | Inr node \<Rightarrow> andThen (nodeHeartbeatReady E node 0) (\<lambda>(ready, reason).
       if \<not> ready then ret (False, None) else ret (True, None)))"

text \<open>\<open>steady k\<close> is the loop of \<^verbatim>\<open>WaitHeartbeat\<close> with \<open>k\<close> rounds left.\<close>

fun steady :: "env \<Rightarrow> string \<Rightarrow> nat \<Rightarrow> (bool \<times> gerr option) eff" where
  "steady E nodeName 0 = ret (True, None)"
| "steady E nodeName (Suc k) = andThen (waitReady E nodeName) (\<lambda>(ready, err).
     if err \<noteq> None \<or> \<not> ready then ret (ready, err)
     else andThen (Sleep (2 * Second)) (\<lambda>_. steady E nodeName k))"

definition WaitHeartbeat :: "env \<Rightarrow> string \<Rightarrow> int \<Rightarrow> gerr option eff" where
  "WaitHeartbeat E nodeName timeout = PollImmediate E timeout (steady E nodeName 3)"

definition masterReadyRound :: "env \<Rightarrow> string \<Rightarrow> (bool \<times> gerr option) eff" where
  "masterReadyRound E ident = andThen (MasterNodes E) (\<lambda>r. case r of
     Inl e \<Rightarrow> ret (False, None)
   | Inr nodes \<Rightarrow> (case find (\<lambda>n. contains (node_ProviderID n) ident) nodes of
       Some n \<Rightarrow> ret (NodeReady n, None)
     | None \<Rightarrow> ret (False, None)))"

definition WaitMasterReady :: "env \<Rightarrow> string \<Rightarrow> gerr option eff" where
  "WaitMasterReady E ident = Poll E (4 * Minute) (masterReadyRound E ident)"

section \<open>Patching\<close>

type_synonym Setter = "kobj \<Rightarrow> (gerr + kobj) outcome"

datatype resource = PatchAll | PatchStatus | PatchSpec

definition get_obj :: "env \<Rightarrow> kobj \<Rightarrow> (gerr + kobj) eff" where
  "get_obj E target = (let n = om_Name (kobj_meta target); ns = om_Namespace (kobj_meta target)
     in case target of
       ONode _ \<Rightarrow> perform (KGetNode n) (\<lambda>tr. map_sum id ONode (e_node E tr n))
     | OMaster _ \<Rightarrow> perform (KGetMaster ns n) (\<lambda>tr. map_sum id OMaster (e_master E tr ns n))
     | OMasterSet _ \<Rightarrow>
         perform (KGetMasterSet ns n) (\<lambda>tr. map_sum id OMasterSet (e_masterset E tr ns n))
     | ONodePool _ \<Rightarrow>
         perform (KGetNodePool ns n) (\<lambda>tr. map_sum id ONodePool (e_nodepool E tr ns n))
     | OCluster _ \<Rightarrow>
         perform (KGetCluster ns n) (\<lambda>tr. map_sum id OCluster (e_cluster E tr ns n)))"

text \<open>
  What of an object its JSON shows: the label map is marshalled with \<^verbatim>\<open>omitempty\<close>, so an empty
  map and nil look the same.
\<close>

definition json_meta :: "ObjectMeta \<Rightarrow> ObjectMeta" where
  "json_meta m = m\<lparr>om_Labels := (if om_Labels m = Some [] then None else om_Labels m)\<rparr>"

fun json_view :: "kobj \<Rightarrow> kobj" where
  "json_view (ONode n) = ONode (n\<lparr>node_Meta := json_meta (node_Meta n)\<rparr>)"
| "json_view (OMaster m) = OMaster (m\<lparr>m_Meta := json_meta (m_Meta m)\<rparr>)"
| "json_view (OMasterSet m) = OMasterSet (m\<lparr>mset_Meta := json_meta (mset_Meta m)\<rparr>)"
| "json_view (ONodePool p) = ONodePool (p\<lparr>np_Meta := json_meta (np_Meta p)\<rparr>)"
| "json_view (OCluster c) = OCluster (c\<lparr>cl_Meta := json_meta (cl_Meta c)\<rparr>)"

definition send_patch :: "env \<Rightarrow> kobj \<Rightarrow> resource \<Rightarrow> gerr option eff" where
  "send_patch E ntarget res =
     (let status = (if res = PatchStatus \<or> res = PatchAll
                    then do_call E (KPatchStatus ntarget) else ret None)
      in if res = PatchSpec \<or> res = PatchAll
         then andThen (do_call E (KPatch ntarget)) (\<lambda>err. case err of
             Some e \<Rightarrow> ret (Some (Errorf (''patch spec: '' @ err_msg e)))
           | None \<Rightarrow> status)
         else status)"

definition Patch :: "env \<Rightarrow> kobj \<Rightarrow> Setter \<Rightarrow> resource \<Rightarrow> gerr option eff" where
  "Patch E target setter res = andThen (get_obj E target) (\<lambda>r. case r of
     Inl e \<Rightarrow> ret (Some (Errorf (''get origin object: '' @ err_msg e)))
   | Inr target \<Rightarrow> (case setter target of
       Panic s \<Rightarrow> panic s
     | Ret (Inl e) \<Rightarrow> ret (Some (Errorf (''get object diff patch: '' @ err_msg e)))
     | Ret (Inr ntarget) \<Rightarrow> (case e_marshal E target of
         Some e \<Rightarrow> ret (Some (Errorf (''ensure marshal: '' @ err_msg e)))
       | None \<Rightarrow> (case e_marshal E ntarget of
           Some e \<Rightarrow> ret (Some (Errorf (''ensure marshal: '' @ err_msg e)))
         | None \<Rightarrow> (case e_merge_patch E target ntarget of
             Some e \<Rightarrow> ret (Some (Errorf (''create merge patch: '' @ err_msg e)))
           | None \<Rightarrow> if json_view target = json_view ntarget then ret None
                     else send_patch E ntarget res)))))"

section \<open>Small helpers\<close>

fun Has :: "string list \<Rightarrow> string \<Rightarrow> bool" where
  "Has [] tar = False"
| "Has (v # m) tar = (if v = tar then True else Has m tar)"

fun Remove :: "string list \<Rightarrow> string \<Rightarrow> string list" where
  "Remove [] tar = []"
| "Remove (v # m) tar = (if v = tar then Remove m tar else v # Remove m tar)"

definition Max_int :: "int \<Rightarrow> int \<Rightarrow> int" where
  "Max_int x y = (if x < y then y else x)"

definition MasterNames :: "Master list \<Rightarrow> string list" where
  "MasterNames ns = map m_Name ns"

definition NodeNames :: "Node list \<Rightarrow> string list" where
  "NodeNames ns = map node_Name ns"

definition ECSNames :: "env \<Rightarrow> (string \<times> Instance) list \<Rightarrow> string list eff" where
  "ECSNames E ecss = andThen (range_map E ecss) (\<lambda>l. ret (map (ins_Ip \<circ> snd) l))"

definition HasMasterRole :: "labels option \<Rightarrow> bool" where
  "HasMasterRole lbl = (case lbl of None \<Rightarrow> False
     | Some l \<Rightarrow> map_of l ''node-role.kubernetes.io/master'' \<noteq> None)"

record Result =
  res_Requeue :: bool
  res_RequeueAfter :: int

definition NewDelay :: "int \<Rightarrow> Result" where
  "NewDelay i = \<lparr>res_Requeue = True, res_RequeueAfter = i * Second\<rparr>"

section \<open>Lemmas\<close>

subsection \<open>Reading functions only read\<close>

lemma emits_reads: "emits reads m \<Longrightarrow> reads \<subseteq> A \<Longrightarrow> emits A m"
  by (rule emits_mono)

lemma After_reads [emits_intro]: "reads \<subseteq> A \<Longrightarrow> emits A (After E t d)"
  unfolding After_def by (intro emits_intro) auto

lemma Now_reads [emits_intro]: "reads \<subseteq> A \<Longrightarrow> emits A (Now E)"
  unfolding Now_def by (intro emits_intro) auto

lemma Cluster_get_reads [emits_intro]: "reads \<subseteq> A \<Longrightarrow> emits A (Cluster_get E n)"
  unfolding Cluster_get_def by (intro emits_intro) auto

lemma MasterSet_get_reads [emits_intro]: "reads \<subseteq> A \<Longrightarrow> emits A (MasterSet_get E n)"
  unfolding MasterSet_get_def by (intro emits_intro) auto

lemma Node_get_reads [emits_intro]: "reads \<subseteq> A \<Longrightarrow> emits A (Node_get E n)"
  unfolding Node_get_def by (intro emits_intro) auto

lemma NodeItems_reads [emits_intro]: "reads \<subseteq> A \<Longrightarrow> emits A (NodeItems E)"
  unfolding NodeItems_def by (intro emits_intro) auto

lemma MasterNodes_reads [emits_intro]: "reads \<subseteq> A \<Longrightarrow> emits A (MasterNodes E)"
  unfolding MasterNodes_def by (intro emits_intro) auto

lemma NodePoolItems_reads [emits_intro]: "reads \<subseteq> A \<Longrightarrow> emits A (NodePoolItems E np)"
  unfolding NodePoolItems_def by (intro emits_intro) auto

lemma MasterCRDS_reads [emits_intro]: "reads \<subseteq> A \<Longrightarrow> emits A (MasterCRDS E)"
  unfolding MasterCRDS_def by (intro emits_intro) auto

lemma assert_string_emits [emits_intro]: "emits A (assert_string v)"
  unfolding assert_string_def by (cases v) (auto intro: emits_intro)

lemma LoadStack_reads [emits_intro]: "reads \<subseteq> A \<Longrightarrow> emits A (LoadStack E c)"
  unfolding LoadStack_def Let_def by (intro emits_intro) auto

lemma nodeHeartbeatReady_reads [emits_intro]:
  "reads \<subseteq> A \<Longrightarrow> emits A (nodeHeartbeatReady E node d)"
  unfolding nodeHeartbeatReady_def isHeartbeatNormal_def Let_def by (intro emits_intro) auto

lemma NodeHeartbeatReady_reads [emits_intro]:
  "reads \<subseteq> A \<Longrightarrow> emits A (NodeHeartbeatReady E node d)"
  unfolding NodeHeartbeatReady_def by (intro emits_intro)

lemma waitReady_reads [emits_intro]: "reads \<subseteq> A \<Longrightarrow> emits A (waitReady E n)"
  unfolding waitReady_def by (intro emits_intro)

lemma steady_reads [emits_intro]: "reads \<subseteq> A \<Longrightarrow> emits A (steady E n k)"
  by (induction k) (auto intro!: emits_intro)

lemma WaitHeartbeat_reads [emits_intro]: "reads \<subseteq> A \<Longrightarrow> emits A (WaitHeartbeat E n d)"
  unfolding WaitHeartbeat_def by (intro emits_intro) auto

lemma get_obj_reads [emits_intro]: "reads \<subseteq> A \<Longrightarrow> emits A (get_obj E x)"
  unfolding get_obj_def Let_def by (cases x) (auto intro!: emits_intro)

subsection \<open>Readiness\<close>

lemma condsReady_iff:
  "condsReady cs \<longleftrightarrow> (\<forall>c\<in>set cs. nc_Type c = ''Ready'' \<longrightarrow> nc_Status c = ''True'')"
  by (induction cs) auto

lemma NodesReady_iff: "NodesReady ns \<longleftrightarrow> (\<forall>n\<in>set ns. condsReady (node_Conditions n))"
  by (induction ns) auto

lemma NodeReady_iff: "NodeReady n \<longleftrightarrow> condsReady (node_Conditions n)"
  by (simp add: NodeReady_def)

subsection \<open>Polling\<close>

text \<open>A poll that succeeds ends with a successful try of its condition.\<close>

lemma poll_ticks_done:
  assumes "poll_ticks k cond tr = (Ret None, tr')" and "emits A cond"
  shows "\<exists>t. prefix tr t \<and> cond t = (Ret (True, None), tr')"
  using assms(1)
proof (induction k arbitrary: tr)
  case 0
  then show ?case by simp
next
  case (Suc k)
  then obtain fin err t where c: "cond tr = (Ret (fin, err), t)"
    and k: "(case err of Some e \<Rightarrow> ret (Some e)
              | None \<Rightarrow> if fin then ret None else poll_ticks k cond) t = (Ret None, tr')"
    by (auto simp: andThen_Ret_iff)
  from c assms(2) have "prefix tr t" by (auto dest: emits_prefix)
  with c k Suc.IH show ?case
    by (auto split: option.splits if_splits) (meson prefix_order.trans)
qed

lemma PollImmediate_done:
  assumes "PollImmediate E d cond tr = (Ret None, tr')" and "emits A cond"
  shows "\<exists>t. prefix tr t \<and> cond t = (Ret (True, None), tr')"
proof -
  from assms(1) obtain fin err t where c: "cond tr = (Ret (fin, err), t)"
    and k: "(case err of Some e \<Rightarrow> ret (Some e)
              | None \<Rightarrow> if fin then ret None else Poll E d cond) t = (Ret None, tr')"
    by (auto simp: PollImmediate_def andThen_Ret_iff)
  show ?thesis
  proof (cases "err = None \<and> fin")
    case True
    with c k show ?thesis by auto
  next
    case False
    with k have "poll_ticks (e_ticks E t) cond (t @ [CTimer d]) = (Ret None, tr')"
      by (auto simp: Poll_def run_simps split: option.splits if_splits)
    from poll_ticks_done [OF this assms(2)] c assms(2) show ?thesis
      by (meson emits_prefix prefix_order.trans prefixI)
  qed
qed

subsection \<open>Waiting for a heartbeat\<close>

text \<open>
  What one reading of a node shows: the API server answers, and the node has no \<^verbatim>\<open>Ready\<close>
  condition or one that is true with a heartbeat at most two minutes old.
\<close>

definition ready_at :: "env \<Rightarrow> string \<Rightarrow> call list \<Rightarrow> bool" where
  "ready_at E n t = (case e_node E t n of
     Inl _ \<Rightarrow> False
   | Inr node \<Rightarrow> (let c = findCondition (node_Conditions node) ''Ready''
       in nc_Type c = ''Ready'' \<longrightarrow> nc_Status c = ''True'' \<and>
          e_now E (t @ [KGetNode n]) \<le> nc_LastHeartbeatTime c + HeartBeatTimeOut))"

lemma waitReady_done:
  assumes "waitReady E n tr = (Ret (True, err), tr')"
  shows "ready_at E n tr \<and> err = None \<and> strict_prefix tr tr'"
  using assms
  by (auto simp: waitReady_def Node_get_def nodeHeartbeatReady_def isHeartbeatNormal_def now_def
      ready_at_def run_simps Let_def strict_prefix_def split: sum.splits if_splits)

lemma steady_done:
  assumes "steady E n (Suc k) tr = (Ret (True, None), tr')"
  shows "\<exists>t. ready_at E n tr \<and> strict_prefix tr t \<and> steady E n k t = (Ret (True, None), tr')"
proof -
  from assms obtain ready err t where w: "waitReady E n tr = (Ret (ready, err), t)"
    and k: "(if err \<noteq> None \<or> \<not> ready then ret (ready, err)
       else andThen (Sleep (2 * Second)) (\<lambda>_. steady E n k)) t = (Ret (True, None), tr')"
    by (auto simp: andThen_Ret_iff)
  then have "ready" "err = None" by (auto split: if_splits)
  with w waitReady_done [of E n tr err t] have "ready_at E n tr" "strict_prefix tr t" by auto
  moreover from k \<open>ready\<close> \<open>err = None\<close>
  have "steady E n k (t @ [CSleep (2 * Second)]) = (Ret (True, None), tr')"
    by (simp add: Sleep_def run_simps)
  ultimately show ?thesis
    by (meson prefixI prefix_order.less_le_trans)
qed

lemma WaitHeartbeat_done:
  assumes "WaitHeartbeat E n d tr = (Ret None, tr')"
  shows "\<exists>t. prefix tr t \<and> steady E n 3 t = (Ret (True, None), tr')"
proof -
  have "emits reads (steady E n 3)" by (intro emits_intro) simp
  with assms show ?thesis unfolding WaitHeartbeat_def by (meson PollImmediate_done)
qed

section \<open>Properties\<close>

text \<open>
  When \<^verbatim>\<open>WaitHeartbeat\<close> returns nil, the node was read at least three times, at three
  successive moments of the run, and each time it was there with a \<^verbatim>\<open>Ready\<close> condition that
  is true and fresh (or with none): a single lucky reading is not enough.
\<close>

lemma WaitHeartbeat_three_ready:
  assumes "WaitHeartbeat E n d tr = (Ret None, tr')"
  shows "\<exists>t1 t2 t3. prefix tr t1 \<and> strict_prefix t1 t2 \<and> strict_prefix t2 t3 \<and>
    strict_prefix t3 tr' \<and> ready_at E n t1 \<and> ready_at E n t2 \<and> ready_at E n t3"
proof -
  from WaitHeartbeat_done [OF assms] obtain t1 where
    t1: "prefix tr t1" "steady E n 3 t1 = (Ret (True, None), tr')" by blast
  then obtain t2 t3 t4 where "ready_at E n t1" "strict_prefix t1 t2" "ready_at E n t2"
      "strict_prefix t2 t3" "ready_at E n t3" "strict_prefix t3 t4"
      "steady E n 0 t4 = (Ret (True, None), tr')"
    by (auto simp: numeral_3_eq_3 simp del: steady.simps dest!: steady_done)
  with t1 show ?thesis by auto
qed

end
