(* ===== verification/Etcd.thy ===== *)
theory Etcd
  imports Help
begin

text \<open>
  The package \<^verbatim>\<open>pkg/actions/etcd\<close> (and \<^verbatim>\<open>pkg/utils/cmd\<close>): the members of the etcd cluster are
  listed, added and removed by running \<^verbatim>\<open>etcdctl\<close> against the known peers, trying each of them
  twice. The closures the source passes to \<^verbatim>\<open>TryEachPeer\<close> assign captured variables; here they
  take and return that state. The JSON decoder is the environment's: it is given the value it
  decodes into, which a failed attempt leaves behind for the next one. Messages render the
  strings and string lists the source prints; a struct printed with \<^verbatim>\<open>%v\<close> is left out.
\<close>

section \<open>Constants and commands\<close>

definition ETCD_USER :: string where "ETCD_USER = ''etcd''"
definition ETCD_HOME :: string where "ETCD_HOME = ''/var/lib/etcd''"
definition ETCD_TMP :: string where "ETCD_TMP = ''/var/tmp/etcd''"
definition ETCD_UNIT_FILE :: string where
  "ETCD_UNIT_FILE = ''/lib/systemd/system/etcd.service''"
definition DataDir :: string where "DataDir = ''data.etcd''"

text \<open>\<^verbatim>\<open>%v\<close> of a slice of strings.\<close>

definition fmt_list :: "string list \<Rightarrow> string" where
  "fmt_list xs = ''['' @ join '' '' xs @ '']''"

definition CmdError :: "CmdStatus \<Rightarrow> gerr option" where
  "CmdError sta = (if cmd_Exit sta = 0 \<and> cmd_Error sta = None then None
     else Some (Errorf (''exit='' @ itoa (cmd_Exit sta) @ '', error: '' @
       (case cmd_Error sta of None \<Rightarrow> ''<nil>'' | Some e \<Rightarrow> err_msg e) @
       ''. stderr: '' @ fmt_list (cmd_Stderr sta) @ '', out: '' @ fmt_list (cmd_Stdout sta))))"

definition Systemctl :: "env \<Rightarrow> string list \<Rightarrow> gerr option eff" where
  "Systemctl E ops = andThen (run_cmd E (''systemctl'' # ops)) (\<lambda>r. ret (cmd_Error r))"

text \<open>\<^verbatim>\<open>utils.FileExist\<close>: the answer of \<^verbatim>\<open>os.Stat\<close>, a missing file being no error.\<close>

definition FileExist :: "env \<Rightarrow> string \<Rightarrow> (gerr + bool) eff" where
  "FileExist E f = perform (FExist f) (\<lambda>tr. e_exist E tr f)"

record Etcd =
  et_home :: string
  et_me :: string
  et_peer :: "string list"

definition Home :: "Etcd \<Rightarrow> string" where
  "Home m = (if et_home m = [] then ETCD_HOME else et_home m)"

definition certHome :: "string \<Rightarrow> string \<Rightarrow> string" where
  "certHome home name = (if home = [] then ETCD_HOME else home) @ ''/cert/'' @ name"

definition advertise :: "string \<Rightarrow> string \<Rightarrow> string" where
  "advertise ip port = ''https://'' @ ip @ '':'' @ port"

definition advertises :: "string list \<Rightarrow> string \<Rightarrow> string" where
  "advertises ips port = join '','' (map (\<lambda>ip. advertise ip port) ips)"

definition memberName :: "string \<Rightarrow> string" where
  "memberName ip = ''etcd-'' @ ip @ ''.member''"

text \<open>The command line every \<^verbatim>\<open>etcdctl\<close> call starts with.\<close>

definition etcdctl :: "Etcd \<Rightarrow> string \<Rightarrow> string list \<Rightarrow> string list" where
  "etcdctl m endpoints rest =
     [''etcdctl'', ''--endpoints'', endpoints, ''--cacert'', certHome (Home m) ''server-ca.crt'',
      ''--cert'', certHome (Home m) ''client.crt'', ''--key'', certHome (Home m) ''client.key''] @ rest"

section \<open>Trying each peer\<close>

fun tryPeer ::
    "nat \<Rightarrow> int \<Rightarrow> ('s \<Rightarrow> (gerr option \<times> 's) eff) \<Rightarrow> gerr option \<Rightarrow> 's \<Rightarrow>
     (bool \<times> gerr option \<times> 's) eff" where
  "tryPeer 0 interval mfunc lastError s = ret (False, lastError, s)"
| "tryPeer (Suc k) interval mfunc lastError s = andThen (mfunc s) (\<lambda>(err, s). case err of
     None \<Rightarrow> ret (True, None, s)
   | Some e \<Rightarrow> andThen (if interval \<noteq> 0 then Sleep interval else ret ())
       (\<lambda>_. tryPeer k interval mfunc (Some e) s))"

fun tryPeers ::
    "string list \<Rightarrow> int \<Rightarrow> (string \<Rightarrow> 's \<Rightarrow> (gerr option \<times> 's) eff) \<Rightarrow> gerr option \<Rightarrow> 's \<Rightarrow>
     (gerr option \<times> 's) eff" where
  "tryPeers [] interval mfunc lastError s = ret (Wrapf lastError ''NoMoreEndpointsToTry'', s)"
| "tryPeers (p # ps) interval mfunc lastError s =
     andThen (tryPeer 2 interval (mfunc p) lastError s) (\<lambda>(ok, lastError, s).
       if ok then ret (None, s) else tryPeers ps interval mfunc lastError s)"

definition TryEachPeer ::
    "string list \<Rightarrow> int \<Rightarrow> (string \<Rightarrow> 's \<Rightarrow> (gerr option \<times> 's) eff) \<Rightarrow> 's \<Rightarrow>
     (gerr option \<times> 's) eff" where
  "TryEachPeer peer interval mfunc s = tryPeers peer interval mfunc None s"

section \<open>Members\<close>

definition LoadMembers :: "env \<Rightarrow> string list \<Rightarrow> Member list \<Rightarrow> Member list \<times> gerr option" where
  "LoadMembers E r mems = (let result = join [CHR 0x0A] r
     in if is_blank result then (mems, Some (Errorf ''etcd command result, empty string''))
        else e_json_members E result mems)"

definition LoadEndpoints :: "env \<Rightarrow> string list \<Rightarrow> gerr + EndpointStatus list" where
  "LoadEndpoints E r = (let result = join [CHR 0x0A] r
     in if is_blank result then Inl (Errorf ''etcd command result, empty string'')
        else e_json_endpoints E result)"

text \<open>The loop of \<^verbatim>\<open>MemberList\<close> that takes each member's IP from its first peer URL.\<close>

fun setIPs :: "Member list \<Rightarrow> Member list \<times> gerr option" where
  "setIPs [] = ([], None)"
| "setIPs (p # ps) = (case mem_PeerURLs p of
     [] \<Rightarrow> (p # ps, Some (Errorf ''empty peer url: ''))
   | url # _ \<Rightarrow>
       (let ips = split_on url ''//''
        in if length ips < 2
           then (p # ps, Some (Errorf (''member list: unknown Advertise addr format, '' @
                  fmt_list (mem_ClientURLs p) @ ''. skip'')))
           else (let addr = split_on (ips ! 1) '':''
                 in if length addr < 2
                    then (p # ps, Some (Errorf (''member list: unkown addr format, '' @
                           fmt_list addr)))
                    else (case setIPs ps of
                      (ps', err) \<Rightarrow> (p\<lparr>mem_IP := addr ! 0\<rparr> # ps', err)))))"

definition listDecide :: "env \<Rightarrow> CmdStatus \<Rightarrow> Member list \<Rightarrow> gerr option \<times> Member list" where
  "listDecide E r mems = (case CmdError r of
     Some e \<Rightarrow> (Some (Errorf (''peer list error: '' @ err_msg e)), mems)
   | None \<Rightarrow> (case LoadMembers E (cmd_Stdout r) mems of
       (mems, Some e) \<Rightarrow> (Some (Errorf (''unmarshal member: '' @ err_msg e)), mems)
     | (mems, None) \<Rightarrow> (case setIPs mems of (mems, err) \<Rightarrow> (err, mems))))"

definition fortry :: "env \<Rightarrow> Etcd \<Rightarrow> string \<Rightarrow> Member list \<Rightarrow> (gerr option \<times> Member list) eff" where
  "fortry E m ip mems =
     andThen (run_cmd E (etcdctl m (advertise ip ''2379'') [''-w'', ''json'', ''member'', ''list'']))
       (\<lambda>result. ret (listDecide E result mems))"

definition MemberList :: "env \<Rightarrow> Etcd \<Rightarrow> (gerr option \<times> Member list) eff" where
  "MemberList E m = TryEachPeer (et_peer m) (2 * Second) (fortry E m) []"

text \<open>\<^verbatim>\<open>%x\<close> of a big integer.\<close>

definition hexInt :: "int \<Rightarrow> string" where
  "hexInt i = (if i < 0 then CHR ''-'' # utox (nat (- i)) else utox (nat i))"

definition removeCmd :: "Etcd \<Rightarrow> int \<Rightarrow> string \<Rightarrow> string list" where
  "removeCmd m i ip = etcdctl m (advertise ip ''2379'') [''member'', ''remove'', hexInt i]"

definition remove :: "env \<Rightarrow> Etcd \<Rightarrow> int \<Rightarrow> string \<Rightarrow> unit \<Rightarrow> (gerr option \<times> unit) eff" where
  "remove E m i ip u = andThen (run_cmd E (removeCmd m i ip)) (\<lambda>result. ret (CmdError result, u))"

definition RemoveMember :: "env \<Rightarrow> Etcd \<Rightarrow> Member \<Rightarrow> gerr option eff" where
  "RemoveMember E m mem = (case mem_ID mem of
     None \<Rightarrow> ret None
   | Some i \<Rightarrow> if i = 0 then ret None
       else andThen (TryEachPeer (et_peer m) (2 * Second) (remove E m i) ()) (\<lambda>(err, _). ret err))"

fun FindMemberByIP :: "Member list \<Rightarrow> string \<Rightarrow> Member" where
  "FindMemberByIP [] ip = zeroMember"
| "FindMemberByIP (mem # mems) ip = (case mem_PeerURLs mem of
     [] \<Rightarrow> FindMemberByIP mems ip
   | url # _ \<Rightarrow> if url = advertise ip ''2380'' then mem else FindMemberByIP mems ip)"

definition joinTry :: "env \<Rightarrow> Etcd \<Rightarrow> string \<Rightarrow> unit \<Rightarrow> (gerr option \<times> unit) eff" where
  "joinTry E m ip u = andThen (MemberList E m) (\<lambda>(err, mems). case err of
     Some e \<Rightarrow> ret (Some (Errorf (''join me: '' @ err_msg e)), u)
   | None \<Rightarrow> if list_ex (\<lambda>v. mem_IP v \<noteq> [] \<and> mem_IP v = et_me m) mems then ret (None, u)
       else andThen (run_cmd E (etcdctl m (advertise ip ''2379'')
              [''member'', ''add'', memberName (et_me m),
               ''--peer-urls'', advertise (et_me m) ''2380'']))
            (\<lambda>result. ret (CmdError result, u)))"

definition JoinMe :: "env \<Rightarrow> Etcd \<Rightarrow> gerr option eff" where
  "JoinMe E m = (if et_peer m = []
     then ret (Some (Errorf (''major master does not exists: '' @ fmt_list (et_peer m))))
     else andThen (TryEachPeer (et_peer m) (3 * Second) (joinTry E m) ()) (\<lambda>(err, _). ret err))"

text \<open>\<open>waitLoop\<close>: rounds left before the timer fires, health checks passed so far.\<close>

fun waitLoop :: "env \<Rightarrow> Etcd \<Rightarrow> string \<Rightarrow> nat \<Rightarrow> nat \<Rightarrow> gerr option eff" where
  "waitLoop E m endpints 0 cnt = ret (Some (Errorf ''wait for etcd ready timeout, <nil>''))"
| "waitLoop E m endpints (Suc k) cnt =
     andThen (Sleep (2 * Second)) (\<lambda>_.
     andThen (run_cmd E (etcdctl m endpints [''endpoint'', ''health''])) (\<lambda>result.
       case CmdError result of
         Some e \<Rightarrow> waitLoop E m endpints k cnt
       | None \<Rightarrow> if cnt + 1 = 3 then ret None else waitLoop E m endpints k (cnt + 1)))"

definition WaitEndpoints :: "env \<Rightarrow> Etcd \<Rightarrow> string \<Rightarrow> gerr option eff" where
  "WaitEndpoints E m endpints =
     andThen (perform (CTimer (3 * Minute)) (e_ticks E)) (\<lambda>n. waitLoop E m endpints n 0)"

definition EndpointHealth :: "env \<Rightarrow> Etcd \<Rightarrow> string \<Rightarrow> gerr option eff" where
  "EndpointHealth E m ip =
     andThen (run_cmd E (etcdctl m (advertise ip ''2379'') [''endpoint'', ''health'']))
       (\<lambda>result. ret (CmdError result))"

text \<open>\<^verbatim>\<open>mem.ClientURLs[0]\<close> of every member; an empty list of URLs panics.\<close>

fun memAddrs :: "Member list \<Rightarrow> string list eff" where
  "memAddrs [] = ret []"
| "memAddrs (mem # mems) = (case mem_ClientURLs mem of
     [] \<Rightarrow> panic out_of_range
   | url # _ \<Rightarrow> andThen (memAddrs mems) (\<lambda>as. ret (url # as)))"

definition memAdvertise :: "Member list \<Rightarrow> string eff" where
  "memAdvertise mems = andThen (memAddrs mems) (\<lambda>as. ret (join '','' as))"

definition Join :: "env \<Rightarrow> Etcd \<Rightarrow> gerr option eff" where
  "Join E m = andThen (MemberList E m) (\<lambda>(err, omems). case err of
     Some e \<Rightarrow> ret (Some (Errorf (''peer: '' @ err_msg e)))
   | None \<Rightarrow> andThen (memAdvertise omems) (\<lambda>adv. andThen (WaitEndpoints E m adv) (\<lambda>err. case err of
     Some e \<Rightarrow> ret (Some (Errorf (''wait etcd ready: '' @ err_msg e)))
   | None \<Rightarrow> andThen (JoinMe E m) (\<lambda>err. case err of
     Some e \<Rightarrow> ret (Some (Errorf (''join peer['' @ et_me m @ ''] fail, '' @ err_msg e)))
   | None \<Rightarrow> andThen (MemberList E m) (\<lambda>(err, nmems). case err of
     Some e \<Rightarrow> ret (Some (Errorf (''try list peer: '' @ err_msg e)))
   | None \<Rightarrow>
       if length omems + 1 < length nmems
       then andThen (RemoveMember E m (FindMemberByIP nmems (et_me m))) (\<lambda>err. case err of
           Some e \<Rightarrow> ret (Some (Errorf (''remove myself error: '' @ err_msg e)))
         | None \<Rightarrow> ret (Some (Errorf ''concurrent etcd peer join: '')))
       else ret None)))))"

definition BackOffJoinMember :: "env \<Rightarrow> Etcd \<Rightarrow> gerr option eff" where
  "BackOffJoinMember E etcd = Poll E (5 * Minute) (andThen (Join E etcd) (\<lambda>err. case err of
     Some e \<Rightarrow> ret (False, None)
   | None \<Rightarrow> ret (True, None)))"

definition Endpoints :: "env \<Rightarrow> Etcd \<Rightarrow> (gerr + EndpointStatus list) eff" where
  "Endpoints E m =
     andThen (run_cmd E (etcdctl m (advertises (et_peer m) ''2379'')
       [''-w'', ''json'', ''endpoint'', ''status''])) (\<lambda>result. case CmdError result of
       Some e \<Rightarrow> ret (Inl (Errorf (''endpoint status error: '' @ err_msg e)))
     | None \<Rightarrow> ret (LoadEndpoints E (cmd_Stdout result)))"

section \<open>Certificates and construction\<close>

text \<open>\<^verbatim>\<open>node.Status.BootCFG.Spec.Etcd\<close> and the two authorities in it; a nil pointer panics.\<close>

definition bootEtcd :: "Master \<Rightarrow> EtcdSpec eff" where
  "bootEtcd node = (case mst_BootCFG (m_Status node) of
     None \<Rightarrow> panic nil_deref
   | Some c \<Rightarrow> ret (cs_Etcd (cl_Spec c)))"

definition deref :: "'a option \<Rightarrow> ('c, 'a) io" where
  "deref p = (case p of None \<Rightarrow> panic nil_deref | Some x \<Rightarrow> ret x)"

definition signCert :: "env \<Rightarrow> string \<Rightarrow> string \<Rightarrow> (gerr + KeyCert) eff" where
  "signCert E kind ip = perform (FSign kind ip) (\<lambda>tr. e_sign E tr kind ip)"

definition certFiles :: "EtcdSpec \<Rightarrow> KeyCert \<Rightarrow> KeyCert \<Rightarrow> KeyCert \<Rightarrow> KeyCert \<Rightarrow> KeyCert \<Rightarrow>
    (string \<times> string) list" where
  "certFiles sp peerCA serverCA p s c =
     [(''server.crt'', kc_Cert s), (''server.key'', kc_Key s),
      (''server-ca.crt'', kc_Cert serverCA), (''server-ca.key'', kc_Key serverCA),
      (''client.crt'', kc_Cert c), (''client.key'', kc_Key c),
      (''peer.crt'', kc_Cert p), (''peer.key'', kc_Key p),
      (''peer-ca.crt'', kc_Cert peerCA), (''peer-ca.key'', kc_Key peerCA)]"

definition LoadOrSign :: "env \<Rightarrow> Master \<Rightarrow> string \<Rightarrow> gerr option eff" where
  "LoadOrSign E node home =
     andThen (bootEtcd node) (\<lambda>sp. andThen (deref (etcd_PeerCA sp)) (\<lambda>peerCA.
     andThen (signCert E ''member'' (ms_IP (m_Spec node))) (\<lambda>r. case r of
       Inl e \<Rightarrow> ret (Some (Errorf (''sign etcd peer cert fail, '' @ err_msg e)))
     | Inr p \<Rightarrow>
     andThen (deref (etcd_ServerCA sp)) (\<lambda>serverCA.
     andThen (signCert E ''server'' (ms_IP (m_Spec node))) (\<lambda>r. case r of
       Inl e \<Rightarrow> ret (Some (Errorf (''sign etcd server cert fail, '' @ err_msg e)))
     | Inr s \<Rightarrow>
     andThen (signCert E ''client'' (ms_IP (m_Spec node))) (\<lambda>r. case r of
       Inl e \<Rightarrow> ret (Some (Errorf (''sign etcd client cert fail, '' @ err_msg e)))
     | Inr c \<Rightarrow>
     andThen (do_call E (FMkdirAll (home @ ''/cert''))) (\<lambda>err. case err of
       Some e \<Rightarrow> ret (Some (Errorf (''mkdir etcd home dir: '' @ err_msg e)))
     | None \<Rightarrow>
     andThen (range_map E (certFiles sp peerCA serverCA p s c)) (\<lambda>files.
       forM files (\<lambda>(name, v). andThen (do_call E (FWrite (certHome home name) v)) (\<lambda>err. case err of
         Some e \<Rightarrow> ret (Some (Errorf (''write file '' @ name @ '': '' @ err_msg e)))
       | None \<Rightarrow> ret None))))))))))"

text \<open>
  The source also stores the cluster in the first element of the caller's slice; the callers do
  not read that field again.
\<close>

definition NewEtcdFromCRD :: "env \<Rightarrow> Master list \<Rightarrow> Cluster \<Rightarrow> string \<Rightarrow> (gerr + Etcd) eff" where
  "NewEtcdFromCRD E nodes spec home =
     andThen (FileExist E (certHome home ''client.key'')) (\<lambda>r. case r of
       Inl e \<Rightarrow> ret (Inl e)
     | Inr exist \<Rightarrow>
     andThen (if exist then ret None
       else (case nodes of
         [] \<Rightarrow> panic out_of_range
       | n # _ \<Rightarrow> LoadOrSign E (n\<lparr>m_Status := (m_Status n)\<lparr>mst_BootCFG := Some spec\<rparr>\<rparr>) home))
     (\<lambda>err. case err of
       Some e \<Rightarrow> ret (Inl (Errorf (''try sign etcd, '' @ err_msg e)))
     | None \<Rightarrow> ret (Inr \<lparr>et_home = home,
         et_me = (if nodes = [] then [] else ms_IP (m_Spec (last nodes))),
         et_peer = map (\<lambda>n. ms_IP (m_Spec n)) nodes\<rparr>)))"

definition NewEtcd :: "Master \<Rightarrow> Etcd" where
  "NewEtcd node = \<lparr>et_home = [], et_me = ms_IP (m_Spec node),
     et_peer = map host_IP (mst_Peer (m_Status node))\<rparr>"

definition AddUser :: "env \<Rightarrow> Etcd \<Rightarrow> unit eff" where
  "AddUser E m =
     andThen (run_cmd E [''groupadd'', ''-r'', ETCD_USER]) (\<lambda>_.
     andThen (run_cmd E [''useradd'', ''-r'', ''-g'', ETCD_USER, ''-d'', Home m,
       ''-s'', ''/sbin/nologin'', ''-c'', ''etcd user'', ETCD_USER]) (\<lambda>_.
     andThen (run_cmd E [''chown'', ''-R'', ''etcd:etcd'', Home m]) (\<lambda>_. ret ())))"

section \<open>Snapshots\<close>

text \<open>\<^verbatim>\<open>filepath.Join\<close> and \<^verbatim>\<open>filepath.Dir\<close> on clean paths.\<close>

definition path_join :: "string \<Rightarrow> string \<Rightarrow> string" where
  "path_join a b = a @ ''/'' @ b"

definition path_dir :: "string \<Rightarrow> string" where
  "path_dir f = (let d = rev (tl (dropWhile (\<lambda>c. c \<noteq> CHR ''/'') (rev f)))
     in if CHR ''/'' \<notin> set f then ''.'' else if d = [] then ''/'' else d)"

definition initialMember :: "string \<Rightarrow> string" where
  "initialMember ip = ''etcd-'' @ ip @ ''.member='' @ advertise ip ''2380''"

fun memberAddrs :: "Member list \<Rightarrow> string list" where
  "memberAddrs [] = []"
| "memberAddrs (m # mem) = (case mem_PeerURLs m of
     [] \<Rightarrow> memberAddrs mem
   | url # _ \<Rightarrow> (''etcd-'' @ mem_IP m @ ''.member='' @ url) # memberAddrs mem)"

definition InitialEtcdCluster :: "Master \<Rightarrow> Member list \<Rightarrow> string" where
  "InitialEtcdCluster node mem = (if mem = [] then initialMember (ms_IP (m_Spec node))
     else join '','' (memberAddrs mem))"

definition Restore :: "env \<Rightarrow> Etcd \<Rightarrow> Master \<Rightarrow> string \<Rightarrow> gerr option eff" where
  "Restore E m node dir = (if dir = [] then ret (Some (Errorf ''empty snapshot path''))
     else (let dataDir = path_join (Home m) DataDir; bakDir = path_join ''/root'' ''db.bak'' in
     andThen (FileExist E bakDir) (\<lambda>r. case r of
       Inl e \<Rightarrow> ret (Some (Wrap e ''etcd backup file check''))
     | Inr exist \<Rightarrow>
     andThen (if exist then ret None else do_call E (FRename dataDir bakDir)) (\<lambda>_.
     andThen (do_call E (FRemoveAll dataDir)) (\<lambda>_.
     andThen (bootEtcd node) (\<lambda>sp.
     andThen (run_cmd E [''etcdctl'', ''snapshot'', ''restore'', dir, ''--data-dir'', dataDir,
       ''--skip-hash-check=true'', ''--name'', memberName (ms_IP (m_Spec node)),
       ''--initial-cluster'', InitialEtcdCluster node [],
       ''--initial-cluster-token'', etcd_InitToken sp,
       ''--initial-advertise-peer-urls'', advertise (ms_IP (m_Spec node)) ''2380'',
       ''--cacert'', certHome (Home m) ''server-ca.crt'',
       ''--cert'', certHome (Home m) ''server.crt''])
       (\<lambda>result. ret (CmdError result))))))))"

definition Snapshot :: "env \<Rightarrow> Etcd \<Rightarrow> string \<Rightarrow> gerr option eff" where
  "Snapshot E m dir = (if dir = [] then ret (Some (Errorf ''empty snapshot target path''))
     else (case et_peer m of
       [] \<Rightarrow> ret (Some (Errorf ''empty peer endpoint, can not snapshot''))
     | p # _ \<Rightarrow> andThen (do_call E (FMkdirAll (path_dir dir))) (\<lambda>err. case err of
         Some e \<Rightarrow> ret (Some (Wrap e (''make dir: '' @ path_dir dir)))
       | None \<Rightarrow> andThen (run_cmd E (etcdctl m (advertises [p] ''2379'') [''snapshot'', ''save'', dir]))
           (\<lambda>result. ret (CmdError result)))))"

section \<open>Unit file and start-up\<close>

definition Env :: "Etcd \<Rightarrow> Master \<Rightarrow> Member list \<Rightarrow> string \<Rightarrow> (string \<times> string) list eff" where
  "Env m node mems state = andThen (bootEtcd node) (\<lambda>sp. ret
     [(''ETCD_INITIAL_CLUSTER_TOKEN'', etcd_InitToken sp),
      (''ETCD_PEER_TRUSTED_CA_FILE'', certHome (Home m) ''peer-ca.crt''),
      (''ETCD_PEER_CERT_FILE'', certHome (Home m) ''peer.crt''),
      (''ETCD_PEER_KEY_FILE'', certHome (Home m) ''peer.key''),
      (''ETCD_NAME'', memberName (ms_IP (m_Spec node))),
      (''ETCD_DATA_DIR'', DataDir),
      (''ETCD_ELECTION_TIMEOUT'', ''3000''),
      (''ETCD_HEARTBEAT_INTERVAL'', ''500''),
      (''ETCD_SNAPSHOT_COUNT'', ''50000''),
      (''ETCD_CLIENT_CERT_AUTH'', ''true''),
      (''ETCD_TRUSTED_CA_FILE'', certHome (Home m) ''server-ca.crt''),
      (''ETCD_CERT_FILE'', certHome (Home m) ''server.crt''),
      (''ETCD_KEY_FILE'', certHome (Home m) ''server.key''),
      (''ETCD_PEER_CLIENT_CERT_AUTH'', ''true''),
      (''ETCD_INITIAL_ADVERTISE_PEER_URLS'', advertise (ms_IP (m_Spec node)) ''2380''),
      (''ETCD_LISTEN_PEER_URLS'', advertise (ms_IP (m_Spec node)) ''2380''),
      (''ETCD_ADVERTISE_CLIENT_URLS'', advertise (ms_IP (m_Spec node)) ''2379''),
      (''ETCD_LISTEN_CLIENT_URLS'', advertise (ms_IP (m_Spec node)) ''2379''),
      (''ETCD_INITIAL_CLUSTER'', InitialEtcdCluster node mems),
      (''ETCD_INITIAL_CLUSTER_STATE'', state)])"

definition EtcdUnitFileContent ::
    "env \<Rightarrow> Etcd \<Rightarrow> Master \<Rightarrow> Member list \<Rightarrow> string \<Rightarrow> string eff" where
  "EtcdUnitFileContent E m node mems state =
     andThen (Env m node mems state) (\<lambda>vars. andThen (range_map E vars) (\<lambda>vars.
       ret (join [CHR 0x0A]
         ([''[Unit]'', ''Description=etcd service'', ''After=network.target'', [],
           ''[Service]'', ''WorkingDirectory='' @ Home m, ''User=etcd''] @
          map (\<lambda>(k, v). ''Environment='' @ [CHR 0x22] @ k @ ''='' @ v @ [CHR 0x22]) vars @
          [''ExecStart=/usr/bin/etcd'', ''LimitNOFILE=65536'', ''Restart=always'',
           ''RestartSec=15s'', ''OOMScoreAdjust=-999'', ''[Install]'',
           ''WantedBy=multi-user.target'']))))"

definition FlushEtcdContent :: "env \<Rightarrow> Etcd \<Rightarrow> Master \<Rightarrow> string \<Rightarrow> gerr option eff" where
  "FlushEtcdContent E m node state =
     andThen (if state \<noteq> ''new'' then MemberList E m else ret (None, [])) (\<lambda>(err, mems). case err of
       Some e \<Rightarrow> ret (Some (Errorf (''member list: on etcd content, '' @ err_msg e)))
     | None \<Rightarrow> andThen (EtcdUnitFileContent E m node mems state) (\<lambda>content.
         do_call E (FWrite ETCD_UNIT_FILE content)))"

definition BootTypeOperator :: string where "BootTypeOperator = ''operator''"
definition BootTypeRecover :: string where "BootTypeRecover = ''recover''"
definition SnapshotTMP :: string where "SnapshotTMP = ''/tmp/snapshot.db''"

text \<open>The boot-type switch of \<^verbatim>\<open>Execute\<close>: the state to flush next, or the error to return.\<close>

definition bootState :: "env \<Rightarrow> Etcd \<Rightarrow> Master \<Rightarrow> string \<Rightarrow> (gerr + string) eff" where
  "bootState E etcd node bootType =
     (if bootType = BootTypeOperator
      then andThen (BackOffJoinMember E etcd) (\<lambda>err. case err of
          Some e \<Rightarrow> ret (Inl (Errorf (''join etcd peer on bootType='' @ bootType @ '': '' @ err_msg e)))
        | None \<Rightarrow> ret (Inr ''existing''))
      else if bootType = BootTypeRecover
      then andThen (Restore E etcd node SnapshotTMP) (\<lambda>err. case err of
          Some e \<Rightarrow> ret (Inl (Wrap e ''restore snapshot''))
        | None \<Rightarrow> ret (Inr ''new''))
      else ret (Inr ''new''))"

fun systemctlAll :: "env \<Rightarrow> string list list \<Rightarrow> gerr option eff" where
  "systemctlAll E [] = ret None"
| "systemctlAll E (ops # rest) = andThen (Systemctl E ops) (\<lambda>err. case err of
     Some e \<Rightarrow> ret (Some (Errorf (''systecmctl enable etcd error,'' @ err_msg e @ '' '')))
   | None \<Rightarrow> systemctlAll E rest)"

text \<open>The end of \<^verbatim>\<open>Execute\<close>: the unit file with the final state, the user, systemd.\<close>

definition startEtcd :: "env \<Rightarrow> Etcd \<Rightarrow> Master \<Rightarrow> string \<Rightarrow> gerr option eff" where
  "startEtcd E etcd node state =
     andThen (FlushEtcdContent E etcd node state) (\<lambda>err. case err of
       Some e \<Rightarrow> ret (Some (Errorf (''write file '' @ ETCD_UNIT_FILE @ '': '' @ err_msg e)))
     | None \<Rightarrow> andThen (AddUser E etcd) (\<lambda>_.
       andThen (systemctlAll E [[''enable'', ''etcd''], [''daemon-reload''], [''restart'', ''etcd'']])
       (\<lambda>err. case err of
         Some e \<Rightarrow> ret (Some e)
       | None \<Rightarrow> WaitEndpoints E etcd (advertise (ms_IP (m_Spec node)) ''2379''))))"

text \<open>\<^verbatim>\<open>Execute\<close> with the node object and the boot type of the action context.\<close>

definition Execute :: "env \<Rightarrow> Master option \<Rightarrow> string \<Rightarrow> gerr option eff" where
  "Execute E nodeObject bootType = (case nodeObject of
     None \<Rightarrow> ret (Some (Errorf ''can not get node info from ActionContex''))
   | Some node \<Rightarrow>
     andThen (LoadOrSign E node (Home (NewEtcd node))) (\<lambda>err. case err of
       Some e \<Rightarrow> ret (Some (Errorf (''sign: '' @ err_msg e)))
     | None \<Rightarrow> andThen (FlushEtcdContent E (NewEtcd node) node ''new'') (\<lambda>err. case err of
       Some e \<Rightarrow> ret (Some (Errorf (''flush etcd content file '' @ ETCD_UNIT_FILE @ '': '' @ err_msg e)))
     | None \<Rightarrow> andThen (bootState E (NewEtcd node) node bootType) (\<lambda>r. case r of
       Inl e \<Rightarrow> ret (Some e)
     | Inr state \<Rightarrow> startEtcd E (NewEtcd node) node state))))"

section \<open>Trying peers, flattened\<close>

text \<open>The reference for the two nested loops: one list of attempts, stopping at a success.\<close>

fun tryAll ::
    "string list \<Rightarrow> int \<Rightarrow> (string \<Rightarrow> 's \<Rightarrow> (gerr option \<times> 's) eff) \<Rightarrow> gerr option \<Rightarrow> 's \<Rightarrow>
     (gerr option \<times> 's) eff" where
  "tryAll [] interval f lastError s = ret (Wrapf lastError ''NoMoreEndpointsToTry'', s)"
| "tryAll (p # ps) interval f lastError s = andThen (f p s) (\<lambda>(err, s). case err of
     None \<Rightarrow> ret (None, s)
   | Some e \<Rightarrow> andThen (if interval \<noteq> 0 then Sleep interval else ret ())
       (\<lambda>_. tryAll ps interval f (Some e) s))"

definition twice :: "'a list \<Rightarrow> 'a list" where
  "twice ps = concat (map (\<lambda>p. [p, p]) ps)"

lemma length_twice [simp]: "length (twice ps) = 2 * length ps"
  by (induction ps) (simp_all add: twice_def)

lemma set_twice [simp]: "set (twice ps) = set ps"
  by (induction ps) (auto simp: twice_def)

lemma twice_eq_Nil [simp]: "twice ps = [] \<longleftrightarrow> ps = []"
  by (cases ps) (simp_all add: twice_def)

lemma andThen_case_option:
  "andThen (case x of None \<Rightarrow> a | Some y \<Rightarrow> b y) g =
   (case x of None \<Rightarrow> andThen a g | Some y \<Rightarrow> andThen (b y) g)"
  by (cases x) simp_all

lemma tryPeers_tryAll: "tryPeers ps i f le s = tryAll (twice ps) i f le s"
proof (induction ps arbitrary: le s)
  case Nil
  show ?case by (simp add: twice_def)
next
  case (Cons p ps)
  have "twice (p # ps) = p # p # twice ps" by (simp add: twice_def)
  then show ?case
    by (simp add: Cons.IH numeral_2_eq_2 andThen_assoc case_prod_beta' andThen_case_option
        cong: option.case_cong)
qed

subsection \<open>The contract of one attempt\<close>

text \<open>
  An attempt runs one command against the peer and decides from its status. This is what
  the closures of \<^verbatim>\<open>MemberList\<close> and \<^verbatim>\<open>RemoveMember\<close> have in common.
\<close>

fun is_cmd :: "call \<Rightarrow> bool" where
  "is_cmd (HostWrite (CmdC _)) = True"
| "is_cmd _ = False"

definition cmds :: "call list \<Rightarrow> call list" where
  "cmds cs = filter is_cmd cs"

lemma cmds_simps [simp]:
  "cmds [] = []" "cmds (XCmd a # cs) = XCmd a # cmds cs" "cmds (Sys c # cs) = cmds cs"
  "cmds (xs @ ys) = cmds xs @ cmds ys"
  by (simp_all add: cmds_def)

locale peer_command =
  fixes E :: env
    and cmdline :: "string \<Rightarrow> string list"
    and decide :: "CmdStatus \<Rightarrow> 's \<Rightarrow> gerr option \<times> 's"
    and attempt :: "string \<Rightarrow> 's \<Rightarrow> (gerr option \<times> 's) eff"
  assumes attempt_eq: "attempt ip s = andThen (run_cmd E (cmdline ip)) (\<lambda>r. ret (decide r s))"
begin

text \<open>What a run of attempts does: its commands, its end and why it ended there.\<close>

definition outcome_ok ::
    "string list \<Rightarrow> gerr option \<Rightarrow> 's \<Rightarrow> call list \<Rightarrow> gerr option \<Rightarrow> 's \<Rightarrow> call list \<Rightarrow> nat \<Rightarrow> bool" where
  "outcome_ok as le s tr err s' new k \<longleftrightarrow>
     k \<le> length as \<and> cmds new = map (\<lambda>p. XCmd (cmdline p)) (take k as) \<and>
     (err = None \<longrightarrow> (as = [] \<and> le = None \<and> s' = s) \<or>
        (\<exists>p\<in>set as. \<exists>t s0. tr @ new = t @ [XCmd (cmdline p)] \<and>
           decide (e_cmd E t (cmdline p)) s0 = (None, s'))) \<and>
     (err \<noteq> None \<longrightarrow> k = length as)"

lemma tryAll_run:
  "\<exists>err s' new k. tryAll as i attempt le s tr = (Ret (err, s'), tr @ new) \<and>
     outcome_ok as le s tr err s' new k \<and> set new \<subseteq> {CSleep i} \<union> (\<lambda>p. XCmd (cmdline p)) ` set as"
proof (induction as arbitrary: le s tr)
  case Nil
  show ?case by (auto simp: outcome_ok_def Wrapf_def)
next
  case (Cons p as)
  let ?c = "XCmd (cmdline p)" and ?d = "decide (e_cmd E tr (cmdline p)) s"
  obtain err1 s1 where d: "?d = (err1, s1)" by (cases ?d)
  show ?case
  proof (cases err1)
    case None
    have "tryAll (p # as) i attempt le s tr = (Ret (None, s1), tr @ [?c])"
      by (simp add: attempt_eq run_cmd_def run_simps d None)
    moreover have "outcome_ok (p # as) le s tr None s1 [?c] 1"
      using d None by (auto simp: outcome_ok_def)
    ultimately show ?thesis by (metis UnCI image_eqI insert_subset list.set(1) list.set(2)
      list.set_intros(1) empty_subsetI)
  next
    case (Some e)
    let ?w = "if i \<noteq> 0 then [CSleep i] else []"
    from Cons.IH [of "Some e" s1 "tr @ [?c] @ ?w"] obtain err s' new k where
      run: "tryAll as i attempt (Some e) s1 (tr @ [?c] @ ?w) = (Ret (err, s'), (tr @ [?c] @ ?w) @ new)"
      and ok: "outcome_ok as (Some e) s1 (tr @ [?c] @ ?w) err s' new k"
      and new: "set new \<subseteq> {CSleep i} \<union> (\<lambda>p. XCmd (cmdline p)) ` set as" by blast
    have "tryAll (p # as) i attempt le s tr = (Ret (err, s'), tr @ (?c # ?w @ new))"
      using run by (cases "i = 0") (simp_all add: attempt_eq run_cmd_def Sleep_def run_simps d Some)
    moreover have "outcome_ok (p # as) le s tr err s' (?c # ?w @ new) (Suc k)"
      using ok by (auto simp: outcome_ok_def)
    moreover have "set (?c # ?w @ new) \<subseteq> {CSleep i} \<union> (\<lambda>p. XCmd (cmdline p)) ` set (p # as)"
      using new by auto
    ultimately show ?thesis by blast
  qed
qed

lemma TryEachPeer_run:
  obtains err s' new k where "TryEachPeer ps i attempt s tr = (Ret (err, s'), tr @ new)"
    and "outcome_ok (twice ps) None s tr err s' new k"
    and "set new \<subseteq> {CSleep i} \<union> (\<lambda>p. XCmd (cmdline p)) ` set ps"
  using tryAll_run [of "twice ps" i None s tr] by (auto simp: TryEachPeer_def tryPeers_tryAll)

lemma TryEachPeer_emits:
  "{CSleep i} \<union> (\<lambda>p. XCmd (cmdline p)) ` set ps \<subseteq> A \<Longrightarrow> emits A (TryEachPeer ps i attempt s)"
proof (rule emitsI)
  fix tr
  assume A: "{CSleep i} \<union> (\<lambda>p. XCmd (cmdline p)) ` set ps \<subseteq> A"
  obtain err s' new k where "TryEachPeer ps i attempt s tr = (Ret (err, s'), tr @ new)"
    and "set new \<subseteq> {CSleep i} \<union> (\<lambda>p. XCmd (cmdline p)) ` set ps" by (rule TryEachPeer_run)
  with A show "\<exists>new. snd (TryEachPeer ps i attempt s tr) = tr @ new \<and> set new \<subseteq> A"
    by (intro exI [of _ new]) auto
qed

lemma TryEachPeer_commands:
  "length (cmds (new_calls (TryEachPeer ps i attempt s) tr)) \<le> 2 * length ps"
  by (rule TryEachPeer_run [of ps i s tr]) (auto simp: outcome_ok_def)

lemma TryEachPeer_failed:
  assumes "TryEachPeer ps i attempt s tr = (Ret (Some e, s'), tr')"
  shows "cmds (new_calls (TryEachPeer ps i attempt s) tr) = map (\<lambda>p. XCmd (cmdline p)) (twice ps)"
  using assms by (rule_tac TryEachPeer_run [of ps i s tr]) (auto simp: outcome_ok_def)

lemma TryEachPeer_succeeded:
  assumes "TryEachPeer ps i attempt s tr = (Ret (None, s'), tr')" and "ps \<noteq> []"
  shows "\<exists>p\<in>set ps. \<exists>t s0. tr' = t @ [XCmd (cmdline p)] \<and>
    decide (e_cmd E t (cmdline p)) s0 = (None, s')"
  using assms by (rule_tac TryEachPeer_run [of ps i s tr]) (auto simp: outcome_ok_def)

end

definition listCmd :: "Etcd \<Rightarrow> string \<Rightarrow> string list" where
  "listCmd m ip = etcdctl m (advertise ip ''2379'') [''-w'', ''json'', ''member'', ''list'']"

interpretation listing: peer_command E "listCmd m" "listDecide E" "fortry E m" for E m
  by unfold_locales (simp add: fortry_def listCmd_def)

interpretation removing: peer_command E "removeCmd m i" "\<lambda>r u. (CmdError r, u)" "remove E m i"
  for E m i
  by unfold_locales (simp add: remove_def)

section \<open>Lemmas on members\<close>

lemma MemberList_emits [emits_intro]:
  "reads \<subseteq> A \<Longrightarrow> (\<And>p. p \<in> set (et_peer m) \<Longrightarrow> XCmd (listCmd m p) \<in> A) \<Longrightarrow> emits A (MemberList E m)"
  unfolding MemberList_def by (rule listing.TryEachPeer_emits) auto

lemma RemoveMember_emits [emits_intro]:
  "reads \<subseteq> A \<Longrightarrow>
   (\<And>p i. p \<in> set (et_peer m) \<Longrightarrow> mem_ID mem = Some i \<Longrightarrow> i \<noteq> 0 \<Longrightarrow> XCmd (removeCmd m i p) \<in> A) \<Longrightarrow>
   emits A (RemoveMember E m mem)"
  unfolding RemoveMember_def
  by (intro emits_intro removing.TryEachPeer_emits) auto

text \<open>What \<^verbatim>\<open>MemberList\<close> guarantees of every member it returns.\<close>

definition url_ip :: "Member \<Rightarrow> bool" where
  "url_ip p \<longleftrightarrow> (\<exists>url urls a as b bs. mem_PeerURLs p = url # urls \<and>
     split_on url ''//'' = a # b # as \<and> split_on b '':'' = mem_IP p # bs \<and> bs \<noteq> [])"

lemma two_elems: "\<not> length xs < 2 \<longleftrightarrow> (\<exists>a b as. xs = a # b # as)"
  by (cases xs; cases "tl xs") auto

lemma setIPs_ok: "setIPs ps = (ps', None) \<Longrightarrow> p \<in> set ps' \<Longrightarrow> url_ip p"
proof (induction ps arbitrary: ps' p)
  case (Cons q ps)
  then show ?case
    by (auto simp: Let_def two_elems url_ip_def split: list.splits if_splits prod.splits)
qed simp

lemma setIPs_members:
  "setIPs ps = (ps', None) \<Longrightarrow> map (\<lambda>p. p\<lparr>mem_IP := []\<rparr>) ps' = map (\<lambda>p. p\<lparr>mem_IP := []\<rparr>) ps"
proof (induction ps arbitrary: ps')
  case (Cons q ps)
  then show ?case by (auto simp: Let_def split: list.splits if_splits prod.splits)
qed simp

lemma listDecide_ok:
  "listDecide E r mems0 = (None, mems) \<Longrightarrow>
   CmdError r = None \<and> (\<exists>raw. LoadMembers E (cmd_Stdout r) mems0 = (raw, None) \<and>
     setIPs raw = (mems, None))"
  by (auto simp: listDecide_def split: option.splits prod.splits)

lemma MemberList_total:
  "\<exists>err mems new. MemberList E m tr = (Ret (err, mems), tr @ new)"
  unfolding MemberList_def by (rule listing.TryEachPeer_run [of "et_peer m" "2 * Second" E m "[]" tr]) blast

lemma MemberList_url_ip:
  "MemberList E m tr = (Ret (None, mems), tr') \<Longrightarrow> p \<in> set mems \<Longrightarrow> url_ip p"
proof (cases "et_peer m = []")
  case True
  assume "MemberList E m tr = (Ret (None, mems), tr')" "p \<in> set mems"
  with True show ?thesis by (simp add: MemberList_def TryEachPeer_def)
next
  case False
  assume "MemberList E m tr = (Ret (None, mems), tr')" "p \<in> set mems"
  with False listing.TryEachPeer_succeeded [of "et_peer m" "2 * Second" E m "[]" tr mems tr']
  show ?thesis by (auto simp: MemberList_def dest!: listDecide_ok setIPs_ok)
qed

subsection \<open>Addresses\<close>

text \<open>A host name or an IPv4 address: no colon and no slash.\<close>

definition plain_ip :: "string \<Rightarrow> bool" where
  "plain_ip ip \<longleftrightarrow> CHR '':'' \<notin> set ip \<and> CHR ''/'' \<notin> set ip"

lemma no_double_slash: "CHR ''/'' \<notin> set s \<Longrightarrow> \<not> contains s ''//''"
  unfolding contains_iff by auto

lemma split_advertise:
  assumes "CHR ''/'' \<notin> set ip" and "CHR ''/'' \<notin> set port"
  shows "split_on (advertise ip port) ''//'' = [''https:'', ip @ '':'' @ port]"
proof -
  have "\<not> contains (ip @ '':'' @ port) ''//''"
    using assms by (intro no_double_slash) auto
  then show ?thesis
    by (simp add: advertise_def split_on_def split_acc_no_sep)
qed

lemma split_host:
  "CHR '':'' \<notin> set ip \<Longrightarrow> split_on (ip @ '':'' @ port) '':'' = ip # split_on port '':''"
  by (simp add: split_on_char)

lemma url_ip_advertise:
  assumes "url_ip p" and "mem_PeerURLs p = advertise ip ''2380'' # urls" and "plain_ip ip"
  shows "mem_IP p = ip"
  using assms by (auto simp: url_ip_def plain_ip_def split_advertise split_on_char)

lemma FindMemberByIP_found:
  assumes "mem_PeerURLs (FindMemberByIP mems ip) \<noteq> []"
  shows "FindMemberByIP mems ip \<in> set mems \<and>
    (\<exists>urls. mem_PeerURLs (FindMemberByIP mems ip) = advertise ip ''2380'' # urls)"
  using assms by (induction mems) (auto simp: zeroMember_def split: list.splits if_splits)

lemma FindMemberByIP_none:
  "mem_PeerURLs (FindMemberByIP mems ip) = [] \<Longrightarrow> FindMemberByIP mems ip = zeroMember"
  by (induction mems) (auto split: list.splits if_splits)

subsection \<open>Waiting for healthy end points\<close>

text \<open>The number of commands of a run that succeeded.\<close>

fun oks :: "env \<Rightarrow> call list \<Rightarrow> call list \<Rightarrow> nat" where
  "oks E t [] = 0"
| "oks E t (c # cs) = (case c of
     HostWrite (CmdC a) \<Rightarrow> if CmdError (e_cmd E t a) = None then 1 else 0
   | _ \<Rightarrow> 0) + oks E (t @ [c]) cs"

lemma waitLoop_run:
  "cnt < 3 \<Longrightarrow> \<exists>r new. waitLoop E m ep k cnt tr = (Ret r, tr @ new) \<and> length new \<le> 2 * k \<and>
     (r = None \<longrightarrow> cnt + oks E tr new = 3) \<and> (r \<noteq> None \<longrightarrow> length new = 2 * k \<and> cnt + oks E tr new < 3)"
proof (induction k arbitrary: cnt tr)
  case 0
  then show ?case by simp
next
  case (Suc k)
  let ?a = "etcdctl m ep [''endpoint'', ''health'']"
  let ?t = "tr @ [CSleep (2 * Second)]"
  let ?ok = "CmdError (e_cmd E ?t ?a) = None"
  let ?new = "[CSleep (2 * Second), XCmd ?a]"
  have step: "waitLoop E m ep (Suc k) cnt tr =
      (if ?ok then (if cnt + 1 = 3 then (Ret None, tr @ ?new) else waitLoop E m ep k (cnt + 1) (tr @ ?new))
       else waitLoop E m ep k cnt (tr @ ?new))"
    by (simp add: Sleep_def run_cmd_def run_simps split: option.split)
  show ?case
  proof (cases "?ok \<and> cnt + 1 = 3")
    case True
    with step have "waitLoop E m ep (Suc k) cnt tr = (Ret None, tr @ ?new)"
      by (simp del: waitLoop.simps)
    with True show ?thesis
      by (intro exI [of _ None] exI [of _ ?new]) (simp del: waitLoop.simps)
  next
    case False
    let ?cnt = "if ?ok then cnt + 1 else cnt"
    from False Suc.prems have "?cnt < 3" by auto
    from Suc.IH [OF this, of "tr @ ?new"] obtain r new where
      "waitLoop E m ep k ?cnt (tr @ ?new) = (Ret r, (tr @ ?new) @ new)" "length new \<le> 2 * k"
      "r = None \<longrightarrow> ?cnt + oks E (tr @ ?new) new = 3"
      "r \<noteq> None \<longrightarrow> length new = 2 * k \<and> ?cnt + oks E (tr @ ?new) new < 3" by blast
    with False step show ?thesis
      by (intro exI [of _ r] exI [of _ "?new @ new"]) (auto simp del: waitLoop.simps)
  qed
qed

lemma WaitEndpoints_emits [emits_intro]:
  "reads \<subseteq> A \<Longrightarrow> XCmd (etcdctl m ep [''endpoint'', ''health'']) \<in> A \<Longrightarrow> emits A (WaitEndpoints E m ep)"
proof -
  assume A: "reads \<subseteq> A" "XCmd (etcdctl m ep [''endpoint'', ''health'']) \<in> A"
  have "emits A (waitLoop E m ep k cnt)" for k cnt
    using A by (induction k arbitrary: cnt) (auto intro!: emits_intro)
  with A show ?thesis unfolding WaitEndpoints_def by (auto intro!: emits_intro)
qed

subsection \<open>Bounds on the calls of the other operations\<close>

text \<open>Commands whose program is \<^verbatim>\<open>etcdctl\<close>, and the file operations of this package.\<close>

definition etcdctl_calls :: "call set" where
  "etcdctl_calls = {c. \<exists>args. c = XCmd (''etcdctl'' # args)}"

definition file_calls :: "call set" where
  "file_calls = {c. \<exists>f d. c \<in> {FMkdirAll f, FWrite f d, FRename f d, FRemoveAll f}}"

lemma etcdctl_in [simp]: "XCmd (etcdctl m ep args) \<in> etcdctl_calls"
  "XCmd (listCmd m p) \<in> etcdctl_calls" "XCmd (removeCmd m i p) \<in> etcdctl_calls"
  "XCmd (''etcdctl'' # xs) \<in> etcdctl_calls"
  by (simp_all add: etcdctl_calls_def etcdctl_def listCmd_def removeCmd_def)

lemma file_in [simp]: "FMkdirAll f \<in> file_calls" "FWrite f d \<in> file_calls"
  "FRename f d \<in> file_calls" "FRemoveAll f \<in> file_calls"
  by (auto simp: file_calls_def)

lemma emits_TryEachPeer:
  assumes f: "\<And>p s. p \<in> set ps \<Longrightarrow> emits A (f p s)" and "CSleep i \<in> A"
  shows "emits A (TryEachPeer ps i f s)"
proof -
  have "emits A (tryAll qs i f le s)" if "set qs \<subseteq> set ps" for qs le s
    using that
  proof (induction qs arbitrary: le s)
    case (Cons q qs)
    then show ?case using f \<open>CSleep i \<in> A\<close> by (auto intro!: emits_intro)
  qed (simp add: emits_ret)
  then show ?thesis by (simp add: TryEachPeer_def tryPeers_tryAll)
qed

lemma MemberList_bound [emits_intro]: "reads \<union> etcdctl_calls \<subseteq> A \<Longrightarrow> emits A (MemberList E m)"
  by (rule MemberList_emits) auto

lemma RemoveMember_bound [emits_intro]:
  "reads \<union> etcdctl_calls \<subseteq> A \<Longrightarrow> emits A (RemoveMember E m mem)"
  by (rule RemoveMember_emits) auto

lemma WaitEndpoints_bound [emits_intro]:
  "reads \<union> etcdctl_calls \<subseteq> A \<Longrightarrow> emits A (WaitEndpoints E m ep)"
  by (rule WaitEndpoints_emits) auto

lemma joinTry_bound: "reads \<union> etcdctl_calls \<subseteq> A \<Longrightarrow> emits A (joinTry E m p u)"
  unfolding joinTry_def by (intro emits_intro) auto

lemma JoinMe_bound [emits_intro]: "reads \<union> etcdctl_calls \<subseteq> A \<Longrightarrow> emits A (JoinMe E m)"
  unfolding JoinMe_def by (intro emits_intro emits_TryEachPeer joinTry_bound) auto

lemma memAdvertise_bound [emits_intro]: "emits A (memAdvertise mems)"
proof -
  have "emits A (memAddrs mems)"
    by (induction mems) (auto intro!: emits_intro)
  then show ?thesis unfolding memAdvertise_def by (intro emits_intro)
qed

lemma Join_bound [emits_intro]: "reads \<union> etcdctl_calls \<subseteq> A \<Longrightarrow> emits A (Join E m)"
  unfolding Join_def by (intro emits_intro)

lemma BackOffJoinMember_bound [emits_intro]:
  "reads \<union> etcdctl_calls \<subseteq> A \<Longrightarrow> emits A (BackOffJoinMember E m)"
  unfolding BackOffJoinMember_def by (intro emits_intro) auto

lemma FileExist_bound [emits_intro]: "reads \<subseteq> A \<Longrightarrow> emits A (FileExist E f)"
  unfolding FileExist_def by (intro emits_intro) auto

lemma bootEtcd_bound [emits_intro]: "emits A (bootEtcd node)"
  unfolding bootEtcd_def by (intro emits_intro)

lemma deref_bound [emits_intro]: "emits A (deref p)"
  unfolding deref_def by (intro emits_intro)

lemma signCert_bound [emits_intro]: "reads \<subseteq> A \<Longrightarrow> emits A (signCert E k i)"
  unfolding signCert_def by (intro emits_intro) auto

lemma LoadOrSign_bound [emits_intro]:
  "reads \<union> file_calls \<subseteq> A \<Longrightarrow> emits A (LoadOrSign E node home)"
  unfolding LoadOrSign_def by (intro emits_intro) auto

lemma NewEtcdFromCRD_bound [emits_intro]:
  "reads \<union> file_calls \<subseteq> A \<Longrightarrow> emits A (NewEtcdFromCRD E nodes spec home)"
  unfolding NewEtcdFromCRD_def by (intro emits_intro) auto

lemma Restore_bound [emits_intro]:
  "reads \<union> etcdctl_calls \<union> file_calls \<subseteq> A \<Longrightarrow> emits A (Restore E m node dir)"
  unfolding Restore_def Let_def by (intro emits_intro) auto

lemma FlushEtcdContent_bound [emits_intro]:
  "reads \<union> etcdctl_calls \<union> file_calls \<subseteq> A \<Longrightarrow> emits A (FlushEtcdContent E m node state)"
  unfolding FlushEtcdContent_def EtcdUnitFileContent_def Env_def by (intro emits_intro) auto

lemma bootState_bound [emits_intro]:
  "reads \<union> etcdctl_calls \<union> file_calls \<subseteq> A \<Longrightarrow> emits A (bootState E m node boot)"
  unfolding bootState_def by (intro emits_intro) auto

lemma AddUser_bound [emits_intro]: "range XCmd \<subseteq> A \<Longrightarrow> emits A (AddUser E m)"
  unfolding AddUser_def by (intro emits_intro) auto

lemma systemctlAll_bound [emits_intro]: "range XCmd \<subseteq> A \<Longrightarrow> emits A (systemctlAll E ops)"
  by (induction ops) (auto simp: Systemctl_def intro!: emits_intro)

lemma startEtcd_bound [emits_intro]: "emits UNIV (startEtcd E etcd node state)"
  unfolding startEtcd_def by (intro emits_intro) auto

lemma new_calls_ret [simp]: "new_calls (ret x) tr = []"
  by (simp add: new_calls_def)

lemma BackOffJoinMember_done:
  assumes "BackOffJoinMember E m tr = (Ret None, tr')"
  shows "\<exists>t. prefix tr t \<and> Join E m t = (Ret None, tr')"
proof -
  define c where "c = andThen (Join E m) (\<lambda>err. case err of
    Some e \<Rightarrow> ret (False, None) | None \<Rightarrow> ret (True, None :: gerr option))"
  have ext: "emits UNIV c" unfolding c_def by (intro emits_intro) simp
  from assms have "poll_ticks (e_ticks E tr) c (tr @ [CTimer (5 * Minute)]) = (Ret None, tr')"
    by (simp add: BackOffJoinMember_def Poll_def run_simps(1) c_def)
  from poll_ticks_done [OF this ext] obtain t where
    t: "prefix (tr @ [CTimer (5 * Minute)]) t" "c t = (Ret (True, None), tr')" by blast
  from t(2) have "Join E m t = (Ret None, tr')"
    by (auto simp: c_def andThen_Ret_iff split: option.splits)
  with append_prefixD [OF t(1)] show ?thesis by blast
qed

section \<open>Properties\<close>

text \<open>
  C26: \<^verbatim>\<open>TryEachPeer\<close> makes its attempts in the order of the peers, two in a row on each, stops
  at the first one that succeeds, sleeps between attempts and wraps the last error: the two
  nested loops are the flat loop over that list of attempts. With no peer it succeeds without
  an attempt.
\<close>

theorem TryEachPeer_flat: "TryEachPeer ps i f s = tryAll (twice ps) i f None s"
  by (simp add: TryEachPeer_def tryPeers_tryAll)

text \<open>
  When \<^verbatim>\<open>MemberList\<close> succeeds, the list is what the last \<^verbatim>\<open>etcdctl member list\<close> printed,
  that command succeeded on one of the peers, and the IP of every member is the host part of
  its first peer URL; the one exception is an \<^verbatim>\<open>Etcd\<close> without peers, for which the empty list
  is returned as a success and nothing is asked.
\<close>

lemma MemberList_reports_members:
  assumes "MemberList E m tr = (Ret (None, mems), tr')"
  shows "(et_peer m = [] \<and> mems = [] \<and> tr' = tr) \<or>
    (\<exists>p\<in>set (et_peer m). \<exists>t old raw. tr' = t @ [XCmd (listCmd m p)] \<and>
       CmdError (e_cmd E t (listCmd m p)) = None \<and>
       LoadMembers E (cmd_Stdout (e_cmd E t (listCmd m p))) old = (raw, None) \<and>
       map (\<lambda>x. x\<lparr>mem_IP := []\<rparr>) mems = map (\<lambda>x. x\<lparr>mem_IP := []\<rparr>) raw \<and>
       (\<forall>x\<in>set mems. url_ip x))"
proof (cases "et_peer m = []")
  case True
  with assms show ?thesis by (simp add: MemberList_def TryEachPeer_def)
next
  case False
  with listing.TryEachPeer_succeeded [of "et_peer m" "2 * Second" E m "[]" tr mems tr'] assms
  obtain p t old where p: "p \<in> set (et_peer m)" "tr' = t @ [XCmd (listCmd m p)]"
    and d: "listDecide E (e_cmd E t (listCmd m p)) old = (None, mems)"
    by (auto simp: MemberList_def)
  from listDecide_ok [OF d] obtain raw where raw: "CmdError (e_cmd E t (listCmd m p)) = None"
    "LoadMembers E (cmd_Stdout (e_cmd E t (listCmd m p))) old = (raw, None)"
    "setIPs raw = (mems, None)" by blast
  from setIPs_members [OF raw(3)] MemberList_url_ip [OF assms] p raw show ?thesis
    by (intro disjI2 bexI [of _ p] exI [of _ t] exI [of _ old] exI [of _ raw] conjI ballI) simp_all
qed

definition member0 :: "int \<Rightarrow> string \<Rightarrow> Member" where
  "member0 i ip = zeroMember\<lparr>mem_ID := Some i, mem_PeerURLs := [advertise ip ''2380''],
     mem_ClientURLs := [advertise ip ''2379'']\<rparr>"

definition etcd0 :: Etcd where
  "etcd0 = \<lparr>et_home = ETCD_TMP, et_me = ''10.0.0.1'', et_peer = [''10.0.0.1'', ''10.0.0.2'']\<rparr>"

definition etcd_env :: env where
  "etcd_env = env0\<lparr>
     e_cmd := (\<lambda>tr as. \<lparr>cmd_Exit = if length tr = 0 then 1 else 0, cmd_Error = None,
       cmd_Stdout = [''members''], cmd_Stderr = []\<rparr>),
     e_json_members := (\<lambda>s ms. ([member0 7 ''10.0.0.1'', member0 8 ''10.0.0.2''], None))\<rparr>"

text \<open>
  The address \<^verbatim>\<open>JoinMe\<close> registers is the address \<^verbatim>\<open>MemberList\<close> reads back: when every
  member's peer URL is \<^verbatim>\<open>advertise(ip, "2380")\<close> of an address without colon and slash, the
  parsing succeeds and recovers exactly these addresses.
\<close>

lemma setIPs_advertise:
  assumes "\<forall>p\<in>set ps. \<exists>ip. plain_ip ip \<and> mem_PeerURLs p = [advertise ip ''2380'']"
  shows "\<exists>ps'. setIPs ps = (ps', None) \<and>
    map (\<lambda>p. [advertise (mem_IP p) ''2380'']) ps' = map mem_PeerURLs ps"
  using assms
proof (induction ps)
  case (Cons p ps)
  then obtain ps' ip where ps': "setIPs ps = (ps', None)"
      "map (\<lambda>p. [advertise (mem_IP p) ''2380'']) ps' = map mem_PeerURLs ps"
    and ip: "plain_ip ip" "mem_PeerURLs p = [advertise ip ''2380'']" by auto
  then show ?case
    by (simp add: split_advertise split_on_char split_on_char_none plain_ip_def)
qed simp

text \<open>
  \<^verbatim>\<open>RemoveMember\<close> never removes another member: the only commands it runs are
  \<^verbatim>\<open>etcdctl member remove\<close> with the id it was given, against the known peers, at most twice per
  peer; a member without an id (or with id 0) is left alone; and it reports an error only after
  both attempts on every peer.
\<close>

lemma RemoveMember_only_removes_member:
  "set (new_calls (RemoveMember E m mem) tr) \<subseteq> {CSleep (2 * Second)} \<union>
     {XCmd (removeCmd m i p) | i p. mem_ID mem = Some i \<and> i \<noteq> 0 \<and> p \<in> set (et_peer m)} \<and>
   length (cmds (new_calls (RemoveMember E m mem) tr)) \<le> 2 * length (et_peer m) \<and>
   (\<forall>e. result (RemoveMember E m mem) tr = Ret (Some e) \<longrightarrow>
      length (cmds (new_calls (RemoveMember E m mem) tr)) = 2 * length (et_peer m))"
proof (cases "mem_ID mem = None \<or> mem_ID mem = Some 0")
  case True
  then show ?thesis by (auto simp: RemoveMember_def result_def new_calls_def)
next
  case False
  then obtain i where i: "mem_ID mem = Some i" "i \<noteq> 0" by auto
  obtain err u new k where run:
    "TryEachPeer (et_peer m) (2 * Second) (remove E m i) () tr = (Ret (err, u), tr @ new)"
    and ok: "removing.outcome_ok E m i (twice (et_peer m)) None () tr err u new k"
    and new: "set new \<subseteq> {CSleep (2 * Second)} \<union> (\<lambda>p. XCmd (removeCmd m i p)) ` set (et_peer m)"
    by (rule removing.TryEachPeer_run)
  have "RemoveMember E m mem tr = (Ret err, tr @ new)"
    using i run by (simp add: RemoveMember_def andThen_apply)
  with ok new i show ?thesis
    by (auto simp: result_def removing.outcome_ok_def)
qed

text \<open>
  The member \<^verbatim>\<open>FindMemberByIP\<close> picks by peer URL is the member that \<^verbatim>\<open>MemberList\<close> shows with
  that IP: on a listed membership it returns either the zero member, which \<^verbatim>\<open>RemoveMember\<close>
  ignores, or a listed member with exactly that IP.
\<close>

lemma FindMemberByIP_finds_ip:
  assumes "MemberList E m tr = (Ret (None, mems), tr')" and "plain_ip ip"
  shows "FindMemberByIP mems ip = zeroMember \<or>
    (FindMemberByIP mems ip \<in> set mems \<and> mem_IP (FindMemberByIP mems ip) = ip)"
proof (cases "mem_PeerURLs (FindMemberByIP mems ip) = []")
  case True
  from FindMemberByIP_none [OF this] show ?thesis by blast
next
  case False
  from FindMemberByIP_found [OF this] obtain urls where f: "FindMemberByIP mems ip \<in> set mems"
    "mem_PeerURLs (FindMemberByIP mems ip) = advertise ip ''2380'' # urls" by blast
  from url_ip_advertise [OF MemberList_url_ip [OF assms(1) f(1)] f(2) assms(2)] f(1)
  show ?thesis by simp
qed

text \<open>
  \<^verbatim>\<open>WaitEndpoints\<close> always ends, with nil exactly when three health checks have succeeded
  within the rounds the timer allows, and with the time-out error otherwise; it makes at most
  one health check per round.
\<close>

lemma WaitEndpoints_three_checks:
  "\<exists>r new. WaitEndpoints E m ep tr = (Ret r, tr @ CTimer (3 * Minute) # new) \<and>
     length new \<le> 2 * e_ticks E tr \<and>
     (r = None \<longleftrightarrow> oks E (tr @ [CTimer (3 * Minute)]) new = 3) \<and>
     oks E (tr @ [CTimer (3 * Minute)]) new \<le> 3"
proof -
  obtain r new where "waitLoop E m ep (e_ticks E tr) 0 (tr @ [CTimer (3 * Minute)]) =
      (Ret r, (tr @ [CTimer (3 * Minute)]) @ new)" "length new \<le> 2 * e_ticks E tr"
    "r = None \<longrightarrow> 0 + oks E (tr @ [CTimer (3 * Minute)]) new = 3"
    "r \<noteq> None \<longrightarrow> 0 + oks E (tr @ [CTimer (3 * Minute)]) new < 3"
    using waitLoop_run [of 0 E m ep "e_ticks E tr" "tr @ [CTimer (3 * Minute)]"] by auto
  then show ?thesis
    by (intro exI [of _ r] exI [of _ new]) (auto simp: WaitEndpoints_def run_simps)
qed

text \<open>
  C25: \<^verbatim>\<open>Join\<close> reports success only when no other member joined meanwhile: the list read after
  the join has at most one member more than the list read before it.
\<close>

theorem Join_detects_concurrent_join:
  assumes "Join E m tr = (Ret None, tr')"
  shows "\<exists>omems t1 t2 nmems. MemberList E m tr = (Ret (None, omems), t1) \<and> prefix t1 t2 \<and>
    MemberList E m t2 = (Ret (None, nmems), tr') \<and> length nmems \<le> length omems + 1"
proof -
  from assms obtain omems t1 adv t2 t3 t4 nmems where
    "MemberList E m tr = (Ret (None, omems), t1)" and a: "memAdvertise omems t1 = (Ret adv, t2)"
    and w: "WaitEndpoints E m adv t2 = (Ret None, t3)" and j: "JoinMe E m t3 = (Ret None, t4)"
    and "MemberList E m t4 = (Ret (None, nmems), tr')" "\<not> length omems + 1 < length nmems"
    by (auto simp: Join_def andThen_Ret_iff split: option.splits if_splits)
  moreover have "prefix t1 t4"
    using emits_prefix [OF memAdvertise_bound a] emits_prefix [OF WaitEndpoints_bound w]
      emits_prefix [OF JoinMe_bound j] by (meson prefix_order.trans subset_UNIV)
  ultimately show ?thesis by (meson not_less)
qed

theorem Join_detects_concurrent_join_witness:
  "\<exists>tr'. Join etcd_env etcd0 [] = (Ret None, tr') \<and>
     (\<exists>omems t1 t2 nmems. MemberList etcd_env etcd0 [] = (Ret (None, omems), t1) \<and> prefix t1 t2 \<and>
       MemberList etcd_env etcd0 t2 = (Ret (None, nmems), tr') \<and> length nmems \<le> length omems + 1)"
proof -
  have "fst (Join etcd_env etcd0 []) = Ret None" by code_simp
  then have "Join etcd_env etcd0 [] = (Ret None, snd (Join etcd_env etcd0 []))"
    by (metis prod.collapse)
  with Join_detects_concurrent_join [OF this] show ?thesis by blast
qed

text \<open>
  \<^verbatim>\<open>Restore\<close> moves the data directory to \<^verbatim>\<open>/root/db.bak\<close> only if there is no such backup yet,
  so the first backup is never overwritten; and with an empty snapshot path it touches nothing.
\<close>

lemma Restore_keeps_first_backup:
  assumes "FRename a b \<in> set (new_calls (Restore E m node dir) tr)"
  shows "dir \<noteq> [] \<and> b = ''/root/db.bak'' \<and> e_exist E tr ''/root/db.bak'' = Inr False"
  using assms
  by (auto simp: Restore_def Let_def FileExist_def path_join_def do_call_def run_cmd_def bootEtcd_def
      new_calls_def run_simps split: if_splits sum.splits option.splits)

text \<open>
  On a node that joins through the operator, etcd is restarted only after \<^verbatim>\<open>Join\<close> has
  succeeded: a run of \<^verbatim>\<open>Execute\<close> that contains \<^verbatim>\<open>systemctl restart etcd\<close> contains a successful
  join before it.
\<close>

lemma Execute_restarts_after_join:
  assumes "XCmd [''systemctl'', ''restart'', ''etcd''] \<in>
    set (new_calls (Execute E (Some node) BootTypeOperator) tr)"
  shows "\<exists>t t'. prefix tr t \<and> Join E (NewEtcd node) t = (Ret None, t') \<and>
    XCmd [''systemctl'', ''restart'', ''etcd''] \<notin> set (drop (length tr) t')"
proof -
  let ?c = "XCmd [''systemctl'', ''restart'', ''etcd'']" and ?A = "reads \<union> etcdctl_calls \<union> file_calls"
  have A: "?c \<notin> ?A" by (auto simp: etcdctl_calls_def file_calls_def)
  have ext: "emits UNIV (case r of Inl e \<Rightarrow> ret (Some e)
      | Inr state \<Rightarrow> startEtcd E (NewEtcd node) node state)" for r by (intro emits_intro)
  note c0 = assms [unfolded Execute_def option.case]
  show ?thesis
  proof (rule late_call [OF LoadOrSign_bound A _ c0], goal_cases)
    case (3 e1 t1)
    then have "e1 = None" by (auto split: option.splits)
    note run1 = 3(1) and c1 = 3(3) [unfolded this option.case]
    show ?case
    proof (rule late_call [OF FlushEtcdContent_bound A _ c1], goal_cases)
      case (3 e2 t2)
      then have "e2 = None" by (auto split: option.splits)
      note run2 = 3(1) and c2 = 3(3) [unfolded this option.case]
      show ?case
      proof (rule late_call [OF bootState_bound A ext c2], goal_cases)
        case (2 r t3)
        then obtain state where "r = Inr state" by (auto split: sum.splits)
        with 2(1) have "BackOffJoinMember E (NewEtcd node) t2 = (Ret None, t3)"
          by (auto simp: bootState_def andThen_Ret_iff split: option.splits)
        from BackOffJoinMember_done [OF this] obtain t where
          t: "prefix t2 t" "Join E (NewEtcd node) t = (Ret None, t3)" by blast
        obtain n1 where n1: "t1 = tr @ n1" "set n1 \<subseteq> ?A"
          by (rule emits_run [OF LoadOrSign_bound [of ?A] run1]) auto
        obtain n2 where n2: "t2 = t1 @ n2" "set n2 \<subseteq> ?A"
          by (rule emits_run [OF FlushEtcdContent_bound [of ?A] run2]) auto
        obtain n3 where n3: "t3 = t2 @ n3" "set n3 \<subseteq> ?A"
          by (rule emits_run [OF bootState_bound [of ?A] 2(1)]) auto
        from n1 n2 t(1) have "prefix tr t" by (auto elim!: prefixE)
        moreover from A n1 n2 n3 have "?c \<notin> set (drop (length tr) t3)" by auto
        ultimately show ?case using t(2) by blast
      qed simp_all
    qed (auto intro!: emits_intro)
  qed (auto intro!: emits_intro)
qed

end
