(* ===== verification/Triple.thy ===== *)
theory Triple
  imports Etcd
begin

text \<open>
  \<^verbatim>\<open>pkg/operator/heal/infra.go\<close> and \<^verbatim>\<open>pkg/operator/heal/triple.go\<close>: the three views of the control plane
  or of a node pool (cloud instances, \<^verbatim>\<open>Master\<close> resources, \<^verbatim>\<open>Node\<close> objects) joined into a list of
  \<^verbatim>\<open>NodeInfo\<close>, and the differences computed from that list. \<^verbatim>\<open>NewTripleMaster\<close> copies the loop
  variables before it takes their address, so its infos are plain values; \<^verbatim>\<open>NewTripleWorker\<close>
  takes the address of the loop variables themselves, which in the Go version of the module
  (1.16) are one cell per loop, so its model has an explicit heap.
\<close>

section \<open>Infrastructure\<close>

record InfraManager =
  im_spec :: Cluster
  im_stack :: "(string \<times> Value) list"

definition NewInfraManager :: "env \<Rightarrow> Cluster \<Rightarrow> (gerr + InfraManager) eff" where
  "NewInfraManager E cluster =
     andThen (if bi_ResourceId (cs_Bind (cl_Spec cluster)) = []
       then andThen (perform (PGetStackOutPuts (cs_ClusterID (cl_Spec cluster)))
              (\<lambda>tr. e_stack_outputs E tr (cs_ClusterID (cl_Spec cluster)))) (\<lambda>r. case r of
            Inl e \<Rightarrow> ret (Inl (Wrap e ''provider: list resource''))
          | Inr resource \<Rightarrow> andThen (assert_string (stack_val resource StackID))
              (\<lambda>i. ret (Inr (cluster\<lparr>cl_Spec := set_resource_id (cl_Spec cluster) i\<rparr>))))
       else ret (Inr cluster)) (\<lambda>r. case r of
         Inl e \<Rightarrow> ret (Inl e)
       | Inr spec \<Rightarrow> andThen (LoadStack E spec) (\<lambda>(spec, r). case r of
           Inl e \<Rightarrow> ret (Inl e)
         | Inr stack \<Rightarrow> ret (Inr \<lparr>im_spec = spec, im_stack = stack\<rparr>)))"

type_synonym instances = "(string \<times> Instance) list"

definition ScalingGroupDetail :: "env \<Rightarrow> string \<Rightarrow> (gerr + instances) eff" where
  "ScalingGroupDetail E gid =
     perform (PScalingGroupDetail gid ActionInstanceIDS) (\<lambda>tr. e_scaling_group E tr gid)"

definition ControlPlaneECS :: "env \<Rightarrow> InfraManager \<Rightarrow> (gerr + instances) eff" where
  "ControlPlaneECS E i = andThen (ScalingGroupDetail E []) (\<lambda>r. case r of
     Inl e \<Rightarrow> ret (Inl (Errorf (''scaling group: '' @ err_msg e)))
   | Inr detail \<Rightarrow> ret (Inr detail))"

definition NodePoolECS :: "env \<Rightarrow> InfraManager \<Rightarrow> NodePool \<Rightarrow> (gerr + instances) eff" where
  "NodePoolECS E i nps = (case inf_Bind (nps_Infra (np_Spec nps)) of
     None \<Rightarrow> ret (Inr [])
   | Some bind \<Rightarrow> andThen (ScalingGroupDetail E (bind_ScalingGroupId bind)) (\<lambda>r. case r of
       Inl e \<Rightarrow> ret (Inl (Wrap e (''group '' @ bind_ScalingGroupId bind @ '' detail'')))
     | Inr detail \<Rightarrow> ret (Inr detail)))"

section \<open>The getter\<close>

text \<open>The Go interface \<^verbatim>\<open>TripleGetter\<close> as a record of operations, and its implementation.\<close>

record TripleGetter =
  GetClusterItem :: "(gerr + Cluster) eff"
  GetMasterNodeList :: "(gerr + Node list) eff"
  GetWorkerNodeList :: "NodePool \<Rightarrow> (gerr + Node list) eff"
  GetMasterCR :: "(gerr + Master list) eff"
  GetControlPlaneECS :: "(gerr + instances) eff"
  GetNodePoolECS :: "NodePool \<Rightarrow> (gerr + instances) eff"

definition wTripleGetter :: "env \<Rightarrow> InfraManager \<Rightarrow> TripleGetter" where
  "wTripleGetter E infra = \<lparr>
     GetClusterItem = Cluster_get E KUBERNETES_CLUSTER,
     GetMasterNodeList = MasterNodes E,
     GetWorkerNodeList = NodePoolItems E,
     GetMasterCR = MasterCRDS E,
     GetControlPlaneECS = ControlPlaneECS E infra,
     GetNodePoolECS = NodePoolECS E infra\<rparr>"

section \<open>Node infos\<close>

record NodeInfo =
  ni_Role :: string
  ni_Instance :: "Instance option"
  ni_Node :: "Node option"
  ni_Resource :: "Master option"
  ni_GetName :: "string option"

record Triple =
  tri_role :: string
  tri_cluster :: Cluster
  tri_mCRDs :: "Master list"
  tri_mnodes :: "Node list"
  tri_instances :: "Instance list"
  tri_nodeInfo :: "NodeInfo list"

text \<open>\<^verbatim>\<open>(*NodeInfo).GetNodeName\<close>: the node's name, the name function's answer, or \<^verbatim>\<open>ip.id\<close>.\<close>

definition GetNodeName :: "NodeInfo \<Rightarrow> string eff" where
  "GetNodeName n = (case ni_Node n of
     Some node \<Rightarrow> ret (node_Name node)
   | None \<Rightarrow> (case ni_GetName n of
       Some s \<Rightarrow> ret s
     | None \<Rightarrow> (case ni_Instance n of
         None \<Rightarrow> panic nil_deref
       | Some i \<Rightarrow> ret (ins_Ip i @ ''.'' @ ins_Id i))))"

definition infoString :: "NodeInfo \<Rightarrow> string" where
  "infoString n = ''[NodeINFO]('' @ join '',''
     ((case ni_Instance n of None \<Rightarrow> [] | Some i \<Rightarrow> [''instance='' @ ins_Ip i]) @
      (case ni_Node n of None \<Rightarrow> [] | Some k \<Rightarrow> [''node='' @ node_Name k]) @
      (case ni_Resource n of None \<Rightarrow> [] | Some m \<Rightarrow> [''mcrd='' @ m_Name m]) @
      [ni_Role n]) @ '')''"

definition ToList :: "env \<Rightarrow> instances \<Rightarrow> Instance list eff" where
  "ToList E i = andThen (range_map E i) (\<lambda>l. ret (map snd l))"

definition GetNode :: "Triple \<Rightarrow> string \<Rightarrow> Node option" where
  "GetNode t ident = find (\<lambda>n. contains (node_ProviderID n) ident) (tri_mnodes t)"

definition With :: "Triple \<Rightarrow> Instance list \<Rightarrow> Triple" where
  "With t ins = t\<lparr>tri_instances := ins\<rparr>"

definition BreakID :: "string \<Rightarrow> gerr + (string \<times> string)" where
  "BreakID ident = (let pid = split_on ident ''.''
     in if length pid \<noteq> 2 then Inl (Errorf (''format error: '' @ ident))
        else Inr (pid ! 0, pid ! 1))"

section \<open>The control plane\<close>

definition instanceInfo :: "string \<Rightarrow> Master list \<Rightarrow> Node list \<Rightarrow> Instance \<Rightarrow> NodeInfo" where
  "instanceInfo role mCrds mNodes i = \<lparr>ni_Role = role, ni_Instance = Some i,
     ni_Node = find (\<lambda>n. contains (node_ProviderID n) (ins_Id i)) mNodes,
     ni_Resource = find (\<lambda>m. contains (ms_ID (m_Spec m)) (ins_Id i)) mCrds,
     ni_GetName = None\<rparr>"

definition crdMatches :: "Master \<Rightarrow> NodeInfo \<Rightarrow> bool" where
  "crdMatches k i =
     ((case ni_Instance i of None \<Rightarrow> False | Some x \<Rightarrow> contains (ms_ID (m_Spec k)) (ins_Id x)) \<or>
      (case ni_Node i of None \<Rightarrow> False | Some n \<Rightarrow> contains (node_ProviderID n) (ms_ID (m_Spec k))))"

text \<open>The loop that appends the resources no info accounts for.\<close>

fun extraCRDs :: "string \<Rightarrow> Node list \<Rightarrow> Master list \<Rightarrow> NodeInfo list \<Rightarrow> NodeInfo list" where
  "extraCRDs role mNodes [] infos = infos"
| "extraCRDs role mNodes (k # ks) infos = extraCRDs role mNodes ks
     (if list_ex (crdMatches k) infos then infos
      else infos @ [\<lparr>ni_Role = role, ni_Instance = None,
        ni_Node = find (\<lambda>n. contains (node_ProviderID n) (ms_ID (m_Spec k))) mNodes,
        ni_Resource = Some k, ni_GetName = None\<rparr>])"

definition nodeMatches :: "Node \<Rightarrow> NodeInfo \<Rightarrow> bool" where
  "nodeMatches n i =
     ((case ni_Instance i of None \<Rightarrow> False | Some x \<Rightarrow> contains (node_ProviderID n) (ins_Id x)) \<or>
      (case ni_Resource i of None \<Rightarrow> False | Some k \<Rightarrow> contains (node_ProviderID n) (ms_ID (m_Spec k))))"

text \<open>The loop that appends the nodes no info accounts for; these infos carry no role.\<close>

fun extraNodes :: "Master list \<Rightarrow> Node list \<Rightarrow> NodeInfo list \<Rightarrow> NodeInfo list" where
  "extraNodes mCrds [] infos = infos"
| "extraNodes mCrds (n # ns) infos = extraNodes mCrds ns
     (if list_ex (nodeMatches n) infos then infos
      else infos @ [\<lparr>ni_Role = [], ni_Instance = None, ni_Node = Some n,
        ni_Resource = find (\<lambda>m. contains (node_ProviderID n) (ms_ID (m_Spec m))) mCrds,
        ni_GetName = None\<rparr>])"

definition masterInfos :: "string \<Rightarrow> Master list \<Rightarrow> Node list \<Rightarrow> Instance list \<Rightarrow> NodeInfo list" where
  "masterInfos role mCrds mNodes ds =
     extraNodes mCrds mNodes (extraCRDs role mNodes mCrds (map (instanceInfo role mCrds mNodes) ds))"

definition NewTripleMaster :: "env \<Rightarrow> TripleGetter \<Rightarrow> (gerr + Triple) eff" where
  "NewTripleMaster E getter =
     andThen (GetClusterItem getter) (\<lambda>r. case r of
       Inl e \<Rightarrow> ret (Inl (Wrap e ''get cluster''))
     | Inr spec \<Rightarrow> andThen (GetMasterCR getter) (\<lambda>r. case r of
       Inl e \<Rightarrow> ret (Inl (Wrap e ''get master''))
     | Inr mCrds \<Rightarrow> andThen (GetMasterNodeList getter) (\<lambda>r. case r of
       Inl e \<Rightarrow> ret (Inl (Wrap e ''master node''))
     | Inr mNodes \<Rightarrow> andThen (GetControlPlaneECS getter) (\<lambda>r. case r of
       Inl e \<Rightarrow> ret (Inl (Wrap e ''ess master''))
     | Inr detail \<Rightarrow> andThen (ToList E detail) (\<lambda>instances.
       andThen (range_map E detail) (\<lambda>ds.
         ret (Inr \<lparr>tri_role = JoinMasterUserdata, tri_cluster = spec, tri_mCRDs = mCrds,
           tri_mnodes = mNodes, tri_instances = instances,
           tri_nodeInfo = masterInfos JoinMasterUserdata mCrds mNodes (map snd ds)\<rparr>)))))))"

section \<open>Node pools\<close>

text \<open>
  The heap: one list of cells for instances and one for nodes, addressed by position.
  An info of the loop holds addresses.
\<close>

record heap =
  hp_ins :: "Instance list"
  hp_node :: "Node list"

record pinfo =
  pi_Instance :: "nat option"
  pi_Node :: "nat option"

text \<open>
  The inner loop of the first pass: a new cell holds the loop variable \<open>n\<close>, which keeps the
  value it had at the \<^verbatim>\<open>break\<close>.
\<close>

fun matchNode :: "nat \<Rightarrow> string \<Rightarrow> Node list \<Rightarrow> heap \<Rightarrow> nat option \<times> heap" where
  "matchNode a ident [] h = (None, h)"
| "matchNode a ident (n # ns) h =
     (let h' = h\<lparr>hp_node := (hp_node h)[a := n]\<rparr>
      in if contains (node_ProviderID n) ident then (Some a, h') else matchNode a ident ns h')"

text \<open>The first pass: cell \<open>dc\<close> holds the loop variable \<open>d\<close> during the whole loop.\<close>

fun workerPass :: "nat \<Rightarrow> Node list \<Rightarrow> Instance list \<Rightarrow> pinfo list \<Rightarrow> heap \<Rightarrow> pinfo list \<times> heap" where
  "workerPass dc mNodes [] infos h = (infos, h)"
| "workerPass dc mNodes (d # ds) infos h =
     (let h1 = h\<lparr>hp_ins := (hp_ins h)[dc := d]\<rparr>;
          a = length (hp_node h1);
          h2 = (case mNodes of [] \<Rightarrow> h1 | n # _ \<Rightarrow> h1\<lparr>hp_node := hp_node h1 @ [n]\<rparr>);
          (p, h3) = matchNode a (ins_Id d) mNodes h2
      in workerPass dc mNodes ds (infos @ [\<lparr>pi_Instance = Some dc, pi_Node = p\<rparr>]) h3)"

text \<open>The second pass: cell \<open>nc\<close> holds the loop variable \<open>n\<close> during the whole loop.\<close>

definition instanceAt :: "heap \<Rightarrow> Node \<Rightarrow> pinfo \<Rightarrow> bool" where
  "instanceAt h n i = (case pi_Instance i of
     None \<Rightarrow> False
   | Some a \<Rightarrow> contains (node_ProviderID n) (ins_Id (hp_ins h ! a)))"

fun workerExtra :: "nat \<Rightarrow> Node list \<Rightarrow> pinfo list \<Rightarrow> heap \<Rightarrow> pinfo list \<times> heap" where
  "workerExtra nc [] infos h = (infos, h)"
| "workerExtra nc (n # ns) infos h =
     (let h' = h\<lparr>hp_node := (hp_node h)[nc := n]\<rparr>
      in workerExtra nc ns
           (if list_ex (instanceAt h' n) infos then infos
            else infos @ [\<lparr>pi_Instance = None, pi_Node = Some nc\<rparr>]) h')"

definition derefInfo :: "string \<Rightarrow> heap \<Rightarrow> pinfo \<Rightarrow> NodeInfo" where
  "derefInfo role h i = \<lparr>ni_Role = role,
     ni_Instance = map_option (\<lambda>a. hp_ins h ! a) (pi_Instance i),
     ni_Node = map_option (\<lambda>a. hp_node h ! a) (pi_Node i), ni_Resource = None, ni_GetName = None\<rparr>"

text \<open>Both passes; what the infos point to is read when the function returns.\<close>

definition workerInfos :: "string \<Rightarrow> Node list \<Rightarrow> Instance list \<Rightarrow> NodeInfo list" where
  "workerInfos role mNodes ds =
     (let h0 = \<lparr>hp_ins = (case ds of [] \<Rightarrow> [] | d # _ \<Rightarrow> [d]), hp_node = []\<rparr>;
          (infos, h1) = workerPass 0 mNodes ds [] h0;
          nc = length (hp_node h1);
          h2 = (case mNodes of [] \<Rightarrow> h1 | n # _ \<Rightarrow> h1\<lparr>hp_node := hp_node h1 @ [n]\<rparr>);
          (infos, h3) = workerExtra nc mNodes infos h2
      in map (derefInfo role h3) infos)"

definition NewTripleWorker :: "env \<Rightarrow> TripleGetter \<Rightarrow> NodePool \<Rightarrow> (gerr + Triple) eff" where
  "NewTripleWorker E getter np =
     andThen (GetClusterItem getter) (\<lambda>r. case r of
       Inl e \<Rightarrow> ret (Inl (Wrap e ''get cluster''))
     | Inr spec \<Rightarrow> andThen (GetWorkerNodeList getter np) (\<lambda>r. case r of
       Inl e \<Rightarrow> ret (Inl (Wrap e ''master node''))
     | Inr mNodes \<Rightarrow> andThen (GetNodePoolECS getter np) (\<lambda>r. case r of
       Inl e \<Rightarrow> ret (Inl (Wrap e ''ess master''))
     | Inr detail \<Rightarrow> andThen (ToList E detail) (\<lambda>instances.
       andThen (range_map E detail) (\<lambda>ds.
         ret (Inr \<lparr>tri_role = WorkerUserdata, tri_cluster = spec, tri_mCRDs = [],
           tri_mnodes = mNodes, tri_instances = instances,
           tri_nodeInfo = workerInfos WorkerUserdata mNodes (map snd ds)\<rparr>))))))"

section \<open>Differences\<close>

definition UnReadyNodeList :: "Triple \<Rightarrow> NodeInfo list" where
  "UnReadyNodeList t = filter (\<lambda>n. case ni_Node n of
     None \<Rightarrow> False
   | Some node \<Rightarrow> ni_Instance n \<noteq> None \<and> \<not> NodeReady node) (tri_nodeInfo t)"

definition EtcdMemDiff :: "Triple \<Rightarrow> Member list \<Rightarrow> Member list" where
  "EtcdMemDiff t mems =
     (let deletions = filter (\<lambda>m. \<not> list_ex (\<lambda>e. mem_IP m = ins_Ip e) (tri_instances t)) mems
      in if 2 * float32 (length deletions) > float32 (length mems) then [] else deletions)"

definition InstanceCRDiff :: "Triple \<Rightarrow> NodeInfo list \<times> NodeInfo list" where
  "InstanceCRDiff t =
     (filter (\<lambda>i. ni_Instance i \<noteq> None \<and> ni_Resource i = None) (tri_nodeInfo t),
      filter (\<lambda>i. ni_Instance i = None \<and> ni_Resource i \<noteq> None) (tri_nodeInfo t))"

definition InstanceNodeDiff :: "Triple \<Rightarrow> NodeInfo list \<times> NodeInfo list" where
  "InstanceNodeDiff t =
     (filter (\<lambda>i. ni_Instance i \<noteq> None \<and> ni_Node i = None) (tri_nodeInfo t),
      filter (\<lambda>i. ni_Instance i = None \<and> ni_Node i \<noteq> None) (tri_nodeInfo t))"

definition MasterCRDDiff :: "Triple \<Rightarrow> NodeInfo list \<times> NodeInfo list" where
  "MasterCRDDiff t =
     (filter (\<lambda>i. ni_Resource i \<noteq> None \<and> ni_Instance i = None) (tri_nodeInfo t),
      filter (\<lambda>i. ni_Resource i = None \<and> ni_Node i \<noteq> None \<and> ni_Instance i \<noteq> None)
        (tri_nodeInfo t))"

definition SystemInConsistency :: "Triple \<Rightarrow> bool" where
  "SystemInConsistency t =
     (let uready = UnReadyNodeList t; (uiadd, uidel) = InstanceCRDiff t;
          (ucadd, ucdel) = InstanceNodeDiff t; (umadd, umdel) = MasterCRDDiff t
      in length uready + length uiadd + length uidel + length ucadd + length ucdel +
         length umadd + length umdel = 0)"

section \<open>The contract of a getter\<close>

text \<open>
  What \<^verbatim>\<open>NewTripleMaster\<close> and \<^verbatim>\<open>NewTripleWorker\<close> rely on: a getter only reads.
\<close>

locale triple_getter =
  fixes g :: TripleGetter
  assumes cluster_reads: "emits reads (GetClusterItem g)"
    and master_nodes_reads: "emits reads (GetMasterNodeList g)"
    and worker_nodes_reads: "emits reads (GetWorkerNodeList g np)"
    and master_cr_reads: "emits reads (GetMasterCR g)"
    and control_plane_reads: "emits reads (GetControlPlaneECS g)"
    and node_pool_reads: "emits reads (GetNodePoolECS g np)"
begin

lemmas getter_reads = cluster_reads master_nodes_reads worker_nodes_reads master_cr_reads
  control_plane_reads node_pool_reads

lemma NewTripleMaster_reads: "emits reads (NewTripleMaster E g)"
  unfolding NewTripleMaster_def ToList_def by (intro emits_intro getter_reads) auto

lemma NewTripleWorker_reads: "emits reads (NewTripleWorker E g np)"
  unfolding NewTripleWorker_def ToList_def by (intro emits_intro getter_reads) auto

end

lemma ScalingGroupDetail_reads [emits_intro]: "reads \<subseteq> A \<Longrightarrow> emits A (ScalingGroupDetail E gid)"
  unfolding ScalingGroupDetail_def by (intro emits_intro) auto

interpretation wget: triple_getter "wTripleGetter E infra" for E infra
  by unfold_locales
    (auto simp: wTripleGetter_def ControlPlaneECS_def NodePoolECS_def intro!: emits_intro)

lemma NewTripleMaster_emits [emits_intro]:
  "reads \<subseteq> A \<Longrightarrow> emits A (NewTripleMaster E (wTripleGetter E' infra))"
  by (rule emits_reads [OF wget.NewTripleMaster_reads])

lemma NewTripleWorker_emits [emits_intro]:
  "reads \<subseteq> A \<Longrightarrow> emits A (NewTripleWorker E (wTripleGetter E' infra) np)"
  by (rule emits_reads [OF wget.NewTripleWorker_reads])

lemma NodePoolECS_reads [emits_intro]: "reads \<subseteq> A \<Longrightarrow> emits A (NodePoolECS E infra np)"
  unfolding NodePoolECS_def by (intro emits_intro)

lemma GetNodeName_emits [emits_intro]: "emits A (GetNodeName n)"
  unfolding GetNodeName_def by (intro emits_intro)

section \<open>Lemmas on the joined list\<close>

lemma find_Some_iff: "find P xs = Some x \<Longrightarrow> x \<in> set xs \<and> P x"
  by (induction xs) (auto split: if_splits)

lemma find_None: "find P xs = None \<longleftrightarrow> (\<forall>x\<in>set xs. \<not> P x)"
  by (induction xs) auto

text \<open>The infos the two appending loops add.\<close>

definition crd_extra :: "Node list \<Rightarrow> Master list \<Rightarrow> NodeInfo list \<Rightarrow> NodeInfo \<Rightarrow> bool" where
  "crd_extra ns ks infos i \<longleftrightarrow> ni_Instance i = None \<and> (\<exists>k\<in>set ks. ni_Resource i = Some k \<and>
     ni_Node i = find (\<lambda>n. contains (node_ProviderID n) (ms_ID (m_Spec k))) ns \<and>
     \<not> list_ex (crdMatches k) infos)"

definition node_extra :: "Master list \<Rightarrow> Node list \<Rightarrow> NodeInfo list \<Rightarrow> NodeInfo \<Rightarrow> bool" where
  "node_extra ks ns infos i \<longleftrightarrow> ni_Instance i = None \<and> (\<exists>n\<in>set ns. ni_Node i = Some n \<and>
     ni_Resource i = find (\<lambda>m. contains (node_ProviderID n) (ms_ID (m_Spec m))) ks \<and>
     \<not> list_ex (nodeMatches n) infos)"

lemma extraCRDs_append:
  "\<exists>ex. extraCRDs role ns ks infos = infos @ ex \<and> (\<forall>i\<in>set ex. crd_extra ns ks infos i)"
proof (induction ks arbitrary: infos)
  case Nil
  show ?case by simp
next
  case (Cons k ks)
  show ?case
  proof (cases "list_ex (crdMatches k) infos")
    case True
    from Cons.IH [of infos] obtain ex where "extraCRDs role ns ks infos = infos @ ex"
      "\<forall>i\<in>set ex. crd_extra ns ks infos i" by blast
    with True show ?thesis by (auto simp: crd_extra_def)
  next
    case False
    let ?i = "\<lparr>ni_Role = role, ni_Instance = None,
      ni_Node = find (\<lambda>n. contains (node_ProviderID n) (ms_ID (m_Spec k))) ns,
      ni_Resource = Some k, ni_GetName = None\<rparr>"
    from Cons.IH [of "infos @ [?i]"] obtain ex where
      "extraCRDs role ns ks (infos @ [?i]) = (infos @ [?i]) @ ex"
      "\<forall>i\<in>set ex. crd_extra ns ks (infos @ [?i]) i" by blast
    with False show ?thesis by (intro exI [of _ "?i # ex"]) (auto simp: crd_extra_def)
  qed
qed

lemma extraNodes_append:
  "\<exists>ex. extraNodes ks ns infos = infos @ ex \<and> (\<forall>i\<in>set ex. node_extra ks ns infos i)"
proof (induction ns arbitrary: infos)
  case Nil
  show ?case by simp
next
  case (Cons n ns)
  show ?case
  proof (cases "list_ex (nodeMatches n) infos")
    case True
    from Cons.IH [of infos] obtain ex where "extraNodes ks ns infos = infos @ ex"
      "\<forall>i\<in>set ex. node_extra ks ns infos i" by blast
    with True show ?thesis by (auto simp: node_extra_def)
  next
    case False
    let ?i = "\<lparr>ni_Role = [], ni_Instance = None, ni_Node = Some n,
      ni_Resource = find (\<lambda>m. contains (node_ProviderID n) (ms_ID (m_Spec m))) ks,
      ni_GetName = None\<rparr>"
    from Cons.IH [of "infos @ [?i]"] obtain ex where
      "extraNodes ks ns (infos @ [?i]) = (infos @ [?i]) @ ex"
      "\<forall>i\<in>set ex. node_extra ks ns (infos @ [?i]) i" by blast
    with False show ?thesis by (intro exI [of _ "?i # ex"]) (auto simp: node_extra_def)
  qed
qed

text \<open>When the loops add nothing.\<close>

lemma extraCRDs_same: "extraCRDs role ns ks infos = infos \<longleftrightarrow> (\<forall>k\<in>set ks. list_ex (crdMatches k) infos)"
proof (induction ks arbitrary: infos)
  case (Cons k ks)
  show ?case
  proof (cases "list_ex (crdMatches k) infos")
    case False
    let ?i = "\<lparr>ni_Role = role, ni_Instance = None,
        ni_Node = find (\<lambda>n. contains (node_ProviderID n) (ms_ID (m_Spec k))) ns,
        ni_Resource = Some k, ni_GetName = None\<rparr>"
    obtain ex where "extraCRDs role ns ks (infos @ [?i]) = (infos @ [?i]) @ ex"
      using extraCRDs_append [of role ns ks "infos @ [?i]"] by blast
    with False show ?thesis by simp
  qed (simp add: Cons.IH)
qed simp

lemma extraNodes_same: "extraNodes ks ns infos = infos \<longleftrightarrow> (\<forall>n\<in>set ns. list_ex (nodeMatches n) infos)"
proof (induction ns arbitrary: infos)
  case (Cons n ns)
  show ?case
  proof (cases "list_ex (nodeMatches n) infos")
    case False
    let ?i = "\<lparr>ni_Role = [], ni_Instance = None, ni_Node = Some n,
        ni_Resource = find (\<lambda>m. contains (node_ProviderID n) (ms_ID (m_Spec m))) ks,
        ni_GetName = None\<rparr>"
    obtain ex where "extraNodes ks ns (infos @ [?i]) = (infos @ [?i]) @ ex"
      using extraNodes_append [of ks ns "infos @ [?i]"] by blast
    with False show ?thesis by simp
  qed (simp add: Cons.IH)
qed simp

text \<open>The three parts of the joined list.\<close>

lemma masterInfos_parts:
  obtains ex1 ex2 where
    "masterInfos role ks ns ds = map (instanceInfo role ks ns) ds @ ex1 @ ex2"
    "extraCRDs role ns ks (map (instanceInfo role ks ns) ds) = map (instanceInfo role ks ns) ds @ ex1"
    "\<forall>i\<in>set ex1. crd_extra ns ks (map (instanceInfo role ks ns) ds) i"
    "\<forall>i\<in>set ex2. node_extra ks ns (map (instanceInfo role ks ns) ds @ ex1) i"
  using extraCRDs_append [of role ns ks "map (instanceInfo role ks ns) ds"]
    extraNodes_append [of ks ns "extraCRDs role ns ks (map (instanceInfo role ks ns) ds)"]
  unfolding masterInfos_def by (metis append.assoc)

lemma instanceInfo_sel [simp]:
  "ni_Instance (instanceInfo role ks ns d) = Some d"
  "ni_Node (instanceInfo role ks ns d) = find (\<lambda>n. contains (node_ProviderID n) (ins_Id d)) ns"
  "ni_Resource (instanceInfo role ks ns d) = find (\<lambda>m. contains (ms_ID (m_Spec m)) (ins_Id d)) ks"
  by (simp_all add: instanceInfo_def)

lemma instance_crdMatches:
  "d \<in> set ds \<Longrightarrow> contains (ms_ID (m_Spec k)) (ins_Id d) \<Longrightarrow>
   list_ex (crdMatches k) (map (instanceInfo role ks ns) ds @ ex)"
  unfolding list_ex_iff by (rule bexI [of _ "instanceInfo role ks ns d"]) (auto simp: crdMatches_def)

lemma node_crdMatches:
  "d \<in> set ds \<Longrightarrow> find (\<lambda>n. contains (node_ProviderID n) (ins_Id d)) ns = Some n \<Longrightarrow>
   contains (node_ProviderID n) (ms_ID (m_Spec k)) \<Longrightarrow>
   list_ex (crdMatches k) (map (instanceInfo role ks ns) ds @ ex)"
  unfolding list_ex_iff by (rule bexI [of _ "instanceInfo role ks ns d"]) (auto simp: crdMatches_def)

lemma instance_nodeMatches:
  "d \<in> set ds \<Longrightarrow> contains (node_ProviderID n) (ins_Id d) \<Longrightarrow>
   list_ex (nodeMatches n) (map (instanceInfo role ks ns) ds @ ex)"
  unfolding list_ex_iff by (rule bexI [of _ "instanceInfo role ks ns d"]) (auto simp: nodeMatches_def)

text \<open>What all seven difference lists being empty means.\<close>

lemma SystemInConsistency_iff:
  "SystemInConsistency t \<longleftrightarrow> (\<forall>i\<in>set (tri_nodeInfo t).
     (ni_Instance i = None \<longleftrightarrow> ni_Resource i = None) \<and> (ni_Instance i = None \<longleftrightarrow> ni_Node i = None) \<and>
     (\<forall>n. ni_Node i = Some n \<longrightarrow> NodeReady n))"
  unfolding SystemInConsistency_def UnReadyNodeList_def InstanceCRDiff_def InstanceNodeDiff_def
    MasterCRDDiff_def Let_def
  by (auto simp: filter_empty_conv split: option.splits) (metis option.distinct(1) option.exhaust)+

subsection \<open>Infos without an instance\<close>

lemma orphan_crd_no_instance:
  assumes i: "i \<in> set (masterInfos role ks ns ds)" "ni_Resource i = Some k" "ni_Instance i = None"
    and d: "d \<in> set ds"
  shows "\<not> contains (ms_ID (m_Spec k)) (ins_Id d)"
proof -
  obtain ex1 ex2 where parts: "masterInfos role ks ns ds = map (instanceInfo role ks ns) ds @ ex1 @ ex2"
    "\<forall>i\<in>set ex1. crd_extra ns ks (map (instanceInfo role ks ns) ds) i"
    "\<forall>i\<in>set ex2. node_extra ks ns (map (instanceInfo role ks ns) ds @ ex1) i"
    by (rule masterInfos_parts)
  from i parts(1) consider "i \<in> set ex1" | "i \<in> set ex2" by auto
  then show ?thesis
  proof cases
    case 1
    with parts(2) i(2) have "\<not> list_ex (crdMatches k) (map (instanceInfo role ks ns) ds)"
      by (auto simp: crd_extra_def)
    with instance_crdMatches [OF d, where ex = "[]"] show ?thesis by auto
  next
    case 2
    with parts(3) have "node_extra ks ns (map (instanceInfo role ks ns) ds @ ex1) i" by blast
    with i(2) obtain n where
      f: "find (\<lambda>m. contains (node_ProviderID n) (ms_ID (m_Spec m))) ks = Some k"
      and n2: "\<not> list_ex (nodeMatches n) (map (instanceInfo role ks ns) ds @ ex1)"
      unfolding node_extra_def by metis
    note n = conjunct2 [OF find_Some_iff [OF f]] n2
    from n(2) instance_nodeMatches [OF d] have "\<not> contains (node_ProviderID n) (ins_Id d)"
      by blast
    with n(1) contains_trans show ?thesis by blast
  qed
qed

lemma orphan_node_no_instance:
  assumes i: "i \<in> set (masterInfos role ks ns ds)" "ni_Node i = Some n" "ni_Instance i = None"
    and d: "d \<in> set ds"
    and one: "\<And>n n'. n \<in> set ns \<Longrightarrow> n' \<in> set ns \<Longrightarrow> contains (node_ProviderID n) (ins_Id d) \<Longrightarrow>
      contains (node_ProviderID n') (ins_Id d) \<Longrightarrow> n = n'"
  shows "\<not> contains (node_ProviderID n) (ins_Id d)"
proof -
  obtain ex1 ex2 where parts: "masterInfos role ks ns ds = map (instanceInfo role ks ns) ds @ ex1 @ ex2"
    "\<forall>i\<in>set ex1. crd_extra ns ks (map (instanceInfo role ks ns) ds) i"
    "\<forall>i\<in>set ex2. node_extra ks ns (map (instanceInfo role ks ns) ds @ ex1) i"
    by (rule masterInfos_parts)
  from i parts(1) consider "i \<in> set ex1" | "i \<in> set ex2" by auto
  then show ?thesis
  proof cases
    case 1
    with parts(2) have "crd_extra ns ks (map (instanceInfo role ks ns) ds) i" by blast
    with i(2) obtain k where
      f: "find (\<lambda>n. contains (node_ProviderID n) (ms_ID (m_Spec k))) ns = Some n"
      and k3: "\<not> list_ex (crdMatches k) (map (instanceInfo role ks ns) ds)"
      unfolding crd_extra_def by metis
    note k = conjunct1 [OF find_Some_iff [OF f]] conjunct2 [OF find_Some_iff [OF f]] k3
    show ?thesis
    proof
      assume c: "contains (node_ProviderID n) (ins_Id d)"
      with k(1) obtain n' where f: "find (\<lambda>n. contains (node_ProviderID n) (ins_Id d)) ns = Some n'"
        by (cases "find (\<lambda>n. contains (node_ProviderID n) (ins_Id d)) ns") (auto simp: find_None)
      with find_Some_iff [OF f] one k(1) c have "n' = n" by auto
      with f k(2) k(3) node_crdMatches [OF d, where ex = "[]"] show False by auto
    qed
  next
    case 2
    with parts(3) i(2) have "\<not> list_ex (nodeMatches n) (map (instanceInfo role ks ns) ds @ ex1)"
      by (auto simp: node_extra_def)
    with instance_nodeMatches [OF d] show ?thesis by blast
  qed
qed

subsection \<open>Provider ids\<close>

text \<open>
  The format the sources document for the ids of resources and nodes: \<^verbatim>\<open>region.instanceid\<close>, with
  instance ids of one length, longer than the region name, and no dot in either.
\<close>

definition provider_id :: "string \<Rightarrow> nat \<Rightarrow> string \<Rightarrow> bool" where
  "provider_id r l s \<longleftrightarrow> (\<exists>c. s = r @ ''.'' @ c \<and> length c = l \<and> CHR ''.'' \<notin> set c)"

definition wf_ids :: "string \<Rightarrow> nat \<Rightarrow> Instance list \<Rightarrow> Master list \<Rightarrow> Node list \<Rightarrow> bool" where
  "wf_ids r l ds ks ns \<longleftrightarrow> CHR ''.'' \<notin> set r \<and> length r < l \<and>
     (\<forall>d\<in>set ds. length (ins_Id d) = l \<and> CHR ''.'' \<notin> set (ins_Id d)) \<and>
     (\<forall>k\<in>set ks. provider_id r l (ms_ID (m_Spec k))) \<and>
     (\<forall>n\<in>set ns. provider_id r l (node_ProviderID n)) \<and>
     distinct (map node_ProviderID ns)"

lemma contains_provider:
  assumes "CHR ''.'' \<notin> set d" "length d = l" "length c = l" "length r < l"
  shows "contains (r @ ''.'' @ c) d \<longleftrightarrow> c = d"
proof
  assume "contains (r @ ''.'' @ c) d"
  then obtain ps ss where eq: "r @ ''.'' @ c = ps @ d @ ss" unfolding contains_iff by blast
  from arg_cong [OF eq, of length] assms have len: "length ps + length ss = length r + 1" by simp
  show "c = d"
  proof (cases "length ps \<le> length r")
    case True
    have "(r @ ''.'' @ c) ! length r = CHR ''.''" by simp
    with eq have "(ps @ d @ ss) ! length r = CHR ''.''" by simp
    with True assms have "d ! (length r - length ps) = CHR ''.''"
      by (simp add: nth_append not_less split: if_splits)
    moreover have "length r - length ps < length d" using assms by simp
    ultimately have "CHR ''.'' \<in> set d" by (metis nth_mem)
    with assms(1) show ?thesis by simp
  next
    case False
    with len have "length ps = length r + 1" "length ss = 0" by linarith+
    then have "length ps = length r + 1" "ss = []" by simp_all
    with eq have "drop (length r + 1) (r @ ''.'' @ c) = drop (length ps) (ps @ d @ ss)" by simp
    with \<open>ss = []\<close> show ?thesis by simp
  qed
qed (use contains_suffix [of "r @ ''.''" d] in simp)

lemma contains_same_length: "length a = length b \<Longrightarrow> contains a b \<longleftrightarrow> a = b"
  unfolding contains_iff by (auto intro: exI [of _ "[]"])

text \<open>The instance id in a provider id.\<close>

definition id_part :: "string \<Rightarrow> string \<Rightarrow> string" where
  "id_part r s = drop (length r + 1) s"

lemma wf_ids_match:
  assumes "wf_ids r l ds ks ns"
  shows "k \<in> set ks \<Longrightarrow> d \<in> set ds \<Longrightarrow>
      contains (ms_ID (m_Spec k)) (ins_Id d) \<longleftrightarrow> id_part r (ms_ID (m_Spec k)) = ins_Id d"
    and "n \<in> set ns \<Longrightarrow> d \<in> set ds \<Longrightarrow>
      contains (node_ProviderID n) (ins_Id d) \<longleftrightarrow> id_part r (node_ProviderID n) = ins_Id d"
    and "n \<in> set ns \<Longrightarrow> k \<in> set ks \<Longrightarrow> contains (node_ProviderID n) (ms_ID (m_Spec k)) \<longleftrightarrow>
      id_part r (node_ProviderID n) = id_part r (ms_ID (m_Spec k))"
proof -
  assume "k \<in> set ks" "d \<in> set ds"
  with assms obtain c where c: "ms_ID (m_Spec k) = r @ ''.'' @ c" "length c = l" "length r < l"
    "length (ins_Id d) = l" "CHR ''.'' \<notin> set (ins_Id d)"
    unfolding wf_ids_def provider_id_def by blast
  then show "contains (ms_ID (m_Spec k)) (ins_Id d) \<longleftrightarrow> id_part r (ms_ID (m_Spec k)) = ins_Id d"
    using contains_provider [of "ins_Id d" l c r] by (simp add: id_part_def)
next
  assume "n \<in> set ns" "d \<in> set ds"
  with assms obtain c where c: "node_ProviderID n = r @ ''.'' @ c" "length c = l" "length r < l"
    "length (ins_Id d) = l" "CHR ''.'' \<notin> set (ins_Id d)"
    unfolding wf_ids_def provider_id_def by blast
  then show "contains (node_ProviderID n) (ins_Id d) \<longleftrightarrow> id_part r (node_ProviderID n) = ins_Id d"
    using contains_provider [of "ins_Id d" l c r] by (simp add: id_part_def)
next
  assume "n \<in> set ns" "k \<in> set ks"
  with assms obtain c c' where "node_ProviderID n = r @ ''.'' @ c" "length c = l"
    "ms_ID (m_Spec k) = r @ ''.'' @ c'" "length c' = l"
    unfolding wf_ids_def provider_id_def by blast
  then show "contains (node_ProviderID n) (ms_ID (m_Spec k)) \<longleftrightarrow>
      id_part r (node_ProviderID n) = id_part r (ms_ID (m_Spec k))"
    by (simp add: id_part_def contains_same_length)
qed

lemma wf_ids_node_eq:
  assumes "wf_ids r l ds ks ns" "n \<in> set ns" "n' \<in> set ns"
    "id_part r (node_ProviderID n) = id_part r (node_ProviderID n')"
  shows "n = n'"
proof -
  from assms(1-3) obtain c c' where "node_ProviderID n = r @ ''.'' @ c"
    "node_ProviderID n' = r @ ''.'' @ c'"
    unfolding wf_ids_def provider_id_def by blast
  with assms(4) have "node_ProviderID n = node_ProviderID n'" by (simp add: id_part_def)
  with assms show ?thesis by (auto simp: wf_ids_def distinct_map dest: inj_onD)
qed

subsection \<open>Consistency\<close>

text \<open>Consistency of a joined list, before ids are known to be well formed.\<close>

lemma consistent_masterInfos:
  assumes "tri_nodeInfo t = masterInfos role ks ns ds"
  shows "SystemInConsistency t \<longleftrightarrow>
    (\<forall>d\<in>set ds. \<exists>k\<in>set ks. contains (ms_ID (m_Spec k)) (ins_Id d)) \<and>
    (\<forall>d\<in>set ds. \<exists>n. find (\<lambda>n. contains (node_ProviderID n) (ins_Id d)) ns = Some n \<and> NodeReady n) \<and>
    (\<forall>k\<in>set ks. list_ex (crdMatches k) (map (instanceInfo role ks ns) ds)) \<and>
    (\<forall>n\<in>set ns. list_ex (nodeMatches n) (map (instanceInfo role ks ns) ds))" (is "_ \<longleftrightarrow> ?R")
proof -
  obtain ex1 ex2 where parts: "masterInfos role ks ns ds = map (instanceInfo role ks ns) ds @ ex1 @ ex2"
    "extraCRDs role ns ks (map (instanceInfo role ks ns) ds) = map (instanceInfo role ks ns) ds @ ex1"
    "\<forall>i\<in>set ex1. crd_extra ns ks (map (instanceInfo role ks ns) ds) i"
    "\<forall>i\<in>set ex2. node_extra ks ns (map (instanceInfo role ks ns) ds @ ex1) i"
    by (rule masterInfos_parts)
  let ?ok = "\<lambda>i. (ni_Instance i = None \<longleftrightarrow> ni_Resource i = None) \<and>
    (ni_Instance i = None \<longleftrightarrow> ni_Node i = None) \<and> (\<forall>n. ni_Node i = Some n \<longrightarrow> NodeReady n)"
  have e1: "(\<forall>i\<in>set ex1. ?ok i) \<longleftrightarrow> ex1 = []"
    using parts(3) by (cases ex1) (auto simp: crd_extra_def)
  have e2: "(\<forall>i\<in>set ex2. ?ok i) \<longleftrightarrow> ex2 = []"
    using parts(4) by (cases ex2) (auto simp: node_extra_def)
  have e3: "ex1 = [] \<longleftrightarrow> (\<forall>k\<in>set ks. list_ex (crdMatches k) (map (instanceInfo role ks ns) ds))"
    using parts(2) extraCRDs_same [of role ns ks "map (instanceInfo role ks ns) ds"] by auto
  have e4: "ex1 = [] \<Longrightarrow> ex2 = [] \<longleftrightarrow>
      (\<forall>n\<in>set ns. list_ex (nodeMatches n) (map (instanceInfo role ks ns) ds))"
    using parts(1,2) extraNodes_same [of ks ns "map (instanceInfo role ks ns) ds"]
    by (auto simp: masterInfos_def)
  have e5: "(\<forall>i\<in>set (map (instanceInfo role ks ns) ds). ?ok i) \<longleftrightarrow>
      (\<forall>d\<in>set ds. \<exists>k\<in>set ks. contains (ms_ID (m_Spec k)) (ins_Id d)) \<and>
      (\<forall>d\<in>set ds. \<exists>n. find (\<lambda>n. contains (node_ProviderID n) (ins_Id d)) ns = Some n \<and> NodeReady n)"
  proof -
    have "?ok (instanceInfo role ks ns d) \<longleftrightarrow>
        (\<exists>k\<in>set ks. contains (ms_ID (m_Spec k)) (ins_Id d)) \<and>
        (\<exists>n. find (\<lambda>n. contains (node_ProviderID n) (ins_Id d)) ns = Some n \<and> NodeReady n)" for d
      by (cases "find (\<lambda>n. contains (node_ProviderID n) (ins_Id d)) ns")
        (auto simp: find_None [of "\<lambda>m. contains (ms_ID (m_Spec m)) (ins_Id d)" ks])
    then show ?thesis by auto
  qed
  have "SystemInConsistency t \<longleftrightarrow> (\<forall>i\<in>set (map (instanceInfo role ks ns) ds). ?ok i) \<and>
      (\<forall>i\<in>set ex1. ?ok i) \<and> (\<forall>i\<in>set ex2. ?ok i)"
    unfolding SystemInConsistency_iff assms parts(1) by (simp only: set_append ball_Un)
  note sys = this [unfolded e1 e2 e5]
  show ?thesis
  proof (cases "ex1 = []")
    case True
    with sys e3 e4 show ?thesis by simp
  next
    case False
    with sys have "\<not> SystemInConsistency t" by simp
    with False e3 show ?thesis by blast
  qed
qed

lemma consistent_wf_ids:
  assumes t: "tri_nodeInfo t = masterInfos role ks ns ds" and wf: "wf_ids r l ds ks ns"
  shows "SystemInConsistency t \<longleftrightarrow>
    id_part r ` ms_ID ` m_Spec ` set ks = ins_Id ` set ds \<and>
    id_part r ` node_ProviderID ` set ns = ins_Id ` set ds \<and> (\<forall>n\<in>set ns. NodeReady n)" (is "_ \<longleftrightarrow> ?R")
proof
  note m = wf_ids_match [OF wf]
  assume "SystemInConsistency t"
  note c = this [unfolded consistent_masterInfos [OF t]]
  have ks: "id_part r (ms_ID (m_Spec k)) \<in> ins_Id ` set ds" if k: "k \<in> set ks" for k
  proof -
    from c k obtain d where d: "d \<in> set ds" "crdMatches k (instanceInfo role ks ns d)"
      by (auto simp: list_ex_iff)
    then show ?thesis
      using k by (auto simp: crdMatches_def m split: option.splits dest!: find_Some_iff)
        (metis image_eqI m(2) m(3))
  qed
  have ns: "\<exists>d\<in>set ds. id_part r (node_ProviderID n) = ins_Id d" if n: "n \<in> set ns" for n
  proof -
    from c n obtain d where d: "d \<in> set ds" "nodeMatches n (instanceInfo role ks ns d)"
      by (auto simp: list_ex_iff)
    then show ?thesis
      using n by (auto simp: nodeMatches_def m split: option.splits dest!: find_Some_iff)
  qed
  show ?R
  proof (intro conjI ballI)
    show "id_part r ` ms_ID ` m_Spec ` set ks = ins_Id ` set ds"
      using ks c m(1) by (auto simp: image_image) (metis (no_types, lifting) image_eqI)
    have "ins_Id d \<in> id_part r ` node_ProviderID ` set ns" if d: "d \<in> set ds" for d
    proof -
      from c d obtain n where "find (\<lambda>n. contains (node_ProviderID n) (ins_Id d)) ns = Some n" by blast
      from find_Some_iff [OF this] m(2) d show ?thesis by (metis image_eqI)
    qed
    with ns show "id_part r ` node_ProviderID ` set ns = ins_Id ` set ds" by blast
    fix n
    assume n: "n \<in> set ns"
    with ns obtain d where d: "d \<in> set ds" "id_part r (node_ProviderID n) = ins_Id d" by blast
    with c obtain n' where f: "find (\<lambda>n. contains (node_ProviderID n) (ins_Id d)) ns = Some n'"
      and "NodeReady n'" by blast
    moreover from find_Some_iff [OF f] d n m(2) have "n' = n"
      by (metis wf_ids_node_eq [OF wf])
    ultimately show "NodeReady n" by simp
  qed
next
  note m = wf_ids_match [OF wf]
  assume R: ?R
  have nodes: "\<exists>n. find (\<lambda>n. contains (node_ProviderID n) (ins_Id d)) ns = Some n \<and> NodeReady n"
    if d: "d \<in> set ds" for d
  proof -
    from R d obtain n where n: "n \<in> set ns" "id_part r (node_ProviderID n) = ins_Id d"
      by (metis (no_types, lifting) image_iff)
    with m(2) d obtain n' where f: "find (\<lambda>n. contains (node_ProviderID n) (ins_Id d)) ns = Some n'"
      by (cases "find (\<lambda>n. contains (node_ProviderID n) (ins_Id d)) ns") (auto simp: find_None)
    with R find_Some_iff [OF f] show ?thesis by blast
  qed
  have crds: "\<exists>k\<in>set ks. contains (ms_ID (m_Spec k)) (ins_Id d)" if d: "d \<in> set ds" for d
  proof -
    from d have "ins_Id d \<in> ins_Id ` set ds" by simp
    with R have "ins_Id d \<in> id_part r ` ms_ID ` m_Spec ` set ks" by metis
    then obtain k where "k \<in> set ks" "id_part r (ms_ID (m_Spec k)) = ins_Id d" by auto
    with m(1) [OF _ d] show ?thesis by auto
  qed
  have "list_ex (crdMatches k) (map (instanceInfo role ks ns) ds)" if k: "k \<in> set ks" for k
  proof -
    from k have "id_part r (ms_ID (m_Spec k)) \<in> id_part r ` ms_ID ` m_Spec ` set ks" by simp
    with R have "id_part r (ms_ID (m_Spec k)) \<in> ins_Id ` set ds" by metis
    then obtain d where d: "d \<in> set ds" "id_part r (ms_ID (m_Spec k)) = ins_Id d" by blast
    with m(1) [OF k d(1)] have "contains (ms_ID (m_Spec k)) (ins_Id d)" by simp
    from instance_crdMatches [OF d(1) this, where ex = "[]"] show ?thesis by simp
  qed
  moreover have "list_ex (nodeMatches n) (map (instanceInfo role ks ns) ds)" if n: "n \<in> set ns" for n
  proof -
    from n have "id_part r (node_ProviderID n) \<in> id_part r ` node_ProviderID ` set ns" by simp
    with R have "id_part r (node_ProviderID n) \<in> ins_Id ` set ds" by metis
    then obtain d where d: "d \<in> set ds" "id_part r (node_ProviderID n) = ins_Id d" by blast
    with m(2) [OF n d(1)] have "contains (node_ProviderID n) (ins_Id d)" by simp
    from instance_nodeMatches [OF d(1) this, where ex = "[]"] show ?thesis by simp
  qed
  ultimately show "SystemInConsistency t"
    unfolding consistent_masterInfos [OF t] using nodes crds by blast
qed

subsection \<open>Worker infos\<close>

lemma matchNode_run:
  assumes "a < length (hp_node h)"
  shows "\<exists>p x. matchNode a ident ns h = (p, h\<lparr>hp_node := (hp_node h)[a := x]\<rparr>) \<and>
    find (\<lambda>n. contains (node_ProviderID n) ident) ns = map_option (\<lambda>_. x) p \<and> p \<in> {None, Some a}"
  using assms
proof (induction ns arbitrary: h)
  case Nil
  then show ?case by (auto intro!: exI [of _ "hp_node h ! a"])
next
  case (Cons n ns)
  show ?case
  proof (cases "contains (node_ProviderID n) ident")
    case True
    then show ?thesis by (auto simp: Let_def)
  next
    case False
    with Cons.IH [of "h\<lparr>hp_node := (hp_node h)[a := n]\<rparr>"] Cons.prems show ?thesis
      by (auto simp: Let_def)
  qed
qed

text \<open>
  The first pass: every info points to the one instance cell, and to a node cell of its own,
  which later iterations leave alone.
\<close>

definition pass_ok :: "nat \<Rightarrow> Node list \<Rightarrow> heap \<Rightarrow> Instance \<Rightarrow> pinfo \<Rightarrow> bool" where
  "pass_ok dc ns h d i \<longleftrightarrow> pi_Instance i = Some dc \<and>
     find (\<lambda>n. contains (node_ProviderID n) (ins_Id d)) ns = map_option ((!) (hp_node h)) (pi_Node i) \<and>
     (\<forall>a. pi_Node i = Some a \<longrightarrow> a < length (hp_node h))"

lemma pass_ok_extend:
  "pass_ok dc ns h d i \<Longrightarrow> hp_node h' = hp_node h @ xs \<Longrightarrow> pass_ok dc ns h' d i"
  by (cases "pi_Node i") (auto simp: pass_ok_def nth_append)

lemma workerPass_run:
  assumes "dc < length (hp_ins h)"
  shows "\<exists>ps xs h'. workerPass dc ns ds infos h = (infos @ ps, h') \<and> hp_node h' = hp_node h @ xs \<and>
    hp_ins h' = (if ds = [] then hp_ins h else (hp_ins h)[dc := last ds]) \<and>
    list_all2 (pass_ok dc ns h') ds ps"
  using assms
proof (induction ds arbitrary: infos h)
  case Nil
  then show ?case by simp
next
  case (Cons d ds)
  let ?h1 = "h\<lparr>hp_ins := (hp_ins h)[dc := d]\<rparr>"
  let ?h2 = "case ns of [] \<Rightarrow> ?h1 | n # _ \<Rightarrow> ?h1\<lparr>hp_node := hp_node ?h1 @ [n]\<rparr>"
  let ?a = "length (hp_node h)"
  obtain p h3 xs where m: "matchNode ?a (ins_Id d) ns ?h2 = (p, h3)" "hp_node h3 = hp_node h @ xs"
    "hp_ins h3 = (hp_ins h)[dc := d]" "pass_ok dc ns h3 d \<lparr>pi_Instance = Some dc, pi_Node = p\<rparr>"
  proof (cases ns)
    case Nil
    then show ?thesis by (intro that [of None ?h1 "[]"]) (auto simp: pass_ok_def)
  next
    case (Cons n ns')
    then have "?a < length (hp_node ?h2)" by simp
    from matchNode_run [OF this, of "ins_Id d" ns] obtain p x where
      "matchNode ?a (ins_Id d) ns ?h2 = (p, ?h2\<lparr>hp_node := (hp_node ?h2)[?a := x]\<rparr>)"
      "find (\<lambda>n. contains (node_ProviderID n) (ins_Id d)) ns = map_option (\<lambda>_. x) p"
      "p \<in> {None, Some ?a}" by blast
    with Cons show ?thesis by (intro that) (auto simp: pass_ok_def)
  qed
  have step: "workerPass dc ns (d # ds) infos h =
      workerPass dc ns ds (infos @ [\<lparr>pi_Instance = Some dc, pi_Node = p\<rparr>]) h3"
    using m(1) by (simp add: Let_def split: list.splits)
  from Cons.prems m(3) have "dc < length (hp_ins h3)" by simp
  from Cons.IH [OF this, of "infos @ [\<lparr>pi_Instance = Some dc, pi_Node = p\<rparr>]"] obtain ps ys h' where
    "workerPass dc ns ds (infos @ [\<lparr>pi_Instance = Some dc, pi_Node = p\<rparr>]) h3 =
      ((infos @ [\<lparr>pi_Instance = Some dc, pi_Node = p\<rparr>]) @ ps, h')" "hp_node h' = hp_node h3 @ ys"
    "hp_ins h' = (if ds = [] then hp_ins h3 else (hp_ins h3)[dc := last ds])"
    "list_all2 (pass_ok dc ns h') ds ps" by blast
  with m step pass_ok_extend [OF m(4)] show ?case
    by (intro exI [of _ "\<lparr>pi_Instance = Some dc, pi_Node = p\<rparr> # ps"] exI [of _ "xs @ ys"]
        exI [of _ h']) (auto simp del: workerPass.simps)
qed

text \<open>The second pass: every info it appends points to the one node cell.\<close>

lemma workerExtra_run:
  assumes "nc < length (hp_node h)"
    and "\<And>i a. i \<in> set infos \<Longrightarrow> pi_Instance i = Some a \<Longrightarrow> hp_ins h ! a = dl"
  shows "workerExtra nc ns infos h =
    (infos @ replicate (length (filter (\<lambda>n. (\<forall>i\<in>set infos. pi_Instance i = None) \<or>
        \<not> contains (node_ProviderID n) (ins_Id dl)) ns)) \<lparr>pi_Instance = None, pi_Node = Some nc\<rparr>,
     if ns = [] then h else h\<lparr>hp_node := (hp_node h)[nc := last ns]\<rparr>)"
  using assms
proof (induction ns arbitrary: infos h)
  case Nil
  then show ?case by simp
next
  case (Cons n ns)
  let ?h = "h\<lparr>hp_node := (hp_node h)[nc := n]\<rparr>"
  let ?p = "\<lparr>pi_Instance = None, pi_Node = Some nc\<rparr>"
  let ?none = "\<forall>i\<in>set infos. pi_Instance i = None"
  have found: "list_ex (instanceAt ?h n) infos \<longleftrightarrow> \<not> (?none \<or> \<not> contains (node_ProviderID n) (ins_Id dl))"
    using Cons.prems(2) by (fastforce simp: list_ex_iff instanceAt_def split: option.splits)
  show ?case
  proof (cases "list_ex (instanceAt ?h n) infos")
    case True
    with found Cons.IH [of ?h infos] Cons.prems show ?thesis by (auto simp: Let_def)
  next
    case False
    have "hp_ins ?h ! a = dl" if "i \<in> set (infos @ [?p])" "pi_Instance i = Some a" for i a
      using that Cons.prems(2) by auto
    note IH = Cons.IH [of ?h "infos @ [?p]", OF _ this]
    from False found IH Cons.prems(1) show ?thesis by (simp add: Let_def)
  qed
qed

lemma workerInfos_closed:
  "workerInfos role ns ds =
     map (\<lambda>d. \<lparr>ni_Role = role, ni_Instance = Some (last ds),
       ni_Node = find (\<lambda>n. contains (node_ProviderID n) (ins_Id d)) ns,
       ni_Resource = None, ni_GetName = None\<rparr>) ds @
     replicate (length (filter (\<lambda>n. ds = [] \<or> \<not> contains (node_ProviderID n) (ins_Id (last ds))) ns))
       \<lparr>ni_Role = role, ni_Instance = None, ni_Node = Some (last ns), ni_Resource = None,
        ni_GetName = None\<rparr>"
proof -
  let ?h0 = "\<lparr>hp_ins = (case ds of [] \<Rightarrow> [] | d # _ \<Rightarrow> [d]), hp_node = []\<rparr>"
  obtain ps xs h1 where w: "workerPass 0 ns ds [] ?h0 = (ps, h1)" "hp_node h1 = xs"
    "hp_ins h1 = (if ds = [] then [] else [last ds])" "list_all2 (pass_ok 0 ns h1) ds ps"
  proof (cases ds)
    case Nil
    then show ?thesis by (intro that [of "[]" ?h0 "[]"]) auto
  next
    case (Cons d ds')
    then have "0 < length (hp_ins ?h0)" by simp
    from workerPass_run [OF this, of ns ds "[]"] Cons show ?thesis by (auto intro!: that)
  qed
  let ?nc = "length xs"
  let ?h2 = "case ns of [] \<Rightarrow> h1 | n # _ \<Rightarrow> h1\<lparr>hp_node := hp_node h1 @ [n]\<rparr>"
  have inst: "pi_Instance i = Some 0" if "i \<in> set ps" for i
    using w(4) that by (auto simp: list_all2_conv_all_nth in_set_conv_nth pass_ok_def)
  have len: "length ps = length ds" using w(4) by (simp add: list_all2_lengthD)
  then have none: "(\<forall>i\<in>set ps. pi_Instance i = None) \<longleftrightarrow> ds = []"
    using inst by (cases ps) auto
  have "hp_ins ?h2 ! a = last ds" if "i \<in> set ps" "pi_Instance i = Some a" for i a
    using that inst w(3) len by (cases ns) (auto split: if_splits)
  then have e: "ns \<noteq> [] \<Longrightarrow> workerExtra ?nc ns ps ?h2 =
    (ps @ replicate (length (filter (\<lambda>n. ds = [] \<or> \<not> contains (node_ProviderID n) (ins_Id (last ds))) ns))
        \<lparr>pi_Instance = None, pi_Node = Some ?nc\<rparr>, ?h2\<lparr>hp_node := (hp_node ?h2)[?nc := last ns]\<rparr>)"
    using workerExtra_run [of ?nc ?h2 ps "last ds" ns] none w(2) by (cases ns) auto
  have final: "map (derefInfo role h) ps = map (\<lambda>d. \<lparr>ni_Role = role, ni_Instance = Some (last ds),
       ni_Node = find (\<lambda>n. contains (node_ProviderID n) (ins_Id d)) ns, ni_Resource = None,
       ni_GetName = None\<rparr>) ds"
    if h: "hp_node h = hp_node h1 @ zs" "hp_ins h = hp_ins h1" for h zs
  proof (rule nth_equalityI)
    fix j
    assume j: "j < length (map (derefInfo role h) ps)"
    then have "pass_ok 0 ns h1 (ds ! j) (ps ! j)" using w(4) by (simp add: list_all2_conv_all_nth)
    from pass_ok_extend [OF this h(1)] j len w(3) h(2) show "map (derefInfo role h) ps ! j = map (\<lambda>d.
        \<lparr>ni_Role = role, ni_Instance = Some (last ds),
         ni_Node = find (\<lambda>n. contains (node_ProviderID n) (ins_Id d)) ns, ni_Resource = None,
         ni_GetName = None\<rparr>) ds ! j"
      by (auto simp: derefInfo_def pass_ok_def)
  qed (simp add: len)
  show ?thesis
  proof (cases ns)
    case Nil
    with w final [of h1 "[]"] show ?thesis by (simp add: workerInfos_def Let_def)
  next
    case (Cons n ns')
    let ?h3 = "?h2\<lparr>hp_node := (hp_node ?h2)[?nc := last ns]\<rparr>"
    have "hp_node ?h3 = hp_node h1 @ [last ns]" "hp_ins ?h3 = hp_ins h1"
      using w(2) Cons by auto
    with final [of ?h3] e Cons w show ?thesis
      by (simp add: workerInfos_def Let_def derefInfo_def del: workerExtra.simps)
  qed
qed

lemma masterInfos_resource:
  assumes "i \<in> set (masterInfos role ks ns ds)" and "ni_Resource i = Some k"
  shows "k \<in> set ks"
proof -
  obtain ex1 ex2 where parts: "masterInfos role ks ns ds = map (instanceInfo role ks ns) ds @ ex1 @ ex2"
    "\<forall>i\<in>set ex1. crd_extra ns ks (map (instanceInfo role ks ns) ds) i"
    "\<forall>i\<in>set ex2. node_extra ks ns (map (instanceInfo role ks ns) ds @ ex1) i"
    by (rule masterInfos_parts)
  from assms(1) parts(1) consider "i \<in> instanceInfo role ks ns ` set ds" | "i \<in> set ex1" | "i \<in> set ex2"
    by auto
  then show ?thesis
  proof cases
    case 1
    with assms(2) show ?thesis by (auto dest: find_Some_iff)
  next
    case 2
    with parts(2) assms(2) show ?thesis unfolding crd_extra_def by fastforce
  next
    case 3
    with parts(3) assms(2) show ?thesis unfolding node_extra_def by (metis find_Some_iff)
  qed
qed

subsection \<open>The triple of a run\<close>

lemma ToList_mset:
  assumes "ToList E m tr = (Ret l, t)"
  shows "mset l = image_mset snd (mset m)"
proof -
  from assms obtain ys where "range_map E m tr = (Ret ys, t)" "l = map snd ys"
    by (auto simp: ToList_def andThen_Ret_iff)
  with range_map_mset [of E m tr "Ret ys" t] show ?thesis by auto
qed

lemma NewTripleMaster_shape:
  assumes "NewTripleMaster E g tr = (Ret (Inr t), tr')"
  obtains ds where "tri_nodeInfo t = masterInfos JoinMasterUserdata (tri_mCRDs t) (tri_mnodes t) ds"
    and "mset ds = mset (tri_instances t)"
proof -
  from assms obtain detail t1 t2 ins ds where "ToList E detail t1 = (Ret ins, t2)"
    and r: "range_map E detail t2 = (Ret ds, tr')" and "tri_instances t = ins"
    and "tri_nodeInfo t = masterInfos JoinMasterUserdata (tri_mCRDs t) (tri_mnodes t) (map snd ds)"
    unfolding NewTripleMaster_def andThen_value_iff by (auto simp: andThen_Ret_iff)
  with ToList_mset range_map_mset [OF r] show thesis
    by (intro that [of "map snd ds"]) auto
qed

lemma NewTripleWorker_shape:
  assumes "NewTripleWorker E g np tr = (Ret (Inr t), tr')"
  obtains ds where "tri_nodeInfo t = workerInfos WorkerUserdata (tri_mnodes t) ds"
    and "mset ds = mset (tri_instances t)"
proof -
  from assms obtain detail t1 t2 ins ds where "ToList E detail t1 = (Ret ins, t2)"
    and r: "range_map E detail t2 = (Ret ds, tr')" and "tri_instances t = ins"
    and "tri_nodeInfo t = workerInfos WorkerUserdata (tri_mnodes t) (map snd ds)"
    unfolding NewTripleWorker_def andThen_value_iff by (auto simp: andThen_Ret_iff)
  with ToList_mset range_map_mset [OF r] show thesis
    by (intro that [of "map snd ds"]) auto
qed

text \<open>With two nodes and an instance, one node is compared with the wrong instance.\<close>

lemma workerInfos_condemned:
  assumes ti: "tri_nodeInfo t = workerInfos role (tri_mnodes t) ds" and ds: "mset ds = mset (tri_instances t)"
    and "tri_instances t \<noteq> []"
    and "n1 \<in> set (tri_mnodes t)" and "n2 \<in> set (tri_mnodes t)" and "n1 \<noteq> n2"
    and "\<And>d n n'. d \<in> set (tri_instances t) \<Longrightarrow> n \<in> set (tri_mnodes t) \<Longrightarrow> n' \<in> set (tri_mnodes t) \<Longrightarrow>
      contains (node_ProviderID n) (ins_Id d) \<Longrightarrow> contains (node_ProviderID n') (ins_Id d) \<Longrightarrow> n = n'"
  shows "\<exists>i\<in>set (snd (InstanceNodeDiff t)). ni_Node i = Some (last (tri_mnodes t))"
proof -
  from assms(3) ds have "last ds \<in> set (tri_instances t)"
    by (metis last_in_set mset_eq_setD mset_zero_iff_right)
  with assms(4-7) have "\<exists>n\<in>set (tri_mnodes t). \<not> contains (node_ProviderID n) (ins_Id (last ds))" by blast
  then have "length (filter (\<lambda>n. ds = [] \<or> \<not> contains (node_ProviderID n) (ins_Id (last ds)))
      (tri_mnodes t)) \<noteq> 0" by (auto simp: filter_empty_conv)
  then show ?thesis
    unfolding InstanceNodeDiff_def ti workerInfos_closed by (auto intro!: bexI)
qed

section \<open>An example\<close>

text \<open>
  Two instances with their nodes (the first one ready) and resources, and a resource and a node
  of an instance that is gone.
\<close>

definition ids_env :: env where
  "ids_env = env0\<lparr>
     e_cluster := (\<lambda>tr ns n. Inr cluster0),
     e_masters := (\<lambda>tr. Inr [master0 ''m1'' ''cn.i-1'' ''10.0.0.1'', master0 ''m2'' ''cn.i-2'' ''10.0.0.2'',
       master0 ''m3'' ''cn.i-3'' ''10.0.0.3'']),
     e_nodes := (\<lambda>tr. Inr (map (\<lambda>n. n\<lparr>node_Meta := (node_Meta n)\<lparr>om_Labels :=
         Some [(''node-role.kubernetes.io/master'', []), (''np.wdrip.io/id'', ''np1'')]\<rparr>\<rparr>)
       [node0 ''n1'' ''cn.i-1'' True, node0 ''n2'' ''cn.i-2'' True, node0 ''n3'' ''cn.i-3'' True])),
     e_scaling_group := (\<lambda>tr g. Inr [(''i-1'', instance0 ''i-1'' ''10.0.0.1''),
       (''i-2'', instance0 ''i-2'' ''10.0.0.2'')])\<rparr>"

definition infra0 :: InfraManager where
  "infra0 = \<lparr>im_spec = cluster0, im_stack = []\<rparr>"

definition pool0 :: NodePool where
  "pool0 = nodepool0 ''np1'' (Some \<lparr>bind_VswitchIDS = [], bind_ScalingGroupId = ''asg-1'',
     bind_ConfigurationId = ''asc-1''\<rparr>)"

definition the_triple :: "(gerr + Triple) eff \<Rightarrow> Triple" where
  "the_triple m = (case fst (m []) of Ret (Inr t) \<Rightarrow> t)"

definition is_triple :: "(gerr + Triple) eff \<Rightarrow> bool" where
  "is_triple m = (case fst (m []) of Ret (Inr t) \<Rightarrow> True | _ \<Rightarrow> False)"

lemma is_triple_run: "is_triple m \<Longrightarrow> m [] = (Ret (Inr (the_triple m)), snd (m []))"
  by (cases "m []") (auto simp: is_triple_def the_triple_def split: outcome.splits sum.splits)

section \<open>Properties\<close>

text \<open>
  The \<^verbatim>\<open>Master\<close> resources the healing centre deletes belong to no instance: for every info in
  the deletions of \<^verbatim>\<open>MasterCRDDiff\<close> of a triple of \<^verbatim>\<open>NewTripleMaster\<close>, the id of its resource
  mentions no instance of the scaling group, whatever the ids look like.
\<close>

lemma MasterCRDDiff_deletes_orphans:
  assumes "NewTripleMaster E g tr = (Ret (Inr t), tr')" and "i \<in> set (fst (MasterCRDDiff t))"
  shows "\<exists>k\<in>set (tri_mCRDs t). ni_Resource i = Some k \<and>
    (\<forall>d\<in>set (tri_instances t). \<not> contains (ms_ID (m_Spec k)) (ins_Id d))"
proof -
  obtain ds where t: "tri_nodeInfo t = masterInfos JoinMasterUserdata (tri_mCRDs t) (tri_mnodes t) ds"
    and ds: "mset ds = mset (tri_instances t)" using assms(1) by (rule NewTripleMaster_shape)
  from assms(2) obtain k where k: "i \<in> set (tri_nodeInfo t)" "ni_Resource i = Some k" "ni_Instance i = None"
    by (auto simp: MasterCRDDiff_def)
  from mset_eq_setD [OF ds] orphan_crd_no_instance [of i JoinMasterUserdata "tri_mCRDs t" "tri_mnodes t" ds k]
    k t have "\<forall>d\<in>set (tri_instances t). \<not> contains (ms_ID (m_Spec k)) (ins_Id d)" by auto
  moreover have "k \<in> set (tri_mCRDs t)"
    using k(1,2) unfolding t by (rule masterInfos_resource)
  ultimately show ?thesis using k(2) by blast
qed

text \<open>
  The \<^verbatim>\<open>Node\<close> objects the healing centre deletes have no instance: when no instance is claimed by
  the provider ids of two different nodes, the node of every info in the deletions of
  \<^verbatim>\<open>InstanceNodeDiff\<close> of a control plane triple mentions no instance of the scaling group.
\<close>

lemma InstanceNodeDiff_deletes_orphans:
  assumes "NewTripleMaster E g tr = (Ret (Inr t), tr')" and "i \<in> set (snd (InstanceNodeDiff t))"
    and "\<And>d n n'. d \<in> set (tri_instances t) \<Longrightarrow> n \<in> set (tri_mnodes t) \<Longrightarrow> n' \<in> set (tri_mnodes t) \<Longrightarrow>
      contains (node_ProviderID n) (ins_Id d) \<Longrightarrow> contains (node_ProviderID n') (ins_Id d) \<Longrightarrow> n = n'"
  shows "\<exists>n. ni_Node i = Some n \<and> (\<forall>d\<in>set (tri_instances t). \<not> contains (node_ProviderID n) (ins_Id d))"
proof -
  obtain ds where t: "tri_nodeInfo t = masterInfos JoinMasterUserdata (tri_mCRDs t) (tri_mnodes t) ds"
    and ds: "mset ds = mset (tri_instances t)" using assms(1) by (rule NewTripleMaster_shape)
  from assms(2) obtain n where n: "i \<in> set (tri_nodeInfo t)" "ni_Node i = Some n" "ni_Instance i = None"
    by (auto simp: InstanceNodeDiff_def)
  have "\<not> contains (node_ProviderID n) (ins_Id d)" if d: "d \<in> set (tri_instances t)" for d
    using orphan_node_no_instance [of i JoinMasterUserdata "tri_mCRDs t" "tri_mnodes t" ds n d]
      n t d mset_eq_setD [OF ds] assms(3) [OF d] by auto
  with n(2) show ?thesis by blast
qed

text \<open>
  C24: the control plane counts as healthy exactly when the three views agree: with ids in the
  format \<^verbatim>\<open>region.instanceid\<close>, \<^verbatim>\<open>SystemInConsistency\<close> of a triple of \<^verbatim>\<open>NewTripleMaster\<close> holds if
  and only if the resources and the nodes name exactly the instances of the scaling group and
  every node is ready.
\<close>

theorem SystemInConsistency_views_agree:
  assumes "NewTripleMaster E g tr = (Ret (Inr t), tr')"
    and "wf_ids r l (tri_instances t) (tri_mCRDs t) (tri_mnodes t)"
  shows "SystemInConsistency t \<longleftrightarrow>
    id_part r ` ms_ID ` m_Spec ` set (tri_mCRDs t) = ins_Id ` set (tri_instances t) \<and>
    id_part r ` node_ProviderID ` set (tri_mnodes t) = ins_Id ` set (tri_instances t) \<and>
    (\<forall>n\<in>set (tri_mnodes t). NodeReady n)"
proof -
  obtain ds where t: "tri_nodeInfo t = masterInfos JoinMasterUserdata (tri_mCRDs t) (tri_mnodes t) ds"
    and ds: "mset ds = mset (tri_instances t)" using assms(1) by (rule NewTripleMaster_shape)
  note [simp] = mset_eq_setD [OF ds]
  from assms(2) have "wf_ids r l ds (tri_mCRDs t) (tri_mnodes t)" by (simp add: wf_ids_def)
  from consistent_wf_ids [OF t this] show ?thesis by simp
qed

theorem SystemInConsistency_views_agree_witness:
  "\<exists>t tr'. NewTripleMaster ids_env (wTripleGetter ids_env infra0) [] = (Ret (Inr t), tr') \<and>
     wf_ids ''cn'' 3 (tri_instances t) (tri_mCRDs t) (tri_mnodes t) \<and>
     (SystemInConsistency t \<longleftrightarrow>
       id_part ''cn'' ` ms_ID ` m_Spec ` set (tri_mCRDs t) = ins_Id ` set (tri_instances t) \<and>
       id_part ''cn'' ` node_ProviderID ` set (tri_mnodes t) = ins_Id ` set (tri_instances t) \<and>
       (\<forall>n\<in>set (tri_mnodes t). NodeReady n))"
proof -
  let ?m = "NewTripleMaster ids_env (wTripleGetter ids_env infra0)"
  let ?t = "the_triple ?m"
  have "is_triple ?m"
    and ds: "map ins_Id (tri_instances ?t) = [''i-1'', ''i-2'']"
    and ks: "map (ms_ID \<circ> m_Spec) (tri_mCRDs ?t) = [''cn.i-1'', ''cn.i-2'', ''cn.i-3'']"
    and ns: "map node_ProviderID (tri_mnodes ?t) = [''cn.i-1'', ''cn.i-2'', ''cn.i-3'']" by code_simp+
  note run = is_triple_run [OF this(1)]
  have p: "provider_id ''cn'' 3 s" if "s \<in> {''cn.i-1'', ''cn.i-2'', ''cn.i-3''}" for s
    using that by (auto simp: provider_id_def)
  have wf: "wf_ids ''cn'' 3 (tri_instances ?t) (tri_mCRDs ?t) (tri_mnodes ?t)"
    unfolding wf_ids_def
  proof (intro conjI ballI)
    fix k
    assume "k \<in> set (tri_mCRDs ?t)"
    then have "ms_ID (m_Spec k) \<in> set (map (ms_ID \<circ> m_Spec) (tri_mCRDs ?t))" by simp
    then show "provider_id ''cn'' 3 (ms_ID (m_Spec k))" unfolding ks by (intro p) simp
  next
    fix n
    assume "n \<in> set (tri_mnodes ?t)"
    then have "node_ProviderID n \<in> set (map node_ProviderID (tri_mnodes ?t))" by simp
    then show "provider_id ''cn'' 3 (node_ProviderID n)" unfolding ns by (intro p) simp
  next
    fix d
    assume "d \<in> set (tri_instances ?t)"
    then have d: "ins_Id d \<in> set (map ins_Id (tri_instances ?t))" by simp
    from d show "length (ins_Id d) = 3" unfolding ds by auto
    from d show "CHR ''.'' \<notin> set (ins_Id d)" unfolding ds by auto
  qed (simp_all add: ns)
  show ?thesis
    by (intro exI conjI, rule run, rule wf, rule SystemInConsistency_views_agree [OF run wf])
qed

text \<open>
  \<^verbatim>\<open>EtcdMemDiff\<close> proposes only members whose IP belongs to no instance, never more than half of
  the membership, and all of them whenever they are at most half (for memberships whose size a
  \<^verbatim>\<open>float32\<close> holds exactly).
\<close>

lemma EtcdMemDiff_keeps_majority:
  assumes "length mems \<le> 2 ^ 24"
  shows "set (EtcdMemDiff t mems) \<subseteq> {m \<in> set mems. \<forall>d\<in>set (tri_instances t). mem_IP m \<noteq> ins_Ip d} \<and>
    2 * length (EtcdMemDiff t mems) \<le> length mems \<and>
    (2 * length (filter (\<lambda>m. \<forall>d\<in>set (tri_instances t). mem_IP m \<noteq> ins_Ip d) mems) \<le> length mems \<longrightarrow>
     EtcdMemDiff t mems = filter (\<lambda>m. \<forall>d\<in>set (tri_instances t). mem_IP m \<noteq> ins_Ip d) mems)"
proof -
  let ?del = "filter (\<lambda>m. \<forall>d\<in>set (tri_instances t). mem_IP m \<noteq> ins_Ip d) mems"
  have eq: "filter (\<lambda>m. \<not> list_ex (\<lambda>e. mem_IP m = ins_Ip e) (tri_instances t)) mems = ?del"
    by (rule filter_cong) (auto simp: list_ex_iff)
  have "length ?del \<le> length mems" by (rule length_filter_le)
  then have "length ?del \<le> 2 ^ 24" using assms by (rule order_trans)
  note f32 = float32_exact_le [OF this] float32_exact_le [OF assms]
  show ?thesis
    unfolding EtcdMemDiff_def eq Let_def f32 by (cases "length mems < 2 * length ?del") auto
qed

text \<open>
  \<^verbatim>\<open>BreakID\<close> inverts the id format: it succeeds exactly on the strings with one dot and
  returns the parts before and after it; every other string is an error.
\<close>

lemma BreakID_inverts_format:
  "BreakID s = Inr (a, b) \<longleftrightarrow> s = a @ ''.'' @ b \<and> CHR ''.'' \<notin> set a \<and> CHR ''.'' \<notin> set b"
proof
  assume "BreakID s = Inr (a, b)"
  then have ab: "split_on s ''.'' = [a, b]"
    by (auto simp: BreakID_def Let_def length_Suc_conv numeral_2_eq_2 split: if_splits)
  then have "s = join ''.'' [a, b]" by (metis join_split_on)
  with ab split_on_pieces [of _ s "CHR ''.''"] show "s = a @ ''.'' @ b \<and> CHR ''.'' \<notin> set a \<and> CHR ''.'' \<notin> set b"
    by auto
next
  assume "s = a @ ''.'' @ b \<and> CHR ''.'' \<notin> set a \<and> CHR ''.'' \<notin> set b"
  then show "BreakID s = Inr (a, b)"
    by (simp add: BreakID_def split_on_char split_on_char_none)
qed

text \<open>
  What \<^verbatim>\<open>NewTripleWorker\<close> really builds. Its infos all point to the loop variable \<^verbatim>\<open>d\<close>, so
  every instance info shows the last instance of the iteration, and the nodes it appends as
  orphans are found by comparing with that instance only and all show the last node of the list.
\<close>

lemma NewTripleWorker_aliases_loop_variables:
  assumes "NewTripleWorker E g np tr = (Ret (Inr t), tr')"
  shows "\<exists>ds. mset ds = mset (tri_instances t) \<and> tri_nodeInfo t =
     map (\<lambda>d. \<lparr>ni_Role = WorkerUserdata, ni_Instance = Some (last ds),
       ni_Node = find (\<lambda>n. contains (node_ProviderID n) (ins_Id d)) (tri_mnodes t),
       ni_Resource = None, ni_GetName = None\<rparr>) ds @
     replicate (length (filter (\<lambda>n. ds = [] \<or> \<not> contains (node_ProviderID n) (ins_Id (last ds)))
         (tri_mnodes t)))
       \<lparr>ni_Role = WorkerUserdata, ni_Instance = None, ni_Node = Some (last (tri_mnodes t)),
        ni_Resource = None, ni_GetName = None\<rparr>"
proof -
  obtain ds where "tri_nodeInfo t = workerInfos WorkerUserdata (tri_mnodes t) ds"
    and "mset ds = mset (tri_instances t)" using assms by (rule NewTripleWorker_shape)
  then show ?thesis using workerInfos_closed by metis
qed

text \<open>A pool in perfect order: two instances, their two nodes, both ready.\<close>

definition good_pool_env :: env where
  "good_pool_env = ids_env\<lparr>e_nodes := (\<lambda>tr. Inr (map (\<lambda>n. n\<lparr>node_Meta := (node_Meta n)\<lparr>om_Labels :=
       Some [(''np.wdrip.io/id'', ''np1'')]\<rparr>\<rparr>)
       [node0 ''n1'' ''cn.i-1'' True, node0 ''n2'' ''cn.i-2'' True]))\<rparr>"

end
