(* ===== verification/Operation.thy ===== *)
theory Operation
  imports Triple
begin

text \<open>
  \<^verbatim>\<open>pkg/operator/heal/operation.go\<close>: what the healing centre can do to one machine. The Go
  interface \<^verbatim>\<open>Operation\<close> is a record of operations; its contract, that an operation touches
  only the machine of the info it is given, is the locale \<open>operation\<close>, which the
  implementation \<^verbatim>\<open>NodeOperation\<close> satisfies. Log messages are not modelled, the calls made to
  compute their arguments are.
\<close>

section \<open>The interface\<close>

record Operation =
  op_Cordon :: "NodeInfo \<Rightarrow> bool \<Rightarrow> gerr option eff"
  op_Drain :: "NodeInfo \<Rightarrow> gerr option eff"
  op_Restart :: "NodeInfo \<Rightarrow> gerr option eff"
  op_Reset :: "NodeInfo \<Rightarrow> gerr option eff"
  op_RunCommand :: "NodeInfo \<Rightarrow> string \<Rightarrow> gerr option eff"
  op_LabelNode :: "NodeInfo \<Rightarrow> labels \<Rightarrow> gerr option eff"

record Manager =
  mgr_NewOperation :: "Triple \<Rightarrow> (gerr + Operation) eff"

record Retry =
  rt_Duration :: int

definition NewRetry :: "int \<Rightarrow> Retry" where
  "NewRetry timeout = \<lparr>rt_Duration = timeout\<rparr>"

definition retryError :: "Retry \<Rightarrow> gerr" where
  "retryError m = Errorf (''RetryInNext '' @ itoa (rt_Duration m div Second) @ '' Seconds'')"

section \<open>The operations of a node\<close>

definition WdripLastUpdate :: string where
  "WdripLastUpdate = ''wdrip.last.update.time''"

definition AdmitECSThrottleTime :: int where
  "AdmitECSThrottleTime = 3 * Minute"

definition AdmitNodeThrottleTime :: int where
  "AdmitNodeThrottleTime = 1 * Minute"

definition AdmitCreateThrottleTime :: int where
  "AdmitCreateThrottleTime = 5 * Minute"

definition Restart :: "env \<Rightarrow> NodeInfo \<Rightarrow> gerr option eff" where
  "Restart E info = (case ni_Instance info of
     None \<Rightarrow> ret (Some (Errorf (''empty instance id: '' @ infoString info)))
   | Some eid \<Rightarrow> andThen (do_call E (PRestartECS (ins_Id eid))) (\<lambda>err. case err of
       Some e \<Rightarrow> ret (Some (Wrap e ''restart ecs''))
     | None \<Rightarrow> andThen (GetNodeName info) (\<lambda>name.
         andThen (WaitHeartbeat E name (3 * Minute)) (\<lambda>err. case err of
           Some e \<Rightarrow> ret (Some (Wrap e
             (''wait node ready failed while restarting ecs: '' @ ins_Id eid)))
         | None \<Rightarrow> ret None))))"

text \<open>
  The loop over the tags stops at the first \<^verbatim>\<open>wdrip.last.update.time\<close>; its log line reads the
  clock twice before the answer is computed.
\<close>

definition AdmitECS :: "env \<Rightarrow> NodeInfo \<Rightarrow> int \<Rightarrow> bool eff" where
  "AdmitECS E info duration = (case ni_Instance info of
     None \<Rightarrow> ret False
   | Some eid \<Rightarrow> (case find (\<lambda>t. val_Key t = WdripLastUpdate) (ins_Tags eid) of
       Some t \<Rightarrow> andThen (Now E) (\<lambda>_. andThen (assert_string (val_Val t)) (\<lambda>last.
           andThen (After E last duration) (\<lambda>_. After E last duration)))
     | None \<Rightarrow> andThen (Now E) (\<lambda>n.
           andThen (do_call E (PTagECS (ins_Id eid) \<lparr>val_Key = WdripLastUpdate, val_Val = VStr n\<rparr>))
             (\<lambda>_. ret False))))"

definition AdmitNode :: "env \<Rightarrow> NodeInfo \<Rightarrow> int \<Rightarrow> bool eff" where
  "AdmitNode E info duration = (case ni_Instance info of
     None \<Rightarrow> ret False
   | Some eid \<Rightarrow>
       (let admit = (\<lambda>node. andThen (NodeHeartbeatReady E node duration)
              (\<lambda>(ready, reason). ret ready))
        in case ni_Node info of
          Some node \<Rightarrow> admit node
        | None \<Rightarrow> andThen (NodeItems E) (\<lambda>r. case r of
            Inl e \<Rightarrow> ret (IsNotFound e)
          | Inr nodes \<Rightarrow> (case find (\<lambda>v. contains (node_ProviderID v) (ins_Id eid)) nodes of
              None \<Rightarrow> ret True
            | Some node \<Rightarrow> admit node))))"

text \<open>\<^verbatim>\<open>PatchOrReplace\<close> answers two errors.\<close>

definition Cordon :: "env \<Rightarrow> NodeInfo \<Rightarrow> bool \<Rightarrow> gerr option eff" where
  "Cordon E info cordon = (case ni_Node info of
     None \<Rightarrow> ret None
   | Some node \<Rightarrow>
       andThen (perform (DCordon (node_Name node) cordon) (\<lambda>tr. e_cordon E tr (node_Name node) cordon))
         (\<lambda>(err, patcherr). if err \<noteq> None \<or> patcherr \<noteq> None
            then ret (Some (e_aggregate E [err, patcherr])) else ret None))"

text \<open>
  \<^verbatim>\<open>GetPodsForDeletion\<close> answers the pods or the aggregate of its errors. When the eviction
  fails the pods are listed again for the log.
\<close>

definition GetPodsForDeletion :: "env \<Rightarrow> string \<Rightarrow> (gerr + string list) eff" where
  "GetPodsForDeletion E name = perform (DGetPods name) (\<lambda>tr. e_pods E tr name)"

definition Drain :: "env \<Rightarrow> NodeInfo \<Rightarrow> gerr option eff" where
  "Drain E info = (case ni_Node info of
     None \<Rightarrow> ret None
   | Some node \<Rightarrow> andThen (Cordon E info True) (\<lambda>err. case err of
       Some e \<Rightarrow> ret (Some (Errorf (''cordon node: '' @ err_msg e)))
     | None \<Rightarrow> andThen (GetPodsForDeletion E (node_Name node)) (\<lambda>r. case r of
         Inl e \<Rightarrow> ret (Some e)
       | Inr pods \<Rightarrow> andThen (do_call E (DEvict pods)) (\<lambda>err. case err of
           Some e \<Rightarrow> andThen (GetPodsForDeletion E (node_Name node)) (\<lambda>_. ret (Some e))
         | None \<Rightarrow> ret None))))"

definition removeEtcd :: "env \<Rightarrow> Triple \<Rightarrow> string \<Rightarrow> gerr option eff" where
  "removeEtcd E trip ip =
     andThen (NewEtcdFromCRD E (tri_mCRDs trip) (tri_cluster trip) ETCD_TMP) (\<lambda>r. case r of
       Inl e \<Rightarrow> ret (Some (Errorf (''new etcd: '' @ err_msg e)))
     | Inr metcd \<Rightarrow> andThen (MemberList E metcd) (\<lambda>(err, mems). case err of
         Some e \<Rightarrow> ret (Some (Errorf (''clean up etcd: member '' @ err_msg e)))
       | None \<Rightarrow> RemoveMember E metcd (FindMemberByIP mems ip)))"

text \<open>The repair proper: new user data, a new system disk, the time tag, and the wait.\<close>

definition reinstall :: "env \<Rightarrow> string \<Rightarrow> Instance \<Rightarrow> gerr option eff" where
  "reinstall E role eid =
     andThen (perform (PUserData role) (\<lambda>tr. e_userdata E tr role)) (\<lambda>r. case r of
       Inl e \<Rightarrow> ret (Some (Wrap e ''new worker userdata''))
     | Inr data \<Rightarrow> andThen (do_call E (PReplaceSystemDisk (ins_Id eid) data)) (\<lambda>err. case err of
         Some e \<Rightarrow> andThen (Sleep (15 * Second))
           (\<lambda>_. ret (Some (Errorf (''replace system disk failed: '' @ err_msg e))))
       | None \<Rightarrow> andThen (Now E) (\<lambda>n.
           andThen (do_call E (PTagECS (ins_Id eid) \<lparr>val_Key = WdripLastUpdate, val_Val = VStr n\<rparr>))
             (\<lambda>_. andThen (WaitHeartbeat E (ins_Ip eid @ ''.'' @ ins_Id eid) (3 * Minute)) (\<lambda>err.
               case err of
                 Some e \<Rightarrow> ret (Some (Errorf (''repair failed, continue on next node, '' @ err_msg e)))
               | None \<Rightarrow> ret None)))))"

text \<open>What follows admission: drain, take a master out of etcd, reinstall.\<close>

definition removeMember :: "env \<Rightarrow> Triple \<Rightarrow> NodeInfo \<Rightarrow> Instance \<Rightarrow> gerr option eff" where
  "removeMember E trip info eid =
     (if ni_Role info = JoinMasterUserdata then removeEtcd E trip (ins_Ip eid) else ret None)"

definition drainAndReinstall :: "env \<Rightarrow> Triple \<Rightarrow> NodeInfo \<Rightarrow> Instance \<Rightarrow> gerr option eff" where
  "drainAndReinstall E trip info eid = andThen (Drain E info) (\<lambda>err.
     andThen (case err of Some e \<Rightarrow> andThen (deref (ni_Node info)) (\<lambda>_. ret ()) | None \<Rightarrow> ret ()) (\<lambda>_.
     andThen (removeMember E trip info eid) (\<lambda>err. case err of
       Some e \<Rightarrow> ret (Some (Wrap e (''etcd: '' @ ins_Id eid @ '', '' @ ins_Ip eid)))
     | None \<Rightarrow> reinstall E (ni_Role info) eid)))"

definition Reset :: "env \<Rightarrow> Triple \<Rightarrow> NodeInfo \<Rightarrow> gerr option eff" where
  "Reset E trip info = andThen (deref (ni_Instance info)) (\<lambda>eid.
     andThen (After E (ins_CreatedAt eid) AdmitCreateThrottleTime) (\<lambda>old.
     if \<not> old then andThen (Sleep (1 * Minute)) (\<lambda>_. ret (Some (retryError (NewRetry (1 * Minute)))))
     else andThen (AdmitECS E info AdmitECSThrottleTime) (\<lambda>ecs.
     if \<not> ecs then ret (Some (retryError (NewRetry (1 * Minute))))
     else andThen (AdmitNode E info AdmitNodeThrottleTime) (\<lambda>adm.
     if \<not> adm then ret (Some (retryError (NewRetry (1 * Minute))))
     else drainAndReinstall E trip info eid))))"

definition RunCommand :: "env \<Rightarrow> NodeInfo \<Rightarrow> string \<Rightarrow> gerr option eff" where
  "RunCommand E info cmd = (case ni_Instance info of
     None \<Rightarrow> ret (Some (Errorf (''empty instance information: '' @ infoString info)))
   | Some eid \<Rightarrow> andThen (do_call E (PRunCommand (ins_Id eid) cmd)) (\<lambda>err. case err of
       Some e \<Rightarrow> ret (Some (Wrap e (''run command['' @ cmd @ '']'')))
     | None \<Rightarrow> andThen (GetNodeName info) (\<lambda>name. WaitHeartbeat E name (30 * Second))))"

text \<open>
  The setter writes the labels into \<^verbatim>\<open>GetLabels()\<close>; when that map is nil it writes them into a
  fresh map that is never attached to the node.
\<close>

definition labelSetter :: "labels \<Rightarrow> Setter" where
  "labelSetter lbl copy = (case copy of
     ONode np \<Rightarrow> (case om_Labels (node_Meta np) of
       None \<Rightarrow> Ret (Inr (ONode np))
     | Some mlabels \<Rightarrow> Ret (Inr (ONode (np\<lparr>node_Meta := (node_Meta np)\<lparr>om_Labels :=
         Some (fold (\<lambda>(k, v) m. put m k v) lbl mlabels)\<rparr>\<rparr>))))
   | _ \<Rightarrow> Panic ''interface conversion: runtime.Object is not *v1.Node'')"

definition LabelNode :: "env \<Rightarrow> NodeInfo \<Rightarrow> labels \<Rightarrow> gerr option eff" where
  "LabelNode E info lbl = andThen (GetNodeName info) (\<lambda>name.
     andThen (Node_get E name) (\<lambda>r. case r of
       Inl e \<Rightarrow> ret (Some (Wrap e (''['' @ name @ ''] get node'')))
     | Inr node \<Rightarrow> Patch E (ONode node) (labelSetter lbl) PatchSpec))"

definition NodeOperation :: "env \<Rightarrow> Triple \<Rightarrow> Operation" where
  "NodeOperation E trip = \<lparr>op_Cordon = Cordon E, op_Drain = Drain E, op_Restart = Restart E,
     op_Reset = Reset E trip, op_RunCommand = RunCommand E, op_LabelNode = LabelNode E\<rparr>"

definition operationMgr :: "env \<Rightarrow> Manager" where
  "operationMgr E = \<lparr>mgr_NewOperation = (\<lambda>trip. ret (Inr (NodeOperation E trip)))\<rparr>"

section \<open>The contract of an operation\<close>

text \<open>
  The calls that concern the machine of one info: reading, \<^verbatim>\<open>etcdctl\<close> and the files it needs,
  commands to its instance, cordoning its node and evicting pods listed for its node, and
  patching a node.
\<close>

definition scope :: "env \<Rightarrow> NodeInfo \<Rightarrow> call set" where
  "scope E info = reads \<union> etcdctl_calls \<union> file_calls \<union>
     {c. \<exists>eid x y. ni_Instance info = Some eid \<and> c \<in> {PRunCommand (ins_Id eid) x,
        PRestartECS (ins_Id eid), PReplaceSystemDisk (ins_Id eid) x, PTagECS (ins_Id eid) y}} \<union>
     {c. \<exists>node b ps tr. ni_Node info = Some node \<and> (c = DCordon (node_Name node) b \<or>
        c = DEvict ps \<and> e_pods E tr (node_Name node) = Inr ps)} \<union>
     {c. \<exists>n. c = KPatch (ONode n)}"

locale operation =
  fixes E :: env and nop :: Operation
  assumes Cordon_scope: "emits (scope E info) (op_Cordon nop info b)"
    and Drain_scope: "emits (scope E info) (op_Drain nop info)"
    and Restart_scope: "emits (scope E info) (op_Restart nop info)"
    and Reset_scope: "emits (scope E info) (op_Reset nop info)"
    and RunCommand_scope: "emits (scope E info) (op_RunCommand nop info cmd)"
    and LabelNode_scope: "emits (scope E info) (op_LabelNode nop info lbl)"

section \<open>Lemmas\<close>

lemma scope_reads: "reads \<subseteq> scope E info" "reads \<union> etcdctl_calls \<subseteq> scope E info"
  "reads \<union> file_calls \<subseteq> scope E info"
  by (auto simp: scope_def)

lemma scope_instance:
  assumes "ni_Instance info = Some eid"
  shows "PRunCommand (ins_Id eid) x \<in> scope E info" "PRestartECS (ins_Id eid) \<in> scope E info"
    "PReplaceSystemDisk (ins_Id eid) x \<in> scope E info" "PTagECS (ins_Id eid) y \<in> scope E info"
  using assms by (auto simp: scope_def)

lemma scope_sys [simp]: "CNow \<in> scope E info" "CIntn k' \<in> scope E info"
  "CSleep d \<in> scope E info" "CTimer d \<in> scope E info" "CRange k' \<in> scope E info" "KubeRead k \<in> scope E info"
  "PrvdRead p \<in> scope E info" "DGetPods n \<in> scope E info" "KPatch (ONode n') \<in> scope E info"
  by (auto simp: scope_def)

lemmas scope_intro = emits_intro scope_reads scope_instance scope_sys

lemma Cordon_emits: "emits (scope E info) (Cordon E info b)"
  unfolding Cordon_def by (intro scope_intro) (auto simp: scope_def)

lemma Drain_emits: "emits (scope E info) (Drain E info)"
  unfolding Drain_def GetPodsForDeletion_def
  by (intro scope_intro Cordon_emits emits_bind_perform) (auto simp: scope_def)

lemma Restart_emits: "emits (scope E info) (Restart E info)"
  unfolding Restart_def by (intro scope_intro)

lemma AdmitECS_emits: "emits (scope E info) (AdmitECS E info d)"
  unfolding AdmitECS_def by (intro scope_intro)

lemma AdmitNode_reads [emits_intro]: "reads \<subseteq> A \<Longrightarrow> emits A (AdmitNode E info d)"
  unfolding AdmitNode_def Let_def by (intro emits_intro)

lemma removeEtcd_bound [emits_intro]:
  "reads \<union> etcdctl_calls \<union> file_calls \<subseteq> A \<Longrightarrow> emits A (removeEtcd E t ip)"
  unfolding removeEtcd_def by (intro emits_intro) auto

lemma reinstall_emits: "ni_Instance info = Some eid \<Longrightarrow> emits (scope E info) (reinstall E role eid)"
  unfolding reinstall_def by (intro scope_intro)

lemma drainAndReinstall_emits:
  assumes "ni_Instance info = Some eid"
  shows "emits (scope E info) (drainAndReinstall E t info eid)"
proof -
  have "reads \<union> etcdctl_calls \<union> file_calls \<subseteq> scope E info" by (auto simp: scope_def)
  then show ?thesis
    unfolding drainAndReinstall_def removeMember_def
    by (intro emits_intro scope_intro Drain_emits reinstall_emits assms)
qed

lemma Reset_emits: "emits (scope E info) (Reset E t info)"
proof (cases "ni_Instance info")
  case None
  then show ?thesis by (simp add: Reset_def deref_def emits_panic)
next
  case (Some eid)
  show ?thesis
    unfolding Reset_def deref_def Some option.case andThen_ret
    by (intro emits_intro scope_intro AdmitECS_emits drainAndReinstall_emits Some)
qed

lemma RunCommand_emits: "emits (scope E info) (RunCommand E info cmd)"
  unfolding RunCommand_def by (intro scope_intro)

lemma labelSetter_node: "\<exists>n'. labelSetter lbl (ONode n) = Ret (Inr (ONode n'))"
  by (auto simp: labelSetter_def split: option.splits)

lemma LabelNode_emits: "emits (scope E info) (LabelNode E info lbl)"
proof -
  have "emits (scope E info) (Patch E (ONode n) (labelSetter lbl) PatchSpec)" for n
  proof -
    have *: "\<exists>n'. labelSetter lbl y = Ret (Inr (ONode n'))" if "map_sum id ONode x = Inr y" for x y
      using that labelSetter_node by (cases x) auto
    show ?thesis
      unfolding Patch_def get_obj_def Let_def kobj.case send_patch_def
    proof (intro emits_bind_perform scope_sys emits_case_sum emits_ret, goal_cases)
      case (1 tr y)
      from * [OF 1] obtain n' where "labelSetter lbl y = Ret (Inr (ONode n'))" by blast
      then show ?case by (auto intro!: scope_intro)
    qed
  qed
  then show ?thesis unfolding LabelNode_def by (intro scope_intro)
qed

interpretation nop: operation E "NodeOperation E trip" for E trip
  by unfold_locales (simp_all add: NodeOperation_def Cordon_emits Drain_emits Restart_emits
    Reset_emits RunCommand_emits LabelNode_emits)

subsection \<open>Admission\<close>

lemma After_True:
  assumes "After E t d tr = (Ret True, tr')"
  shows "\<exists>me. e_parse_time E t = Some me \<and> e_now E tr > me + d \<and> tr' = tr @ [CNow]"
  using assms by (auto simp: After_def now_def run_simps split: option.splits)

lemma AdmitECS_True:
  assumes "AdmitECS E info d tr = (Ret True, tr')" and "ni_Instance info = Some eid"
  shows "\<exists>v s me t. v \<in> set (ins_Tags eid) \<and> val_Key v = WdripLastUpdate \<and> val_Val v = VStr s \<and>
    e_parse_time E s = Some me \<and> prefix tr t \<and> strict_prefix t tr' \<and> e_now E t > me + d"
proof -
  from assms obtain v where v: "find (\<lambda>t. val_Key t = WdripLastUpdate) (ins_Tags eid) = Some v"
    by (auto simp: AdmitECS_def Now_def now_def do_call_def run_simps split: option.splits)
  with assms obtain x t1 s t2 b t3 where run: "Now E tr = (Ret x, t1)"
    "assert_string (val_Val v) t1 = (Ret s, t2)" "After E s d t2 = (Ret b, t3)"
    "After E s d t3 = (Ret True, tr')"
    by (auto simp: AdmitECS_def andThen_Ret_iff)
  have "prefix tr t1" using run(1) by (auto simp: Now_def now_def run_simps)
  moreover have "val_Val v = VStr s" "t2 = t1"
    using run(2) by (auto simp: assert_string_def split: goval.splits)
  moreover have "prefix t2 t3" using After_reads [of UNIV E s d] run(3) by (auto intro: emits_prefix)
  moreover from After_True [OF run(4)] obtain me where "e_parse_time E s = Some me"
    "e_now E t3 > me + d" "strict_prefix t3 tr'" by (auto simp: strict_prefix_def)
  moreover from find_Some_iff [OF v] have "v \<in> set (ins_Tags eid)" "val_Key v = WdripLastUpdate"
    by auto
  ultimately show ?thesis by (meson prefix_order.trans)
qed

lemma nodeHeartbeatReady_True:
  assumes "nodeHeartbeatReady E node d tr = (Ret (True, r), tr')"
  shows "nc_Type (findCondition (node_Conditions node) ''Ready'') = ''Ready'' \<longrightarrow>
    nc_Status (findCondition (node_Conditions node) ''Ready'') = ''True''"
  using assms by (auto simp: nodeHeartbeatReady_def Let_def split: if_splits)

lemma AdmitNode_True:
  assumes "AdmitNode E info d tr = (Ret True, tr')" and "ni_Node info = Some node"
  shows "nc_Type (findCondition (node_Conditions node) ''Ready'') = ''Ready'' \<longrightarrow>
    nc_Status (findCondition (node_Conditions node) ''Ready'') = ''True''"
  using assms by (auto simp: AdmitNode_def NodeHeartbeatReady_def andThen_Ret_iff Let_def
    split: option.splits dest: nodeHeartbeatReady_True)

text \<open>A call made behind a guard is made after the guard held.\<close>

lemma late_guard:
  assumes m: "emits A m" and g: "emits A g" and "c \<notin> A" and f: "emits UNIV f"
    and c: "c \<in> set (new_calls (andThen m (\<lambda>b. if \<not> b then g else f)) tr)"
  obtains tr' where "m tr = (Ret True, tr')" and "prefix tr tr'" and "c \<in> set (new_calls f tr')"
proof -
  have "emits UNIV (if \<not> b then g else f)" for b
    using emits_mono [OF g, of UNIV] f by simp
  from late_call [OF m \<open>c \<notin> A\<close> this c] obtain b tr' where
    b: "m tr = (Ret b, tr')" "prefix tr tr'" "c \<in> set (new_calls (if \<not> b then g else f) tr')"
    by metis
  then have b using emits_new_calls [OF g] \<open>c \<notin> A\<close> by (cases b) auto
  with b show thesis by (intro that) auto
qed

definition no_disk :: "call set" where
  "no_disk = {c. \<forall>i d. c \<noteq> PReplaceSystemDisk i d}"

lemma no_disk_reads [simp]: "reads \<subseteq> no_disk" "reads \<union> etcdctl_calls \<union> file_calls \<subseteq> no_disk"
  "etcdctl_calls \<subseteq> no_disk" "file_calls \<subseteq> no_disk" "reads \<union> etcdctl_calls \<subseteq> no_disk" "reads \<union> file_calls \<subseteq> no_disk"
  "Sys s \<in> no_disk" "PTagECS i v \<in> no_disk" "DrainCall dc \<in> no_disk" "PrvdRead p \<in> no_disk"
  "PReplaceSystemDisk i d \<notin> no_disk" "\<not> mutating c \<Longrightarrow> c \<in> no_disk"
  by (auto simp: no_disk_def etcdctl_calls_def file_calls_def)

lemma Drain_no_disk: "emits no_disk (Drain E info)"
  unfolding Drain_def Cordon_def GetPodsForDeletion_def by (intro emits_intro) auto

lemma AdmitECS_no_disk: "emits no_disk (AdmitECS E info d)"
  unfolding AdmitECS_def by (intro emits_intro) auto

text \<open>The stages before a disk is replaced.\<close>

lemma drainAndReinstall_stages:
  assumes "PReplaceSystemDisk i d \<in> set (new_calls (drainAndReinstall E t info eid) tr)"
  obtains t1 t2 where "prefix tr t1" and "removeMember E t info eid t1 = (Ret None, t2)"
    and "PReplaceSystemDisk i d \<in> set (new_calls (reinstall E (ni_Role info) eid) t2)"
proof -
  let ?c = "PReplaceSystemDisk i d"
  define tail where "tail err = (case err of
      Some e \<Rightarrow> ret (Some (Wrap e (''etcd: '' @ ins_Id eid @ '', '' @ ins_Ip eid)))
    | None \<Rightarrow> reinstall E (ni_Role info) eid)" for err
  define log :: "gerr option \<Rightarrow> unit eff" where "log err = (case err of
      Some e \<Rightarrow> andThen (deref (ni_Node info)) (\<lambda>_. ret ()) | None \<Rightarrow> ret ())" for err
  have quiet: "emits no_disk (log e)" "emits no_disk (removeMember E t info eid)" for e
    unfolding log_def removeMember_def by (intro emits_intro; simp)+
  have u: "emits UNIV (tail e)" for e unfolding tail_def reinstall_def by (auto intro!: emits_intro)
  have u2: "emits UNIV (andThen (removeMember E t info eid) tail)"
    by (intro emits_intro u quiet [THEN emits_mono, OF subset_UNIV])
  have u3: "emits UNIV (andThen (log e) (\<lambda>_. andThen (removeMember E t info eid) tail))" for e
    by (intro emits_intro u2 quiet [THEN emits_mono, OF subset_UNIV])
  have eq: "drainAndReinstall E t info eid = andThen (Drain E info) (\<lambda>err. andThen (log err)
      (\<lambda>_. andThen (removeMember E t info eid) tail))"
    unfolding drainAndReinstall_def tail_def log_def by (rule refl)
  obtain x t0 where t0: "prefix tr t0"
    "?c \<in> set (new_calls (andThen (log x) (\<lambda>_. andThen (removeMember E t info eid) tail)) t0)"
    by (rule late_call [OF Drain_no_disk _ u3 assms [unfolded eq]]) auto
  obtain y t1 where t1: "prefix t0 t1" "?c \<in> set (new_calls (andThen (removeMember E t info eid) tail) t1)"
    by (rule late_call [OF quiet(1) _ u2 t0(2)]) auto
  obtain z t2 where t2: "removeMember E t info eid t1 = (Ret z, t2)" "?c \<in> set (new_calls (tail z) t2)"
    by (rule late_call [OF quiet(2) _ u t1(2)]) auto
  have "z = None" using t2(2) by (cases z) (auto simp: new_calls_def tail_def)
  with t2 t1(1) t0(1) show ?thesis
    by (intro that [of t1 t2]) (auto simp: tail_def intro: prefix_order.trans)
qed

lemma Reset_stages:
  assumes "PReplaceSystemDisk i d \<in> set (new_calls (Reset E t info) tr)"
  obtains eid t1 t2 t3 where "ni_Instance info = Some eid"
    and "After E (ins_CreatedAt eid) AdmitCreateThrottleTime tr = (Ret True, t1)"
    and "AdmitECS E info AdmitECSThrottleTime t1 = (Ret True, t2)"
    and "AdmitNode E info AdmitNodeThrottleTime t2 = (Ret True, t3)"
    and "PReplaceSystemDisk i d \<in> set (new_calls (drainAndReinstall E t info eid) t3)"
proof (cases "ni_Instance info")
  case None
  with assms show ?thesis by (simp add: Reset_def deref_def new_calls_def)
next
  case (Some eid)
  let ?c = "PReplaceSystemDisk i d"
  define retry :: "gerr option eff" where "retry = ret (Some (retryError (NewRetry (1 * Minute))))"
  define node where "node = andThen (AdmitNode E info AdmitNodeThrottleTime)
    (\<lambda>adm. if \<not> adm then retry else drainAndReinstall E t info eid)"
  define ecs where "ecs = andThen (AdmitECS E info AdmitECSThrottleTime)
    (\<lambda>ok. if \<not> ok then retry else node)"
  define throttle where "throttle = andThen (Sleep (1 * Minute)) (\<lambda>_. retry)"
  have quiet: "emits no_disk retry" "emits no_disk throttle"
    unfolding retry_def throttle_def by (intro emits_intro; simp)+
  note any = drainAndReinstall_emits [OF Some, THEN emits_mono, OF subset_UNIV]
    quiet [THEN emits_mono, OF subset_UNIV] AdmitECS_no_disk [THEN emits_mono, OF subset_UNIV]
  have u: "emits UNIV node" unfolding node_def by (intro emits_intro any) simp
  have u2: "emits UNIV ecs" unfolding ecs_def by (intro emits_intro any u)
  have eq: "Reset E t info = andThen (After E (ins_CreatedAt eid) AdmitCreateThrottleTime)
      (\<lambda>old. if \<not> old then throttle else ecs)"
    unfolding Reset_def Some deref_def option.case andThen_ret throttle_def ecs_def node_def retry_def
    by (rule refl)
  obtain t1 where t1: "After E (ins_CreatedAt eid) AdmitCreateThrottleTime tr = (Ret True, t1)"
    "?c \<in> set (new_calls ecs t1)"
    by (rule late_guard [OF After_reads quiet(2) _ u2 assms [unfolded eq]]) auto
  obtain t2 where t2: "AdmitECS E info AdmitECSThrottleTime t1 = (Ret True, t2)"
    "?c \<in> set (new_calls node t2)"
    by (rule late_guard [OF AdmitECS_no_disk quiet(1) _ u t1(2) [unfolded ecs_def]]) auto
  obtain t3 where t3: "AdmitNode E info AdmitNodeThrottleTime t2 = (Ret True, t3)"
    "?c \<in> set (new_calls (drainAndReinstall E t info eid) t3)"
    by (rule late_guard [OF AdmitNode_reads quiet(1) _ any(1) t2(2) [unfolded node_def]]) auto
  from Some t1(1) t2(1) t3 show ?thesis by (rule that)
qed

lemma reinstall_calls:
  assumes "c \<in> set (new_calls (reinstall E role eid) tr)" and "c = PReplaceSystemDisk i d"
  shows "i = ins_Id eid"
proof -
  let ?A = "{c. \<forall>i d. c = PReplaceSystemDisk i d \<longrightarrow> i = ins_Id eid}"
  have "emits ?A (reinstall E role eid)" unfolding reinstall_def by (intro emits_intro) auto
  from emits_new_calls [OF this, of tr] assms show ?thesis by auto
qed

lemma reinstall_success:
  assumes "reinstall E role eid tr = (Ret None, tr')"
  shows "\<exists>data. e_userdata E tr role = Inr data \<and>
    (let t1 = tr @ [PUserData role]; t2 = t1 @ [PReplaceSystemDisk (ins_Id eid) data];
         v = \<lparr>val_Key = WdripLastUpdate, val_Val = VStr (e_format_time E (e_now E t2))\<rparr>;
         t3 = t2 @ [CNow, PTagECS (ins_Id eid) v]
     in e_err E t1 (PReplaceSystemDisk (ins_Id eid) data) = None \<and>
        WaitHeartbeat E (ins_Ip eid @ ''.'' @ ins_Id eid) (3 * Minute) t3 = (Ret None, tr'))"
proof -
  from assms obtain data where d: "e_userdata E tr role = Inr data"
    by (auto simp: reinstall_def andThen_perform split: sum.splits)
  with assms have ok: "e_err E (tr @ [PUserData role]) (PReplaceSystemDisk (ins_Id eid) data) = None"
    by (auto simp: reinstall_def do_call_def Sleep_def andThen_perform split: option.splits)
  from d ok assms show ?thesis
    by (auto simp: reinstall_def do_call_def Now_def now_def andThen_perform andThen_assoc andThen_Ret_iff
      Let_def split: option.splits)
qed

text \<open>The disk of an unready node: its \<^verbatim>\<open>Ready\<close> condition is there and is not true.\<close>

lemma not_ready_condition:
  assumes "\<not> NodeReady node" and "distinct (map nc_Type (node_Conditions node))"
  shows "nc_Type (findCondition (node_Conditions node) ''Ready'') = ''Ready'' \<and>
    nc_Status (findCondition (node_Conditions node) ''Ready'') \<noteq> ''True''"
proof -
  from assms(1) obtain c where c: "c \<in> set (node_Conditions node)" "nc_Type c = ''Ready''"
    "nc_Status c \<noteq> ''True''" by (auto simp: NodeReady_iff condsReady_iff)
  from c(1,2) obtain c' where c': "find (\<lambda>c. nc_Type c = ''Ready'') (node_Conditions node) = Some c'"
    by (cases "find (\<lambda>c. nc_Type c = ''Ready'') (node_Conditions node)") (auto simp: find_None)
  from find_Some_iff [OF c'] c(1,2) assms(2) have "c' = c" by (auto simp: distinct_map inj_on_def)
  with c c' show ?thesis by (simp add: findCondition_def)
qed

text \<open>A patch of the labels is empty exactly when the labels are the same.\<close>

lemma fold_put_Nil: "fold (\<lambda>(k, v) m. put m k v) lbl m = [] \<Longrightarrow> m = []"
proof (induction lbl arbitrary: m)
  case (Cons a lbl)
  then have "put m (fst a) (snd a) = []" by (auto simp: case_prod_unfold)
  then show ?case by (cases m) (auto split: if_splits)
qed simp

lemma labels_view:
  assumes "om_Labels (node_Meta cur) = Some m"
  shows "json_view (ONode cur) = json_view (ONode (cur\<lparr>node_Meta := (node_Meta cur)\<lparr>om_Labels :=
      Some (fold (\<lambda>(k, v) m. put m k v) lbl m)\<rparr>\<rparr>)) \<longleftrightarrow> fold (\<lambda>(k, v) m. put m k v) lbl m = m"
proof -
  let ?m = "fold (\<lambda>(k, v) m. put m k v) lbl m"
  have "json_view (ONode cur) = json_view (ONode (cur\<lparr>node_Meta := (node_Meta cur)\<lparr>om_Labels := Some ?m\<rparr>\<rparr>)) \<longleftrightarrow>
      json_meta (node_Meta cur) = json_meta ((node_Meta cur)\<lparr>om_Labels := Some ?m\<rparr>)"
    by (cases cur) auto
  also have "\<dots> \<longleftrightarrow> om_Labels (json_meta (node_Meta cur)) = om_Labels (json_meta ((node_Meta cur)\<lparr>om_Labels := Some ?m\<rparr>))"
    by (cases "node_Meta cur") (simp add: json_meta_def)
  also have "\<dots> \<longleftrightarrow> ?m = m"
    using assms fold_put_Nil [of lbl m] by (auto simp: json_meta_def)
  finally show ?thesis .
qed

section \<open>Properties\<close>

text \<open>The examples: an instance tagged long ago, a ready node for it, and a cluster whose etcd answers.\<close>

definition tagged0 :: Instance where
  "tagged0 = (instance0 ''i-1'' ''10.0.0.1'')\<lparr>ins_Tags :=
     [\<lparr>val_Key = ''zone'', val_Val = VNil\<rparr>, \<lparr>val_Key = WdripLastUpdate, val_Val = VStr ''t''\<rparr>]\<rparr>"

definition info0 :: "bool \<Rightarrow> NodeInfo" where
  "info0 ready = \<lparr>ni_Role = JoinMasterUserdata, ni_Instance = Some tagged0,
     ni_Node = Some (node0 ''n1'' ''cn.i-1'' ready), ni_Resource = None, ni_GetName = None\<rparr>"

definition triple0 :: Triple where
  "triple0 = \<lparr>tri_role = JoinMasterUserdata, tri_cluster = cluster0,
     tri_mCRDs = [master0 ''m1'' ''cn.i-1'' ''10.0.0.1'', master0 ''m2'' ''cn.i-2'' ''10.0.0.2''],
     tri_mnodes = [], tri_instances = [tagged0], tri_nodeInfo = [info0 False]\<rparr>"

definition heal_env :: env where
  "heal_env = etcd_env\<lparr>e_node := (\<lambda>tr n. Inr (node0 n ''cn.i-1'' True))\<rparr>"

text \<open>
  C2: \<^verbatim>\<open>Reset\<close> replaces a system disk only when every guard held: the disk is that of the info's own
  instance; by the clock the instance was created more than five minutes ago and was last reinstalled
  (its \<^verbatim>\<open>wdrip.last.update.time\<close> tag, which must be there) more than three minutes ago; and for a
  master the removal of its etcd member had succeeded before.
\<close>

theorem Reset_replaces_only_admitted:
  assumes "PReplaceSystemDisk i d \<in> set (new_calls (Reset E t info) tr)"
  shows "\<exists>eid. ni_Instance info = Some eid \<and> i = ins_Id eid \<and>
    (\<exists>me. e_parse_time E (ins_CreatedAt eid) = Some me \<and> e_now E tr > me + 5 * Minute) \<and>
    (\<exists>v s me t1. v \<in> set (ins_Tags eid) \<and> val_Key v = WdripLastUpdate \<and> val_Val v = VStr s \<and>
       e_parse_time E s = Some me \<and> prefix tr t1 \<and> e_now E t1 > me + 3 * Minute) \<and>
    (ni_Role info = JoinMasterUserdata \<longrightarrow>
       (\<exists>t1 t2. removeEtcd E t (ins_Ip eid) t1 = (Ret None, t2)))"
proof -
  from Reset_stages [OF assms] obtain eid t1 t2 t3 where eid: "ni_Instance info = Some eid"
    and old: "After E (ins_CreatedAt eid) AdmitCreateThrottleTime tr = (Ret True, t1)"
    and ecs: "AdmitECS E info AdmitECSThrottleTime t1 = (Ret True, t2)"
    and c: "PReplaceSystemDisk i d \<in> set (new_calls (drainAndReinstall E t info eid) t3)" by metis
  from drainAndReinstall_stages [OF c] obtain t4 t5 where
    mem: "removeMember E t info eid t4 = (Ret None, t5)" and
    r: "PReplaceSystemDisk i d \<in> set (new_calls (reinstall E (ni_Role info) eid) t5)" by metis
  from After_True [OF old] have "\<exists>me. e_parse_time E (ins_CreatedAt eid) = Some me \<and>
      e_now E tr > me + 5 * Minute" and pre: "prefix tr t1"
    by (auto simp: AdmitCreateThrottleTime_def)
  moreover from AdmitECS_True [OF ecs eid] pre
  have "\<exists>v s me t1. v \<in> set (ins_Tags eid) \<and> val_Key v = WdripLastUpdate \<and> val_Val v = VStr s \<and>
       e_parse_time E s = Some me \<and> prefix tr t1 \<and> e_now E t1 > me + 3 * Minute"
    unfolding AdmitECSThrottleTime_def by (meson prefix_order.trans)
  moreover have "ni_Role info = JoinMasterUserdata \<longrightarrow>
       (\<exists>t1 t2. removeEtcd E t (ins_Ip eid) t1 = (Ret None, t2))"
    using mem by (intro impI exI) (simp add: removeMember_def)
  ultimately show ?thesis using eid reinstall_calls [OF r refl] by metis
qed

theorem Reset_replaces_only_admitted_witness:
  "PReplaceSystemDisk ''i-1'' ''userdata'' \<in> set (new_calls (Reset heal_env triple0 (info0 True)) []) \<and>
   (\<exists>eid. ni_Instance (info0 True) = Some eid \<and> ''i-1'' = ins_Id eid \<and>
     (\<exists>t1 t2. removeEtcd heal_env triple0 (ins_Ip eid) t1 = (Ret None, t2)))"
proof -
  have c: "PReplaceSystemDisk ''i-1'' ''userdata'' \<in> set (new_calls (Reset heal_env triple0 (info0 True)) [])"
    by code_simp
  have "ni_Role (info0 True) = JoinMasterUserdata" by (simp add: info0_def)
  with Reset_replaces_only_admitted [OF c] c show ?thesis by metis
qed

text \<open>
  C22: an unready node is never reinstalled. \<^verbatim>\<open>AdmitNode\<close> answers whether the node is ready, and
  \<^verbatim>\<open>Reset\<close> goes on only when it answers true; so for every info the healing centre lists as
  unready, \<^verbatim>\<open>Reset\<close> does not replace the disk it is asked to replace.
\<close>

theorem Reset_never_repairs_unready:
  assumes "info \<in> set (UnReadyNodeList t)"
    and "\<And>node. ni_Node info = Some node \<Longrightarrow> distinct (map nc_Type (node_Conditions node))"
  shows "PReplaceSystemDisk i d \<notin> set (new_calls (Reset E t' info) tr)"
proof
  assume "PReplaceSystemDisk i d \<in> set (new_calls (Reset E t' info) tr)"
  from Reset_stages [OF this] obtain t2 t3 where
    adm: "AdmitNode E info AdmitNodeThrottleTime t2 = (Ret True, t3)" by metis
  from assms(1) obtain node where node: "ni_Node info = Some node" "\<not> NodeReady node"
    by (auto simp: UnReadyNodeList_def split: option.splits)
  from not_ready_condition [OF node(2) assms(2) [OF node(1)]] AdmitNode_True [OF adm node(1)]
  show False by blast
qed

theorem Reset_never_repairs_unready_witness:
  "info0 False \<in> set (UnReadyNodeList triple0) \<and>
   PReplaceSystemDisk ''i-1'' ''userdata'' \<notin> set (new_calls (Reset heal_env triple0 (info0 False)) [])"
proof -
  have u: "info0 False \<in> set (UnReadyNodeList triple0)" by code_simp
  have "distinct (map nc_Type (node_Conditions node))" if "ni_Node (info0 False) = Some node" for node
    using that by (auto simp: info0_def node0_def)
  from Reset_never_repairs_unready [OF u this] u show ?thesis by blast
qed

text \<open>
  C21: when the repair of a machine reports success, its user data was fetched for the role, its disk
  was replaced with exactly that data and without error, the time tag was set to the time after the
  replacement, and the node \<^verbatim>\<open>ip.id\<close> was then seen ready.
\<close>

theorem Reset_success_reinstalls:
  assumes "Reset E t info tr = (Ret None, tr')"
  shows "\<exists>eid data t0 t1. ni_Instance info = Some eid \<and> e_userdata E t0 (ni_Role info) = Inr data \<and>
    e_err E (t0 @ [PUserData (ni_Role info)]) (PReplaceSystemDisk (ins_Id eid) data) = None \<and>
    prefix (t0 @ [PUserData (ni_Role info), PReplaceSystemDisk (ins_Id eid) data, CNow,
      PTagECS (ins_Id eid) \<lparr>val_Key = WdripLastUpdate, val_Val = VStr (e_format_time E (e_now E
        (t0 @ [PUserData (ni_Role info), PReplaceSystemDisk (ins_Id eid) data])))\<rparr>]) t1 \<and>
    ready_at E (ins_Ip eid @ ''.'' @ ins_Id eid) t1 \<and> strict_prefix t1 tr'"
proof -
  from assms obtain eid t0 where eid: "ni_Instance info = Some eid"
    and r: "reinstall E (ni_Role info) eid t0 = (Ret None, tr')"
    by (auto simp: Reset_def drainAndReinstall_def andThen_Ret_iff deref_def
      split: if_splits option.splits)
  from reinstall_success [OF r] obtain data t where data: "e_userdata E t0 (ni_Role info) = Inr data"
      "e_err E (t0 @ [PUserData (ni_Role info)]) (PReplaceSystemDisk (ins_Id eid) data) = None"
    and t: "t = t0 @ [PUserData (ni_Role info), PReplaceSystemDisk (ins_Id eid) data, CNow,
      PTagECS (ins_Id eid) \<lparr>val_Key = WdripLastUpdate, val_Val = VStr (e_format_time E (e_now E
        (t0 @ [PUserData (ni_Role info), PReplaceSystemDisk (ins_Id eid) data])))\<rparr>]"
    and w: "WaitHeartbeat E (ins_Ip eid @ ''.'' @ ins_Id eid) (3 * Minute) t = (Ret None, tr')"
    by (auto simp: Let_def)
  from WaitHeartbeat_done [OF w] obtain t1 where "prefix t t1"
    "steady E (ins_Ip eid @ ''.'' @ ins_Id eid) (Suc 2) t1 = (Ret (True, None), tr')"
    by (auto simp: numeral_3_eq_3 numeral_2_eq_2)
  with steady_done [OF this(2)] have "ready_at E (ins_Ip eid @ ''.'' @ ins_Id eid) t1"
    "strict_prefix t1 tr'"
    using steady_reads [of UNIV E "ins_Ip eid @ ''.'' @ ins_Id eid" 2]
    by (auto dest: emits_prefix intro: prefix_order.less_le_trans)
  with eid data \<open>prefix t t1\<close> show ?thesis unfolding t by blast
qed

theorem Reset_success_reinstalls_witness:
  "fst (Reset heal_env triple0 (info0 True) []) = Ret None \<and>
   (\<exists>eid t1. ni_Instance (info0 True) = Some eid \<and> ready_at heal_env (ins_Ip eid @ ''.'' @ ins_Id eid) t1 \<and>
      strict_prefix t1 (snd (Reset heal_env triple0 (info0 True) [])))"
proof -
  have ok: "fst (Reset heal_env triple0 (info0 True) []) = Ret None" by code_simp
  then have "Reset heal_env triple0 (info0 True) [] = (Ret None, snd (Reset heal_env triple0 (info0 True) []))"
    by (metis prod.collapse)
  from Reset_success_reinstalls [OF this] ok show ?thesis by metis
qed

text \<open>
  What \<^verbatim>\<open>LabelNode\<close> writes, when the objects can be marshalled: on a node that has a label map, one
  patch with the new labels put into that map (none if they are all there already); on a node without
  labels nothing at all, although the call succeeds.
\<close>

lemma LabelNode_writes_labels:
  assumes "GetNodeName info tr = (Ret name, tr)" and "e_node E tr name = Inr node"
    and "e_node E (tr @ [KGetNode name]) (node_Name node) = Inr cur"
    and "\<And>x. e_marshal E x = None" and "\<And>x y. e_merge_patch E x y = None"
  shows "filter mutating (new_calls (LabelNode E info lbl) tr) = (case om_Labels (node_Meta cur) of
       None \<Rightarrow> []
     | Some m \<Rightarrow> let m' = fold (\<lambda>(k, v) m. put m k v) lbl m
         in if m' = m then [] else [KPatch (ONode (cur\<lparr>node_Meta := (node_Meta cur)\<lparr>om_Labels := Some m'\<rparr>\<rparr>))]) \<and>
    (om_Labels (node_Meta cur) = None \<longrightarrow> fst (LabelNode E info lbl tr) = Ret None)"
proof -
  have run: "LabelNode E info lbl tr =
      Patch E (ONode node) (labelSetter lbl) PatchSpec (tr @ [KGetNode name])"
    by (simp add: LabelNode_def andThen_apply [where m = "GetNodeName info", OF assms(1)] Node_get_def andThen_perform assms(2))
  have "om_Labels (node_Meta cur) = None \<longrightarrow> fst (LabelNode E info lbl tr) = Ret None"
    unfolding run by (simp add: Patch_def get_obj_def Let_def andThen_perform assms labelSetter_def)
  then show ?thesis
    unfolding new_calls_def run
    by (cases "om_Labels (node_Meta cur)")
      (simp_all add: Patch_def get_obj_def andThen_perform assms labelSetter_def Let_def
        send_patch_def do_call_def run_simps labels_view del: json_view.simps split: option.split)
qed

end
