(* ===== verification/Healet.thy ===== *)
theory Healet
  imports Operation
begin

text \<open>
  \<^verbatim>\<open>pkg/operator/heal/healet.go\<close>: the healing centre. It compares the three views of the control
  plane or of a node pool and repairs the differences: it deletes resources whose machine is gone,
  creates missing \<^verbatim>\<open>Master\<close> resources, removes stale etcd members, and repairs one machine per
  round. The field \<^verbatim>\<open>isCtrlPlanInChecking\<close> is shared memory: writing and reading it are calls. The
  loop over the event channels is in the theory \<open>Heal_Loop\<close>.
\<close>

section \<open>State\<close>

record Healet =
  hl_tripGetter :: TripleGetter
  hl_operation :: Manager
  hl_infra :: InfraManager
  hl_state :: string
  hl_initSpec :: Cluster

definition StateClean :: string where "StateClean = ''Clean''"
definition StateDirty :: string where "StateDirty = ''Healthy''"

definition NewHealet :: "env \<Rightarrow> Cluster option \<Rightarrow> (gerr + Healet) eff" where
  "NewHealet E spec =
     andThen (case spec of
         Some s \<Rightarrow> ret (Inr s)
       | None \<Rightarrow> andThen (Cluster_get E KUBERNETES_CLUSTER) (\<lambda>r. case r of
           Inl e \<Rightarrow> ret (Inl (Wrap e ''find cluster spec''))
         | Inr s \<Rightarrow> ret (Inr s))) (\<lambda>r. case r of
       Inl e \<Rightarrow> ret (Inl e)
     | Inr spec \<Rightarrow> andThen (NewInfraManager E spec) (\<lambda>r. case r of
         Inl e \<Rightarrow> ret (Inl (Wrap e ''new infra manager''))
       | Inr infra \<Rightarrow> ret (Inr \<lparr>hl_tripGetter = wTripleGetter E infra, hl_operation = operationMgr E,
           hl_infra = infra, hl_state = [], hl_initSpec = im_spec infra\<rparr>)))"

definition healetString :: "Healet \<Rightarrow> string" where
  "healetString m = ''member heal: '' @ hl_state m"

definition Healthy :: "env \<Rightarrow> Healet \<Rightarrow> bool eff" where
  "Healthy E m = andThen (NewTripleMaster E (hl_tripGetter m)) (\<lambda>r. case r of
     Inl e \<Rightarrow> ret False
   | Inr trip \<Rightarrow> ret (SystemInConsistency trip))"

definition mark :: "Healet \<Rightarrow> string \<Rightarrow> Healet" where
  "mark m state = m\<lparr>hl_state := state\<rparr>"

section \<open>Default resources\<close>

definition defaultMasterSet :: MasterSet where
  "defaultMasterSet = \<lparr>mset_Meta = zeroMeta\<lparr>om_Name := ''masterset'', om_Namespace := ''kube-system''\<rparr>,
     mset_Replicas = 1, mset_InstanceIDS = [], mset_BootCFG = None\<rparr>"

definition defaultNodePool :: NodePool where
  "defaultNodePool = \<lparr>
     np_Meta = zeroMeta\<lparr>om_Name := ''default-nodepool'', om_Namespace := ''kube-system''\<rparr>,
     np_Spec = \<lparr>nps_NodePoolID = ''default-nodepool'', nps_AutoHeal = False,
       nps_Infra = \<lparr>inf_DesiredCapacity = 0, inf_ImageId = ''centos_7_9_x64_20G_alibase_20210623.vhd'',
         inf_CPU = 4, inf_Mem = 8, inf_Tags = None, inf_Bind = None\<rparr>\<rparr>\<rparr>"

definition InitializeDefaultCR :: "env \<Rightarrow> unit eff" where
  "InitializeDefaultCR E =
     andThen (perform (KGetMasterSet [] ''masterset'') (\<lambda>tr. e_masterset E tr [] ''masterset'')) (\<lambda>r.
     andThen (case r of
         Inl e \<Rightarrow> if IsNotFound e then andThen (do_call E (KCreate (OMasterSet defaultMasterSet))) (\<lambda>_. ret ())
                  else ret ()
       | Inr _ \<Rightarrow> ret ()) (\<lambda>_.
     andThen (perform (KGetNodePool [] ''default-nodepool'')
       (\<lambda>tr. e_nodepool E tr [] ''default-nodepool'')) (\<lambda>r. case r of
         Inl e \<Rightarrow> if IsNotFound e then andThen (do_call E (KCreate (ONodePool defaultNodePool))) (\<lambda>_. ret ())
                  else ret ()
       | Inr _ \<Rightarrow> ret ())))"

section \<open>Etcd followers\<close>

text \<open>
  \<^verbatim>\<open>leader.Cmp(memid) == 0\<close> on \<^verbatim>\<open>*big.Int\<close>: equal pointers, so also two nil ones, compare equal;
  one nil pointer panics.
\<close>

definition CmpEq :: "int option \<Rightarrow> int option \<Rightarrow> bool eff" where
  "CmpEq x y = (case (x, y) of
     (None, None) \<Rightarrow> ret True
   | (Some i, Some j) \<Rightarrow> ret (i = j)
   | _ \<Rightarrow> panic nil_deref)"

fun removeFirstFollower :: "env \<Rightarrow> Etcd \<Rightarrow> EndpointStatus list \<Rightarrow> (string \<times> gerr option) eff" where
  "removeFirstFollower E metcd [] = ret ([], Some (Errorf ''empty endpoint: ''))"
| "removeFirstFollower E metcd (end # endps) =
     (let memid = hdr_MemberID (st_Header (es_Status end))
      in andThen (CmpEq (st_Leader (es_Status end)) memid) (\<lambda>eq.
        if eq then removeFirstFollower E metcd endps
        else andThen (RemoveMember E metcd (zeroMember\<lparr>mem_ID := memid\<rparr>)) (\<lambda>err. case err of
            Some e \<Rightarrow> ret (es_Endpoint end, Some (Errorf (''remove member: '' @
              (case memid of None \<Rightarrow> ''<nil>'' | Some i \<Rightarrow> hexInt i) @ '', '' @ err_msg e)))
          | None \<Rightarrow> ret (es_Endpoint end, None))))"

definition RemoveFollower :: "env \<Rightarrow> (string \<times> gerr option) eff" where
  "RemoveFollower E = andThen (MasterCRDS E) (\<lambda>r. case r of
     Inl e \<Rightarrow> ret ([], Some (Errorf (''member master: '' @ err_msg e)))
   | Inr masters \<Rightarrow> andThen (Cluster_get E KUBERNETES_CLUSTER) (\<lambda>r. case r of
     Inl e \<Rightarrow> ret ([], Some (Errorf (''member: spec not found,'' @ err_msg e)))
   | Inr spec \<Rightarrow> andThen (NewEtcdFromCRD E masters spec ETCD_TMP) (\<lambda>r. case r of
     Inl e \<Rightarrow> ret ([], Some (Errorf (''new etcd: '' @ err_msg e)))
   | Inr metcd \<Rightarrow> andThen (Endpoints E metcd) (\<lambda>r. case r of
     Inl e \<Rightarrow> ret ([], Some (Errorf (''endpoint status fail: '' @ err_msg e)))
   | Inr endps \<Rightarrow>
       if length endps \<noteq> 2
       then ret ([], Some (Errorf ''remove follower can only work with 2 etcd member''))
       else if length endps = 1 then ret ([], None)
       else removeFirstFollower E metcd endps))))"

section \<open>Repairing one machine\<close>

definition randn :: "env \<Rightarrow> nat \<Rightarrow> nat eff" where
  "randn E n = (if n \<le> 1 then ret 0 else Intn E (n - 1))"

definition masterLabels :: labels where
  "masterLabels = [(''node-role.kubernetes.io/master'', []), (''node-role.kubernetes.io/control-plane'', [])]"

definition fixUpSoft :: "Operation \<Rightarrow> NodeInfo \<Rightarrow> gerr option eff" where
  "fixUpSoft nop info = andThen (deref (ni_Instance info)) (\<lambda>_.
     andThen (op_RunCommand nop info ''systemctl restart kubelet'') (\<lambda>err. case err of
       None \<Rightarrow> ret None
     | Some _ \<Rightarrow> andThen (op_Restart nop info) (\<lambda>err. case err of
         None \<Rightarrow> ret None
       | Some _ \<Rightarrow> andThen (op_Reset nop info) (\<lambda>_. ret None))))"

definition fixUpHard :: "Operation \<Rightarrow> NodeInfo \<Rightarrow> gerr option eff" where
  "fixUpHard nop info = andThen (deref (ni_Instance info)) (\<lambda>_.
     andThen (op_RunCommand nop info ''systemctl restart kubelet'') (\<lambda>err. case err of
       None \<Rightarrow> if ni_Role info \<noteq> JoinMasterUserdata then ret None
               else op_LabelNode nop info masterLabels
     | Some _ \<Rightarrow> andThen (op_Reset nop info) (\<lambda>_. ret None)))"

section \<open>The three repair steps\<close>

text \<open>The loop over the infos creates what it can; a failed creation is only logged.\<close>

definition masterOf :: "Node \<Rightarrow> string \<Rightarrow> Master" where
  "masterOf node ip = \<lparr>m_Meta = zeroMeta\<lparr>om_Name := node_ProviderID node\<rparr>,
     m_Spec = \<lparr>ms_IP = ip, ms_ID = node_ProviderID node, ms_Role = ''Hybrid''\<rparr>,
     m_Status = zeroMasterStatus\<rparr>"

definition FixMasterCRD :: "env \<Rightarrow> NodeInfo list \<Rightarrow> gerr option eff" where
  "FixMasterCRD E nodes = forM nodes (\<lambda>n. andThen (deref (ni_Node n)) (\<lambda>node.
     case node_Addresses node of
       [] \<Rightarrow> panic out_of_range
     | ip # _ \<Rightarrow> andThen (do_call E (KCreate (OMaster (masterOf node ip)))) (\<lambda>_. ret None)))"

definition FixUpMeta :: "env \<Rightarrow> Triple \<Rightarrow> gerr option eff" where
  "FixUpMeta E trip = (case MasterCRDDiff trip of (deletions, missed) \<Rightarrow>
     andThen (forM deletions (\<lambda>d. andThen (deref (ni_Resource d)) (\<lambda>m.
       andThen (do_call E (KDelete (OMaster m))) (\<lambda>err. case err of
         Some e \<Rightarrow> ret (Some (Errorf (''remove master object: '' @ err_msg e)))
       | None \<Rightarrow> ret None)))) (\<lambda>err. case err of
         Some e \<Rightarrow> ret (Some e)
       | None \<Rightarrow> FixMasterCRD E missed))"

definition removeStale :: "env \<Rightarrow> Etcd \<Rightarrow> Member list \<Rightarrow> gerr option eff" where
  "removeStale E metcd mems = forM mems (\<lambda>m. andThen (RemoveMember E metcd m) (\<lambda>err. case err of
     Some e \<Rightarrow> ret (Some (Errorf (''member center: remove member, '' @ err_msg e)))
   | None \<Rightarrow> ret None))"

definition FixUpEtcd :: "env \<Rightarrow> Triple \<Rightarrow> gerr option eff" where
  "FixUpEtcd E trip =
     (if tri_mCRDs trip = [] then ret (Some (Errorf ''empty master: abort etcd fix''))
      else andThen (NewEtcdFromCRD E (tri_mCRDs trip) (tri_cluster trip) ETCD_TMP) (\<lambda>r. case r of
        Inl e \<Rightarrow> ret (Some (Errorf (''new etcd: '' @ err_msg e)))
      | Inr metcd \<Rightarrow> andThen (MemberList E metcd) (\<lambda>(err, mems). case err of
          Some e \<Rightarrow> ret (Some (Errorf (''clean up etcd: member '' @ err_msg e)))
        | None \<Rightarrow> removeStale E metcd (EtcdMemDiff trip mems))))"

text \<open>The choice of the one machine to repair: the first without a node, or a random unready one.\<close>

definition repairOne :: "env \<Rightarrow> Operation \<Rightarrow> Triple \<Rightarrow> NodeInfo list \<Rightarrow> gerr option eff" where
  "repairOne E nop trip addition = (case addition of
     [] \<Rightarrow> (let info = UnReadyNodeList trip
            in if info = [] then ret None
               else andThen (randn E (length info)) (\<lambda>i. fixUpHard nop (info ! i)))
   | noinfo # _ \<Rightarrow> andThen (GetNodeName noinfo) (\<lambda>_. fixUpHard nop noinfo))"

definition FixUpNode :: "env \<Rightarrow> Healet \<Rightarrow> Triple \<Rightarrow> gerr option eff" where
  "FixUpNode E m trip = (case InstanceNodeDiff trip of (addition, deletion) \<Rightarrow>
     andThen (forM deletion (\<lambda>n. andThen (deref (ni_Node n)) (\<lambda>node.
       andThen (do_call E (KDelete (ONode node))) (\<lambda>err. case err of
         Some e \<Rightarrow> ret (Some (Errorf (''clean up node: '' @ err_msg e)))
       | None \<Rightarrow> ret None)))) (\<lambda>err. case err of
         Some e \<Rightarrow> ret (Some e)
       | None \<Rightarrow> andThen (mgr_NewOperation (hl_operation m) trip) (\<lambda>r. case r of
           Inl e \<Rightarrow> ret (Some (Wrap e ''new node operation: ''))
         | Inr nop \<Rightarrow> repairOne E nop trip addition)))"

section \<open>Node pools\<close>

text \<open>The nodes of the pool's instances that do not carry the pool's label.\<close>

fun unlabelled :: "Node list \<Rightarrow> string \<Rightarrow> Instance list \<Rightarrow> Node list" where
  "unlabelled nodes pool [] = []"
| "unlabelled nodes pool (d # ds) =
     (case find (\<lambda>n. contains (node_ProviderID n) (ins_Id d)) nodes of
        None \<Rightarrow> unlabelled nodes pool ds
      | Some n \<Rightarrow> if \<not> HasNodePoolID n pool then n # unlabelled nodes pool ds
                  else unlabelled nodes pool ds)"

definition poolSetter :: "string \<Rightarrow> Setter" where
  "poolSetter pool copy = (case copy of
     ONode node \<Rightarrow> Ret (Inr (ONode (node\<lparr>node_Meta := (node_Meta node)\<lparr>om_Labels := Some (put
         (case om_Labels (node_Meta node) of None \<Rightarrow> [] | Some l \<Rightarrow> l) ''np.wdrip.io/id'' pool)\<rparr>\<rparr>)))
   | _ \<Rightarrow> Panic ''interface conversion: runtime.Object is not *v1.Node'')"

definition FixNodePool :: "env \<Rightarrow> Healet \<Rightarrow> NodePool \<Rightarrow> gerr option eff" where
  "FixNodePool E m pool = andThen (perform CGetChecking (e_checking E)) (\<lambda>checking.
     if checking then ret (Some (Errorf (''control plane is in checking, wait for next tick to fix node pool: '' @
       np_Name pool)))
     else andThen (GetNodePoolECS (hl_tripGetter m) pool) (\<lambda>r. case r of
       Inl e \<Rightarrow> ret (Some (Wrap e ''get nodepool ecs''))
     | Inr detail \<Rightarrow> andThen (NodeItems E) (\<lambda>r. case r of
       Inl e \<Rightarrow> ret (Some (Wrap e ''get all nodes''))
     | Inr nodes \<Rightarrow> andThen (range_map E detail) (\<lambda>ds.
       andThen (forM (unlabelled nodes (np_Name pool) (map snd ds)) (\<lambda>n.
         andThen (Patch E (ONode n) (poolSetter (np_Name pool)) PatchSpec) (\<lambda>err. case err of
           Some e \<Rightarrow> ret (Some (Wrap e ''patch nodepool labels''))
         | None \<Rightarrow> ret None))) (\<lambda>err. case err of
           Some e \<Rightarrow> ret (Some e)
         | None \<Rightarrow> andThen (NewTripleWorker E (hl_tripGetter m) pool) (\<lambda>r. case r of
             Inl e \<Rightarrow> ret (Some (Wrap e ''get Triple''))
           | Inr trip \<Rightarrow> FixUpNode E m trip))))))"

section \<open>The control plane\<close>

text \<open>The body of \<^verbatim>\<open>FixMasterNode\<close> and the lock around it; the deferred calls run in reverse order.\<close>

definition fixMaster :: "env \<Rightarrow> Healet \<Rightarrow> gerr option eff" where
  "fixMaster E m = andThen (NewTripleMaster E (hl_tripGetter m)) (\<lambda>r. case r of
     Inl e \<Rightarrow> ret (Some (Wrap e ''get Triple''))
   | Inr trip \<Rightarrow> andThen (FixUpMeta E trip) (\<lambda>err. case err of
       Some e \<Rightarrow> ret (Some (Errorf (''master repair: clean up meta faild, '' @ err_msg e)))
     | None \<Rightarrow> andThen (FixUpEtcd E trip) (\<lambda>err. case err of
         Some e \<Rightarrow> ret (Some (Errorf (''sync, etcd: '' @ err_msg e)))
       | None \<Rightarrow> FixUpNode E m trip)))"

definition FixMasterNode :: "env \<Rightarrow> Healet \<Rightarrow> gerr option eff" where
  "FixMasterNode E m = andThen (perform (CLock ''healet'') (\<lambda>_. ())) (\<lambda>_. with_defer
     (andThen (perform (CSetChecking True) (\<lambda>_. ())) (\<lambda>_. with_defer (fixMaster E m) (CSetChecking False)))
     (CUnlock ''healet''))"

definition FixWDRIP :: "env \<Rightarrow> Healet \<Rightarrow> gerr option eff" where
  "FixWDRIP E m =
     andThen (perform (KGetDeployment ''kube-system'' ''wdrip'')
       (\<lambda>tr. e_ready_replicas E tr ''kube-system'' ''wdrip'')) (\<lambda>r. case r of
       Inl e \<Rightarrow> ret None
     | Inr ready \<Rightarrow> if ready \<noteq> 0 then ret None
       else andThen (NewTripleMaster E (hl_tripGetter m)) (\<lambda>r. case r of
         Inl e \<Rightarrow> ret (Some (Wrap e ''get Triple''))
       | Inr trip \<Rightarrow> andThen (FixUpMeta E trip) (\<lambda>err. case err of
           Some e \<Rightarrow> ret (Some (Wrap e ''fix wdrip and meta''))
         | None \<Rightarrow>
           (let fixup = (\<lambda>info. andThen (mgr_NewOperation (hl_operation m) trip) (\<lambda>r. case r of
                  Inl e \<Rightarrow> ret (Some (Wrap e ''[FixWDRIP] new operations''))
                | Inr nop \<Rightarrow> andThen (op_RunCommand nop info ''systemctl restart kubelet'')
                    (\<lambda>_. op_LabelNode nop info masterLabels)));
                additions = fst (InstanceNodeDiff trip)
            in if additions \<noteq> [] then andThen (randn E (length additions)) (\<lambda>i. fixup (additions ! i))
               else ret None))))"

section \<open>Starting\<close>

text \<open>\<^verbatim>\<open>Start\<close> returns, or enters \<^verbatim>\<open>wait.Forever(m.run, ...)\<close>, which does not return.\<close>

datatype started = Returned "gerr option" | RunForever

definition Start :: "env \<Rightarrow> Healet \<Rightarrow> bool \<Rightarrow> started eff" where
  "Start E m synced = (if \<not> synced then ret (Returned (Some (Errorf ''member heal wait for cache sync'')))
     else andThen (InitializeDefaultCR E) (\<lambda>_.
       if e_in_cluster E
       then (let silent = (if cs_SilentTime (cl_Spec (hl_initSpec m)) = 0 then 60
                           else cs_SilentTime (cl_Spec (hl_initSpec m)))
             in andThen (Sleep (silent * Second)) (\<lambda>_.
                andThen (FixMasterNode E m) (\<lambda>_. ret RunForever)))
       else ret (Returned None)))"

section \<open>Lemmas\<close>

subsection \<open>Repairing one machine touches one machine\<close>

context operation
begin

lemma fixUpHard_scope: "emits (scope E info) (fixUpHard nop info)"
  unfolding fixUpHard_def by (intro emits_intro RunCommand_scope LabelNode_scope Reset_scope)

lemma fixUpSoft_scope: "emits (scope E info) (fixUpSoft nop info)"
  unfolding fixUpSoft_def by (intro emits_intro RunCommand_scope Restart_scope Reset_scope)

end

lemma randn_bound:
  assumes "randn E n tr = (r, tr')" and "n \<noteq> 0"
  shows "\<exists>i. r = Ret i \<and> i < n \<and> (n \<ge> 2 \<longrightarrow> i < n - 1) \<and> (\<exists>new. tr' = tr @ new \<and> set new \<subseteq> reads)"
proof (cases "n \<le> 1")
  case True
  with assms show ?thesis by (auto simp: randn_def)
next
  case False
  then have "e_intn E tr mod (n - Suc 0) < n - Suc 0" by simp
  moreover from this have "e_intn E tr mod (n - Suc 0) < n" by linarith
  ultimately show ?thesis using False assms by (auto simp: randn_def Intn_def perform_apply)
qed

context operation
begin

text \<open>The machine chosen by a round, if there is one.\<close>

lemma repairOne_one:
  "\<exists>new. snd (repairOne E nop trip addition tr) = tr @ new \<and> (set new \<subseteq> reads \<or>
     (\<exists>info\<in>set (take 1 addition) \<union> (if addition = [] then set (UnReadyNodeList trip) else {}).
        set new \<subseteq> scope E info))"
proof (cases addition)
  case Nil
  let ?u = "UnReadyNodeList trip"
  show ?thesis
  proof (cases "?u = []")
    case True
    with Nil show ?thesis by (simp add: repairOne_def)
  next
    case False
    then have "length ?u \<noteq> 0" by simp
    from randn_bound [OF prod.collapse [symmetric] this, of E tr] obtain i new where
      i: "randn E (length ?u) tr = (Ret i, tr @ new)" "i < length ?u" "set new \<subseteq> reads"
      by (metis prod.collapse)
    from emitsD [OF fixUpHard_scope, of "?u ! i" "tr @ new"] obtain new' where
      new': "snd (fixUpHard nop (?u ! i) (tr @ new)) = (tr @ new) @ new'" "set new' \<subseteq> scope E (?u ! i)" by blast
    have "repairOne E nop trip [] tr = fixUpHard nop (?u ! i) (tr @ new)"
      using False i(1) by (simp add: repairOne_def Let_def andThen_apply [where m = "randn E (length ?u)"])
    with new' i scope_reads(1) [of E "?u ! i"] Nil show ?thesis
      by (intro exI [of _ "new @ new'"]) (auto intro!: disjI2 bexI [of _ "?u ! i"])
  qed
next
  case (Cons x xs)
  have "emits (scope E x) (repairOne E nop trip addition)"
    unfolding Cons repairOne_def list.case by (intro emits_intro fixUpHard_scope)
  from emitsD [OF this, of tr] Cons show ?thesis by auto
qed

end

subsection \<open>Loops of deletions\<close>

text \<open>A loop that makes one call per element and stops at the first error.\<close>

lemma forM_calls:
  assumes "\<And>x. x \<in> set xs \<Longrightarrow> g x \<noteq> None"
  shows "\<exists>k err. forM xs (\<lambda>x. andThen (deref (g x)) (\<lambda>y. andThen (do_call E (c y)) (\<lambda>err. case err of
      Some e \<Rightarrow> ret (Some (h e)) | None \<Rightarrow> ret None))) tr =
    (Ret err, tr @ map (c \<circ> the \<circ> g) (take k xs)) \<and> (err = None \<longrightarrow> k = length xs) \<and>
    ((\<forall>t. \<forall>x\<in>set xs. e_err E t (c (the (g x))) = None) \<longrightarrow> err = None)"
  using assms
proof (induction xs arbitrary: tr)
  case Nil
  show ?case by (intro exI [of _ 0] exI [of _ None]) simp
next
  case (Cons x xs)
  then obtain y where y: "g x = Some y" by fastforce
  let ?body = "\<lambda>x. andThen (deref (g x)) (\<lambda>y. andThen (do_call E (c y)) (\<lambda>err. case err of
      Some e \<Rightarrow> ret (Some (h e)) | None \<Rightarrow> ret None))"
  have step: "?body x tr = (Ret (map_option h (e_err E tr (c y))), tr @ [c y])"
    by (simp add: y deref_def do_call_def andThen_perform ret_apply split: option.split)
  show ?case
  proof (cases "e_err E tr (c y)")
    case (Some e)
    with step have "forM (x # xs) ?body tr = (Ret (Some (h e)), tr @ [c y])"
      by (simp add: andThen_apply [where m = "?body x"] ret_apply)
    with y Some show ?thesis by (intro exI [of _ 1] exI [of _ "Some (h e)"]) auto
  next
    case None
    with step have run: "forM (x # xs) ?body tr = forM xs ?body (tr @ [c y])"
      by (simp add: andThen_apply [where m = "?body x"])
    from Cons obtain k err where IH: "forM xs ?body (tr @ [c y]) =
        (Ret err, (tr @ [c y]) @ map (c \<circ> the \<circ> g) (take k xs))" "err = None \<longrightarrow> k = length xs"
      "(\<forall>t. \<forall>x\<in>set xs. e_err E t (c (the (g x))) = None) \<longrightarrow> err = None"
      by (meson list.set_intros(2))
    with run y None show ?thesis
      by (intro exI [of _ "Suc k"] exI [of _ err]) simp
  qed
qed

subsection \<open>A healing centre made by \<^verbatim>\<open>NewHealet\<close>\<close>

definition made :: "env \<Rightarrow> Healet \<Rightarrow> bool" where
  "made E m \<longleftrightarrow> (\<exists>infra. hl_tripGetter m = wTripleGetter E infra) \<and> hl_operation m = operationMgr E"

lemma NewHealet_made: "NewHealet E spec tr = (Ret (Inr m), tr') \<Longrightarrow> made E m"
  unfolding NewHealet_def andThen_value_iff by (auto simp: made_def andThen_Ret_iff split: sum.splits)

lemma made_NewTripleMaster [emits_intro]:
  "made E m \<Longrightarrow> reads \<subseteq> A \<Longrightarrow> emits A (NewTripleMaster E (hl_tripGetter m))"
  unfolding made_def by (auto intro: NewTripleMaster_emits)

lemma made_NewOperation:
  "made E m \<Longrightarrow> mgr_NewOperation (hl_operation m) t = ret (Inr (NodeOperation E t))"
  by (simp add: made_def operationMgr_def)

lemma emits_deref: "(\<And>y. p = Some y \<Longrightarrow> emits A (f y)) \<Longrightarrow> emits A (andThen (deref p) f)"
  by (cases p) (auto simp: deref_def emits_panic)

lemma FixMasterCRD_emits:
  "(\<And>m. KCreate (OMaster m) \<in> A) \<Longrightarrow> emits A (FixMasterCRD E nodes)"
  unfolding FixMasterCRD_def by (intro emits_intro) auto

lemma FixUpMeta_emits:
  assumes "\<And>m. KCreate (OMaster m) \<in> A"
    and "\<And>i k. i \<in> set (fst (MasterCRDDiff t)) \<Longrightarrow> ni_Resource i = Some k \<Longrightarrow> KDelete (OMaster k) \<in> A"
  shows "emits A (FixUpMeta E t)"
proof -
  obtain del mis where d: "MasterCRDDiff t = (del, mis)" by fastforce
  have "emits A (forM del (\<lambda>d. andThen (deref (ni_Resource d)) (\<lambda>m.
       andThen (do_call E (KDelete (OMaster m))) (\<lambda>err. case err of
         Some e \<Rightarrow> ret (Some (Errorf (''remove master object: '' @ err_msg e)))
       | None \<Rightarrow> ret None))))"
    by (rule emits_forM, rule emits_deref) (use assms(2) d in \<open>auto intro!: emits_intro\<close>)
  then show ?thesis unfolding FixUpMeta_def d prod.case
    by (rule emits_andThen) (intro emits_intro FixMasterCRD_emits assms(1))
qed

lemma FixUpEtcd_emits [emits_intro]:
  "reads \<union> etcdctl_calls \<union> file_calls \<subseteq> A \<Longrightarrow> emits A (FixUpEtcd E t)"
  unfolding FixUpEtcd_def removeStale_def by (intro emits_intro) auto

lemma FixUpNode_emits:
  assumes "made E m" and "reads \<subseteq> A" and "\<And>info. scope E info \<subseteq> A"
    and "\<And>i n. i \<in> set (snd (InstanceNodeDiff t)) \<Longrightarrow> ni_Node i = Some n \<Longrightarrow> KDelete (ONode n) \<in> A"
  shows "emits A (FixUpNode E m t)"
proof -
  obtain add del where d: "InstanceNodeDiff t = (add, del)" by fastforce
  have del: "emits A (forM del (\<lambda>n. andThen (deref (ni_Node n)) (\<lambda>node.
       andThen (do_call E (KDelete (ONode node))) (\<lambda>err. case err of
         Some e \<Rightarrow> ret (Some (Errorf (''clean up node: '' @ err_msg e)))
       | None \<Rightarrow> ret None))))"
    by (rule emits_forM, rule emits_deref) (use assms(4) d in \<open>auto intro!: emits_intro\<close>)
  have "emits A (fixUpHard (NodeOperation E t) info)" for info
    using nop.fixUpHard_scope assms(3) by (rule emits_mono)
  then have rep: "emits A (repairOne E (NodeOperation E t) t add)"
    unfolding repairOne_def randn_def Let_def using assms(2) by (intro emits_intro) auto
  from del show ?thesis unfolding FixUpNode_def d prod.case made_NewOperation [OF assms(1)]
    by (rule emits_andThen) (simp add: emits_ret rep split: option.split)
qed

lemma fixMaster_emits:
  assumes "made E m" and "reads \<union> etcdctl_calls \<union> file_calls \<subseteq> A" and "\<And>info. scope E info \<subseteq> A"
    and "\<And>x. KCreate (OMaster x) \<in> A" and "\<And>x. KDelete (OMaster x) \<in> A" and "\<And>x. KDelete (ONode x) \<in> A"
  shows "emits A (fixMaster E m)"
  unfolding fixMaster_def
  by (intro emits_intro FixUpMeta_emits FixUpNode_emits) (use assms in auto)

subsection \<open>The lock\<close>

definition lock_calls :: "call set" where
  "lock_calls = {CLock ''healet'', CUnlock ''healet''} \<union> range (\<lambda>b. CSetChecking b)"

lemma no_lock: "reads \<union> etcdctl_calls \<union> file_calls \<subseteq> - lock_calls" "scope E info \<subseteq> - lock_calls"
  "KCreate x \<notin> lock_calls" "KDelete x \<notin> lock_calls"
  by (auto simp: lock_calls_def etcdctl_calls_def file_calls_def scope_def)

lemma fixMaster_no_lock: "made E m \<Longrightarrow> emits (- lock_calls) (fixMaster E m)"
  by (rule fixMaster_emits) (use no_lock in auto)

lemma FixMasterNode_run:
  assumes "made E m"
  shows "fst (FixMasterNode E m tr) = fst (fixMaster E m (tr @ [CLock ''healet'', CSetChecking True])) \<and>
    new_calls (FixMasterNode E m) tr = [CLock ''healet'', CSetChecking True] @
      new_calls (fixMaster E m) (tr @ [CLock ''healet'', CSetChecking True]) @ [CSetChecking False, CUnlock ''healet'']"
proof -
  let ?t = "tr @ [CLock ''healet'', CSetChecking True]"
  from emitsD [OF fixMaster_no_lock [OF assms], of ?t] obtain new where
    "snd (fixMaster E m ?t) = ?t @ new" by blast
  moreover have "FixMasterNode E m tr = (fst (fixMaster E m ?t),
      snd (fixMaster E m ?t) @ [CSetChecking False, CUnlock ''healet''])"
    by (simp add: FixMasterNode_def with_defer_apply andThen_perform)
  ultimately show ?thesis by (simp add: new_calls_def)
qed

subsection \<open>The repair steps of a run\<close>

lemma FixUpNode_run:
  assumes "made E m"
  shows "\<exists>k new. snd (FixUpNode E m t tr) =
      tr @ map (\<lambda>i. KDelete (ONode (the (ni_Node i)))) (take k (snd (InstanceNodeDiff t))) @ new \<and>
    (new = [] \<or> k = length (snd (InstanceNodeDiff t))) \<and>
    ((\<forall>t' x. e_err E t' (KDelete (ONode x)) = None) \<longrightarrow> k = length (snd (InstanceNodeDiff t))) \<and>
    (set new \<subseteq> reads \<or> (\<exists>info\<in>set (take 1 (fst (InstanceNodeDiff t))) \<union>
       (if fst (InstanceNodeDiff t) = [] then set (UnReadyNodeList t) else {}). set new \<subseteq> scope E info))"
proof -
  obtain add del where d: "InstanceNodeDiff t = (add, del)" by fastforce
  then have "\<And>x. x \<in> set del \<Longrightarrow> ni_Node x \<noteq> None" by (auto simp: InstanceNodeDiff_def)
  note calls = forM_calls [of del ni_Node E "\<lambda>node. KDelete (ONode node)"
      "\<lambda>e. Errorf (''clean up node: '' @ err_msg e)" tr, OF this]
  define loop where "loop = forM del (\<lambda>n. andThen (deref (ni_Node n)) (\<lambda>node.
       andThen (do_call E (KDelete (ONode node))) (\<lambda>err. case err of
         Some e \<Rightarrow> ret (Some (Errorf (''clean up node: '' @ err_msg e)))
       | None \<Rightarrow> ret None)))"
  from calls [folded loop_def] obtain k err where
    k: "loop tr = (Ret err, tr @ map ((\<lambda>node. KDelete (ONode node)) \<circ> the \<circ> ni_Node) (take k del))"
    and full: "err = None \<longrightarrow> k = length del"
      "(\<forall>t. \<forall>x\<in>set del. e_err E t (KDelete (ONode (the (ni_Node x)))) = None) \<longrightarrow> err = None" by blast
  define t1 where "t1 = tr @ map (\<lambda>i. KDelete (ONode (the (ni_Node i)))) (take k del)"
  from k have k: "loop tr = (Ret err, t1)" by (simp add: t1_def comp_def)
  have run: "FixUpNode E m t tr = (case err of Some e \<Rightarrow> ret (Some e)
      | None \<Rightarrow> repairOne E (NodeOperation E t) t add) t1"
    unfolding FixUpNode_def d prod.case made_NewOperation [OF assms] loop_def [symmetric]
    by (simp add: andThen_apply [of loop, OF k])
  show ?thesis
  proof (cases err)
    case (Some e)
    with run full d show ?thesis unfolding t1_def by (intro exI [of _ k] exI [of _ "[]"]) auto
  next
    case None
    from nop.repairOne_one [of E t t add t1] obtain new where
      new: "snd (repairOne E (NodeOperation E t) t add t1) = t1 @ new"
      "set new \<subseteq> reads \<or> (\<exists>info\<in>set (take 1 add) \<union>
         (if add = [] then set (UnReadyNodeList t) else {}). set new \<subseteq> scope E info)" by blast
    from None run full d new show ?thesis
      unfolding t1_def by (intro exI [of _ k] exI [of _ new]) auto
  qed
qed

lemma FixMasterNode_deletion:
  assumes "made E m" and c: "c \<in> set (new_calls (FixMasterNode E m) tr)"
    and k: "c = KDelete x"
  obtains trip t0 t1 where "NewTripleMaster E (hl_tripGetter m) t0 = (Ret (Inr trip), t1)"
    and "(\<exists>i k. i \<in> set (fst (MasterCRDDiff trip)) \<and> ni_Resource i = Some k \<and> x = OMaster k) \<or>
      (\<exists>i n. i \<in> set (snd (InstanceNodeDiff trip)) \<and> ni_Node i = Some n \<and> x = ONode n)"
proof -
  let ?t = "tr @ [CLock ''healet'', CSetChecking True]"
  define f where "f r = (case r of Inl e \<Rightarrow> ret (Some (Wrap e ''get Triple''))
    | Inr trip \<Rightarrow> andThen (FixUpMeta E trip) (\<lambda>err. case err of
       Some e \<Rightarrow> ret (Some (Errorf (''master repair: clean up meta faild, '' @ err_msg e)))
     | None \<Rightarrow> andThen (FixUpEtcd E trip) (\<lambda>err. case err of
         Some e \<Rightarrow> ret (Some (Errorf (''sync, etcd: '' @ err_msg e)))
       | None \<Rightarrow> FixUpNode E m trip)))" for r
  have eq: "fixMaster E m = andThen (NewTripleMaster E (hl_tripGetter m)) f"
    unfolding fixMaster_def f_def by (rule refl)
  define ok where "ok trip y \<longleftrightarrow>
      (\<exists>i k. i \<in> set (fst (MasterCRDDiff trip)) \<and> ni_Resource i = Some k \<and> y = OMaster k) \<or>
      (\<exists>i n. i \<in> set (snd (InstanceNodeDiff trip)) \<and> ni_Node i = Some n \<and> y = ONode n)" for trip y
  let ?A = "\<lambda>trip. {c. \<forall>y. c = KDelete y \<longrightarrow> ok trip y}"
  have f: "emits (?A trip) (f (Inr trip))" for trip
    unfolding f_def sum.case
    by (intro emits_intro FixUpMeta_emits FixUpNode_emits assms(1))
      (auto simp: ok_def scope_def etcdctl_calls_def file_calls_def)
  then have any: "emits UNIV (f r)" for r
    by (cases r) (auto simp: f_def emits_ret intro: emits_mono)
  have "c \<in> set (new_calls (fixMaster E m) ?t)"
    using c FixMasterNode_run [OF assms(1), of tr] k by auto
  then obtain r t1 where r: "NewTripleMaster E (hl_tripGetter m) ?t = (Ret r, t1)" "c \<in> set (new_calls (f r) t1)"
    unfolding eq by (rule late_call [rotated 3]) (use assms(1) k any in \<open>auto intro: emits_intro\<close>)
  show ?thesis
  proof (cases r)
    case (Inl e)
    with r(2) show ?thesis by (simp add: f_def new_calls_def)
  next
    case (Inr trip)
    with r(2) emits_new_calls [OF f, of trip t1] k have "ok trip x" by auto
    with r(1) Inr show ?thesis unfolding ok_def by (intro that) auto
  qed
qed

lemma andThen_pair_nil_iff:
  "andThen m (\<lambda>r. case r of Inl e \<Rightarrow> ret (z, Some (h e)) | Inr x \<Rightarrow> f x) tr = (Ret (y, None), t) \<longleftrightarrow>
   (\<exists>x tr'. m tr = (Ret (Inr x), tr') \<and> f x tr' = (Ret (y, None), t))"
  unfolding andThen_Ret_iff by (auto split: sum.split_asm)

lemma removeFirstFollower_done:
  assumes "removeFirstFollower E metcd endps tr = (Ret (ep, None), tr')"
  shows "\<exists>x i l. x \<in> set endps \<and> es_Endpoint x = ep \<and> hdr_MemberID (st_Header (es_Status x)) = Some i \<and>
    st_Leader (es_Status x) = Some l \<and> l \<noteq> i \<and>
    RemoveMember E metcd (zeroMember\<lparr>mem_ID := Some i\<rparr>) tr = (Ret None, tr')"
  using assms
proof (induction endps)
  case (Cons x endps)
  let ?id = "hdr_MemberID (st_Header (es_Status x))" and ?l = "st_Leader (es_Status x)"
  consider (same) "?l = ?id" | (other) i l where "?id = Some i" "?l = Some l" "l \<noteq> i"
    using Cons.prems by (cases ?id; cases ?l) (auto simp: CmpEq_def Let_def)
  then show ?case
  proof cases
    case same
    then have "CmpEq ?l ?id = ret True" by (auto simp: CmpEq_def split: option.split)
    with Cons show ?thesis by (auto simp: Let_def)
  next
    case other
    with Cons.prems have "RemoveMember E metcd (zeroMember\<lparr>mem_ID := Some i\<rparr>) tr = (Ret None, tr') \<and>
        es_Endpoint x = ep"
      by (auto simp: CmpEq_def Let_def andThen_Ret_iff split: option.splits)
    with other show ?thesis by auto
  qed
qed simp

section \<open>Properties\<close>

text \<open>
  The examples: the healing centre of an environment whose stack is known; a control plane of three
  masters one of which has lost its instance; and the same control plane without the lost master.
\<close>

definition healet0 :: "env \<Rightarrow> Healet" where
  "healet0 E = \<lparr>hl_tripGetter = wTripleGetter E infra0, hl_operation = operationMgr E, hl_infra = infra0,
     hl_state = [], hl_initSpec = cluster0\<rparr>"

lemma NewHealet_healet0:
  assumes "e_infra_stack E = (\<lambda>tr n. Inr [])"
  shows "NewHealet E (Some cluster0) tr = (Ret (Inr (healet0 E)), tr @ [PGetInfraStack ''stack-1''])"
  by (simp add: NewHealet_def NewInfraManager_def LoadStack_def healet0_def infra0_def cluster0_def
    spec0_def assms Let_def run_simps)

definition lost_env :: env where
  "lost_env = ids_env\<lparr>
     e_cmd := (\<lambda>tr as. \<lparr>cmd_Exit = 0, cmd_Error = None, cmd_Stdout = [''members''], cmd_Stderr = []\<rparr>),
     e_json_members := (\<lambda>s ms. ([member0 7 ''10.0.0.1'', member0 8 ''10.0.0.2'', member0 9 ''10.0.0.3''], None))\<rparr>"

definition sound_env :: env where
  "sound_env = lost_env\<lparr>
     e_masters := (\<lambda>tr. Inr [master0 ''m1'' ''cn.i-1'' ''10.0.0.1'', master0 ''m2'' ''cn.i-2'' ''10.0.0.2'']),
     e_nodes := (\<lambda>tr. Inr (map (\<lambda>n. n\<lparr>node_Meta := (node_Meta n)\<lparr>om_Labels :=
         Some [(''node-role.kubernetes.io/master'', [])]\<rparr>\<rparr>)
       [node0 ''n1'' ''cn.i-1'' True, node0 ''n2'' ''cn.i-2'' True]))\<rparr>"

lemma lost_stack: "e_infra_stack lost_env = (\<lambda>tr n. Inr [])" "e_infra_stack sound_env = (\<lambda>tr n. Inr [])"
  "e_infra_stack good_pool_env = (\<lambda>tr n. Inr [])" "e_infra_stack heal_env = (\<lambda>tr n. Inr [])"
  by (simp_all add: lost_env_def sound_env_def ids_env_def good_pool_env_def heal_env_def etcd_env_def env0_def)

fun is_delete :: "call \<Rightarrow> bool" where
  "is_delete (KubeWrite (DeleteC x)) = True"
| "is_delete _ = False"

text \<open>
  C1: the healing centre never deletes a resource of a living machine. Whatever \<^verbatim>\<open>FixMasterNode\<close>
  deletes was found in the views it read in the same round: a \<^verbatim>\<open>Master\<close> resource whose id names no
  instance of the scaling group, or a \<^verbatim>\<open>Node\<close> whose provider id names none, provided no
  instance is claimed by two nodes.
\<close>

theorem FixMasterNode_deletes_only_orphans:
  assumes "NewHealet E spec tr0 = (Ret (Inr m), tr1)"
    and "KDelete x \<in> set (new_calls (FixMasterNode E m) tr)"
  shows "\<exists>t t0 t1. NewTripleMaster E (hl_tripGetter m) t0 = (Ret (Inr t), t1) \<and>
    ((\<exists>k\<in>set (tri_mCRDs t). x = OMaster k \<and>
        (\<forall>d\<in>set (tri_instances t). \<not> contains (ms_ID (m_Spec k)) (ins_Id d))) \<or>
     (\<exists>n. x = ONode n \<and> ((\<forall>d\<in>set (tri_instances t). \<forall>n\<in>set (tri_mnodes t). \<forall>n'\<in>set (tri_mnodes t).
          contains (node_ProviderID n) (ins_Id d) \<longrightarrow> contains (node_ProviderID n') (ins_Id d) \<longrightarrow> n = n') \<longrightarrow>
        (\<forall>d\<in>set (tri_instances t). \<not> contains (node_ProviderID n) (ins_Id d)))))"
proof -
  obtain t t0 t1 where run: "NewTripleMaster E (hl_tripGetter m) t0 = (Ret (Inr t), t1)"
    and del: "(\<exists>i k. i \<in> set (fst (MasterCRDDiff t)) \<and> ni_Resource i = Some k \<and> x = OMaster k) \<or>
      (\<exists>i n. i \<in> set (snd (InstanceNodeDiff t)) \<and> ni_Node i = Some n \<and> x = ONode n)"
    by (rule FixMasterNode_deletion [OF NewHealet_made [OF assms(1)] assms(2) refl])
  obtain ds where t: "tri_nodeInfo t = masterInfos JoinMasterUserdata (tri_mCRDs t) (tri_mnodes t) ds"
    and ds: "mset ds = mset (tri_instances t)" using run by (rule NewTripleMaster_shape)
  note same = mset_eq_setD [OF ds]
  from del show ?thesis
  proof
    assume "\<exists>i k. i \<in> set (fst (MasterCRDDiff t)) \<and> ni_Resource i = Some k \<and> x = OMaster k"
    then obtain i k where i: "i \<in> set (masterInfos JoinMasterUserdata (tri_mCRDs t) (tri_mnodes t) ds)"
      "ni_Resource i = Some k" "ni_Instance i = None" "x = OMaster k" by (auto simp: MasterCRDDiff_def t)
    have "\<forall>d\<in>set (tri_instances t). \<not> contains (ms_ID (m_Spec k)) (ins_Id d)"
      using orphan_crd_no_instance [OF i(1-3)] same by blast
    with masterInfos_resource [OF i(1,2)] i(4) run show ?thesis by blast
  next
    assume "\<exists>i n. i \<in> set (snd (InstanceNodeDiff t)) \<and> ni_Node i = Some n \<and> x = ONode n"
    then obtain i n where i: "i \<in> set (masterInfos JoinMasterUserdata (tri_mCRDs t) (tri_mnodes t) ds)"
      "ni_Node i = Some n" "ni_Instance i = None" "x = ONode n" by (auto simp: InstanceNodeDiff_def t)
    have "(\<forall>d\<in>set (tri_instances t). \<forall>n\<in>set (tri_mnodes t). \<forall>n'\<in>set (tri_mnodes t).
          contains (node_ProviderID n) (ins_Id d) \<longrightarrow> contains (node_ProviderID n') (ins_Id d) \<longrightarrow> n = n') \<longrightarrow>
        (\<forall>d\<in>set (tri_instances t). \<not> contains (node_ProviderID n) (ins_Id d))"
      using orphan_node_no_instance [OF i(1-3)] same by (metis (no_types, lifting))
    with i(4) run show ?thesis by blast
  qed
qed

theorem FixMasterNode_deletes_only_orphans_witness:
  "\<exists>x (t :: Triple). KDelete x \<in> set (new_calls (FixMasterNode lost_env (healet0 lost_env)) []) \<and>
    ((\<exists>k\<in>set (tri_mCRDs t). x = OMaster k \<and>
        (\<forall>d\<in>set (tri_instances t). \<not> contains (ms_ID (m_Spec k)) (ins_Id d))) \<or> (\<exists>n. x = ONode n))"
proof -
  have "list_ex is_delete (new_calls (FixMasterNode lost_env (healet0 lost_env)) [])" by code_simp
  then obtain c where c: "c \<in> set (new_calls (FixMasterNode lost_env (healet0 lost_env)) [])" "is_delete c"
    by (auto simp: list_ex_iff)
  from c(2) obtain x where "c = KDelete x" by (cases c rule: is_delete.cases) auto
  with c(1) have x: "KDelete x \<in> set (new_calls (FixMasterNode lost_env (healet0 lost_env)) [])" by simp
  from FixMasterNode_deletes_only_orphans [OF NewHealet_healet0 [OF lost_stack(1), of "[]"] x]
  obtain t :: Triple where "(\<exists>k\<in>set (tri_mCRDs t). x = OMaster k \<and>
      (\<forall>d\<in>set (tri_instances t). \<not> contains (ms_ID (m_Spec k)) (ins_Id d))) \<or> (\<exists>n. x = ONode n)"
    by (elim exE conjE disjE) blast+
  with x show ?thesis by (intro exI conjI)
qed



text \<open>
  C11: \<^verbatim>\<open>FixMasterNode\<close> always gives its lock back: whether it returns or panics, its first calls take
  the lock and set the checking flag, its last calls clear the flag and release the lock, and in
  between neither is touched.
\<close>

theorem FixMasterNode_releases_lock:
  assumes "NewHealet E spec tr0 = (Ret (Inr m), tr1)"
  shows "\<exists>mid. new_calls (FixMasterNode E m) tr =
      [CLock ''healet'', CSetChecking True] @ mid @ [CSetChecking False, CUnlock ''healet''] \<and> set mid \<inter> lock_calls = {}"
  using FixMasterNode_run [OF NewHealet_made [OF assms], of tr]
    emits_new_calls [OF fixMaster_no_lock [OF NewHealet_made [OF assms]]] by blast

theorem FixMasterNode_releases_lock_witness:
  "\<exists>mid. new_calls (FixMasterNode lost_env (healet0 lost_env)) [] =
      [CLock ''healet'', CSetChecking True] @ mid @ [CSetChecking False, CUnlock ''healet''] \<and> set mid \<inter> lock_calls = {}"
  by (rule FixMasterNode_releases_lock [OF NewHealet_healet0 [OF lost_stack(1)], of "[]"])



text \<open>
  The random choice never falls on the last unready node. When two or more nodes are unready (and
  nothing else is wrong), the round repairs one of them, but never the last of the list: \<^verbatim>\<open>randn(n)\<close>
  answers \<^verbatim>\<open>rand.Intn(n - 1)\<close>.
\<close>

lemma FixUpNode_skips_last_unready:
  assumes "NewHealet E spec tr0 = (Ret (Inr m), tr1)" and "InstanceNodeDiff t = ([], [])"
    and "length (UnReadyNodeList t) \<ge> 2"
  shows "\<exists>info\<in>set (butlast (UnReadyNodeList t)). set (new_calls (FixUpNode E m t) tr) \<subseteq> scope E info"
proof -
  let ?u = "UnReadyNodeList t"
  have ne: "length ?u \<noteq> 0" "?u \<noteq> []" using assms(3) by auto
  from randn_bound [OF prod.collapse [symmetric] ne(1), of E tr] assms(3) obtain i new where
    i: "randn E (length ?u) tr = (Ret i, tr @ new)" "i < length ?u - 1" "set new \<subseteq> reads"
    by (metis prod.collapse)
  have run: "FixUpNode E m t tr = fixUpHard (NodeOperation E t) (?u ! i) (tr @ new)"
    using ne(2) assms(2)
    by (simp add: FixUpNode_def made_NewOperation [OF NewHealet_made [OF assms(1)]] repairOne_def Let_def
      andThen_apply [of "randn E (length ?u)", OF i(1)])
  from emitsD [OF nop.fixUpHard_scope, of E t "?u ! i" "tr @ new"] obtain new' where
    "snd (fixUpHard (NodeOperation E t) (?u ! i) (tr @ new)) = (tr @ new) @ new'"
    "set new' \<subseteq> scope E (?u ! i)" by blast
  with run i(3) scope_reads(1) [of E "?u ! i"] have "set (new_calls (FixUpNode E m t) tr) \<subseteq> scope E (?u ! i)"
    by (auto simp: new_calls_def)
  moreover have "?u ! i \<in> set (butlast ?u)"
    using i(2) by (metis length_butlast nth_butlast nth_mem)
  ultimately show ?thesis by blast
qed



text \<open>
  C17: \<^verbatim>\<open>RemoveFollower\<close> never removes the leader. When it reports success it saw exactly two endpoints, and
  the one it names is a member that is not the leader it reports; that member's id is what was removed.
\<close>

theorem RemoveFollower_keeps_leader:
  assumes "RemoveFollower E tr = (Ret (ep, None), tr')"
  shows "\<exists>metcd endps t0 t1 x i l. Endpoints E metcd t0 = (Ret (Inr endps), t1) \<and> length endps = 2 \<and>
    x \<in> set endps \<and> es_Endpoint x = ep \<and> hdr_MemberID (st_Header (es_Status x)) = Some i \<and>
    st_Leader (es_Status x) = Some l \<and> l \<noteq> i \<and>
    RemoveMember E metcd (zeroMember\<lparr>mem_ID := Some i\<rparr>) t1 = (Ret None, tr')"
proof -
  from assms obtain metcd endps t0 t1 where e: "Endpoints E metcd t0 = (Ret (Inr endps), t1)"
    "length endps = 2" and r: "removeFirstFollower E metcd endps t1 = (Ret (ep, None), tr')"
    unfolding RemoveFollower_def andThen_pair_nil_iff by (auto split: if_splits)
  from removeFirstFollower_done [OF r] e show ?thesis by metis
qed

definition endpoint0 :: "string \<Rightarrow> int \<Rightarrow> int \<Rightarrow> EndpointStatus" where
  "endpoint0 ep ident leader = \<lparr>es_Endpoint = ep, es_Status = \<lparr>
     st_Header = \<lparr>hdr_ClusterID = None, hdr_MemberID = Some ident, hdr_Revision = None, hdr_RaftTerm = None\<rparr>,
     st_Version = [], st_DBsize = None, st_Leader = Some leader, st_RaftIndex = None, st_RaftTerm = None\<rparr>\<rparr>"

definition pair_env :: env where
  "pair_env = sound_env\<lparr>e_json_endpoints := (\<lambda>s. Inr [endpoint0 ''ep1'' 7 7, endpoint0 ''ep2'' 8 7])\<rparr>"

theorem RemoveFollower_keeps_leader_witness:
  "fst (RemoveFollower pair_env []) = Ret (''ep2'', None) \<and>
   (\<exists>(endps :: EndpointStatus list) x i l. x \<in> set endps \<and> length endps = 2 \<and> es_Endpoint x = ''ep2'' \<and>
     hdr_MemberID (st_Header (es_Status x)) = Some i \<and> st_Leader (es_Status x) = Some l \<and> l \<noteq> i)"
proof -
  have ok: "fst (RemoveFollower pair_env []) = Ret (''ep2'', None)" by code_simp
  then have "RemoveFollower pair_env [] = (Ret (''ep2'', None), snd (RemoveFollower pair_env []))"
    by (metis prod.collapse)
  from RemoveFollower_keeps_leader [OF this] obtain endps and x :: EndpointStatus and i l
    where "x \<in> set endps" "length endps = 2"
    "es_Endpoint x = ''ep2''" "hdr_MemberID (st_Header (es_Status x)) = Some i"
    "st_Leader (es_Status x) = Some l" "l \<noteq> i" by (elim exE conjE) (rule that; assumption)
  with ok show ?thesis by (intro conjI exI)
qed

text \<open>
  C23: the repair of a node pool deletes a healthy node. For every pool with an instance and two nodes,
  where no instance is claimed by two nodes, the repair that follows \<^verbatim>\<open>NewTripleWorker\<close> deletes the last
  node of the pool from the cluster if the deletions succeed, whatever its state.
\<close>

theorem FixUpNode_deletes_pool_node:
  assumes "NewHealet E spec tr0 = (Ret (Inr m), tr1)"
    and "NewTripleWorker E (hl_tripGetter m) np t0 = (Ret (Inr t), t1)" and "tri_instances t \<noteq> []"
    and "n1 \<in> set (tri_mnodes t)" and "n2 \<in> set (tri_mnodes t)" and "n1 \<noteq> n2"
    and "\<And>d n n'. d \<in> set (tri_instances t) \<Longrightarrow> n \<in> set (tri_mnodes t) \<Longrightarrow> n' \<in> set (tri_mnodes t) \<Longrightarrow>
      contains (node_ProviderID n) (ins_Id d) \<Longrightarrow> contains (node_ProviderID n') (ins_Id d) \<Longrightarrow> n = n'"
    and "\<And>t' n. e_err E t' (KDelete (ONode n)) = None"
  shows "KDelete (ONode (last (tri_mnodes t))) \<in> set (new_calls (FixUpNode E m t) tr)"
proof -
  obtain ds where "tri_nodeInfo t = workerInfos WorkerUserdata (tri_mnodes t) ds"
    "mset ds = mset (tri_instances t)" using assms(2) by (rule NewTripleWorker_shape)
  then have "\<exists>i\<in>set (snd (InstanceNodeDiff t)). ni_Node i = Some (last (tri_mnodes t))"
    by (rule workerInfos_condemned [OF _ _ assms(3-6)]) (rule assms(7))
  then obtain i where i: "i \<in> set (snd (InstanceNodeDiff t))" "ni_Node i = Some (last (tri_mnodes t))"
    by blast
  from FixUpNode_run [OF NewHealet_made [OF assms(1)], of t tr] assms(8) obtain new where
    "snd (FixUpNode E m t tr) =
      tr @ map (\<lambda>i. KDelete (ONode (the (ni_Node i)))) (snd (InstanceNodeDiff t)) @ new" by auto
  with i show ?thesis by (force simp: new_calls_def)
qed

theorem FixUpNode_deletes_pool_node_witness:
  "\<exists>t. (\<forall>n\<in>set (tri_mnodes t). NodeReady n \<and>
        (\<exists>d\<in>set (tri_instances t). contains (node_ProviderID n) (ins_Id d))) \<and>
    KDelete (ONode (last (tri_mnodes t))) \<in>
      set (new_calls (FixUpNode good_pool_env (healet0 good_pool_env) t) [])"
proof -
  let ?m = "NewTripleWorker good_pool_env (wTripleGetter good_pool_env infra0) pool0"
  let ?t = "the_triple ?m"
  have "is_triple ?m" and ne: "tri_instances ?t \<noteq> []"
    and two: "length (tri_mnodes ?t) = 2" "tri_mnodes ?t ! 0 \<noteq> tri_mnodes ?t ! 1"
    and good: "list_all (\<lambda>n. NodeReady n \<and> list_ex (\<lambda>d. contains (node_ProviderID n) (ins_Id d))
      (tri_instances ?t)) (tri_mnodes ?t)"
    and one: "list_all (\<lambda>d. list_all (\<lambda>n. list_all (\<lambda>n'. contains (node_ProviderID n) (ins_Id d) \<longrightarrow>
        contains (node_ProviderID n') (ins_Id d) \<longrightarrow> n = n') (tri_mnodes ?t)) (tri_mnodes ?t))
      (tri_instances ?t)" by code_simp+
  note run = is_triple_run [OF this(1)]
  have get: "hl_tripGetter (healet0 good_pool_env) = wTripleGetter good_pool_env infra0"
    and err: "e_err good_pool_env t' c = None" for t' c
    by (simp_all add: healet0_def good_pool_env_def ids_env_def env0_def)
  have "KDelete (ONode (last (tri_mnodes ?t))) \<in>
      set (new_calls (FixUpNode good_pool_env (healet0 good_pool_env) ?t) [])"
    by (rule FixUpNode_deletes_pool_node [OF NewHealet_healet0 [OF lost_stack(3)], of pool0 "[]" ?t "snd (?m [])"
        "tri_mnodes ?t ! 0" "tri_mnodes ?t ! 1"]) (use run ne two one err in \<open>auto simp: get list_all_iff\<close>)
  with good show ?thesis by (auto simp: list_all_iff list_ex_iff)
qed

end
