(* ===== verification/Storage.thy ===== *)
theory Storage
  imports Help
begin

text \<open>
  The object storage: the Go interface \<^verbatim>\<open>provider.ObjectStorage\<close> as a record of operations, its
  implementation in \<^verbatim>\<open>pkg/iaas/provider/alibaba/oss.go\<close> over the storage client, and the contract
  that the indexes rely on as the locale \<open>object_storage\<close>. What the service itself promises (an
  object reads back as it was last written) is the predicate \<open>coherent\<close> on environments.
\<close>

section \<open>The interface\<close>

record ObjectStorage =
  os_BucketName :: string
  os_EnsureBucket :: "string \<Rightarrow> gerr option eff"
  os_GetFile :: "string \<Rightarrow> string \<Rightarrow> gerr option eff"
  os_PutFile :: "string \<Rightarrow> string \<Rightarrow> gerr option eff"
  os_DeleteObject :: "string \<Rightarrow> gerr option eff"
  os_GetObject :: "string \<Rightarrow> (gerr + string) eff"
  os_PutObject :: "string \<Rightarrow> string \<Rightarrow> gerr option eff"
  os_ListObject :: "string \<Rightarrow> (gerr + string list) eff"

section \<open>The implementation\<close>

text \<open>
  The first lines of every operation: a path \<^verbatim>\<open>oss://bucket/key\<close> names its bucket, any other path is a
  key of the configured bucket.
\<close>

definition resolve :: "string \<Rightarrow> string \<Rightarrow> gerr + (string \<times> string)" where
  "resolve bucket src =
     (if prefix ''oss://'' src
      then (let segs = split_on src ''/''
            in if length segs < 4 then Inl (Errorf (''invalid oss bucket: '' @ src))
               else (let bName = segs ! 2
                     in Inr (bName, replace_all src (''oss://'' @ bName @ ''/'') [])))
      else Inr (bucket, src))"

definition EnsureBucket :: "env \<Rightarrow> string \<Rightarrow> gerr option eff" where
  "EnsureBucket E name = (if name = [] then ret (Some (Errorf ''empyt bucket name''))
     else andThen (do_call E (BBucketInfo name)) (\<lambda>err. case err of
       Some e \<Rightarrow> if contains (err_msg e) ''NoSuchBucket'' then do_call E (BPutBucket name)
                 else ret (Some (Wrap e ''query bucket info''))
     | None \<Rightarrow> ret None))"

definition GetObject :: "env \<Rightarrow> string \<Rightarrow> string \<Rightarrow> (gerr + string) eff" where
  "GetObject E bucket src = (case resolve bucket src of
     Inl e \<Rightarrow> ret (Inl e)
   | Inr (bName, mpath) \<Rightarrow>
       andThen (perform (BGetObject bName mpath) (\<lambda>tr. e_object E tr bName mpath)) (\<lambda>r. case r of
         Inl e \<Rightarrow> ret (Inl (Wrap e (''get oss object: path=[oss://'' @ bName @ ''/'' @ mpath @ '']'')))
       | Inr data \<Rightarrow> ret (Inr data)))"

definition GetFile :: "env \<Rightarrow> string \<Rightarrow> string \<Rightarrow> string \<Rightarrow> gerr option eff" where
  "GetFile E bucket src dst = (case resolve bucket src of
     Inl e \<Rightarrow> ret (Some e)
   | Inr (bName, mpath) \<Rightarrow>
       andThen (do_call E (BGetReader bName mpath)) (\<lambda>err. case err of
         Some e \<Rightarrow> ret (Some (Wrap e ''get bucket reader''))
       | None \<Rightarrow> andThen (do_call E (FOpenWrite dst)) (\<lambda>err. case err of
           Some e \<Rightarrow> ret (Some (Wrap e (''open dest file:'' @ dst)))
         | None \<Rightarrow> do_call E (FCopy dst))))"

definition PutFile :: "env \<Rightarrow> string \<Rightarrow> string \<Rightarrow> string \<Rightarrow> gerr option eff" where
  "PutFile E bucket src dst = (case resolve bucket dst of
     Inl e \<Rightarrow> ret (Some e)
   | Inr (bName, mpath) \<Rightarrow> andThen (do_call E (FOpenRead src)) (\<lambda>err. case err of
       Some e \<Rightarrow> ret (Some (Wrap e (''open file: '' @ src)))
     | None \<Rightarrow> do_call E (BPutFile bName mpath src)))"

definition PutObject :: "env \<Rightarrow> string \<Rightarrow> string \<Rightarrow> string \<Rightarrow> gerr option eff" where
  "PutObject E bucket b dst = (case resolve bucket dst of
     Inl e \<Rightarrow> ret (Some e)
   | Inr (bName, mpath) \<Rightarrow> do_call E (BPutObject bName mpath b))"

definition DeleteObject :: "env \<Rightarrow> string \<Rightarrow> string \<Rightarrow> gerr option eff" where
  "DeleteObject E bucket dst = (case resolve bucket dst of
     Inl e \<Rightarrow> ret (Some e)
   | Inr (bName, mpath) \<Rightarrow> do_call E (BDeleteObject bName mpath))"

text \<open>The loop of \<^verbatim>\<open>ListObject\<close> over the keys the service lists.\<close>

fun getAll :: "env \<Rightarrow> string \<Rightarrow> string list \<Rightarrow> (gerr + string list) eff" where
  "getAll E bucket [] = ret (Inr [])"
| "getAll E bucket (k # ks) = andThen (GetObject E bucket k) (\<lambda>r. case r of
     Inl e \<Rightarrow> ret (Inl (Wrap e (''get object by key: '' @ k)))
   | Inr data \<Rightarrow> andThen (getAll E bucket ks) (\<lambda>r. case r of
       Inl e \<Rightarrow> ret (Inl e)
     | Inr rest \<Rightarrow> ret (Inr (data # rest))))"

definition ListObject :: "env \<Rightarrow> string \<Rightarrow> string \<Rightarrow> (gerr + string list) eff" where
  "ListObject E bucket pre = andThen (EnsureBucket E bucket) (\<lambda>err. case err of
     Some e \<Rightarrow> ret (Inl (Wrap e ''ensure bucket''))
   | None \<Rightarrow> andThen (perform (BListObject bucket pre) (\<lambda>tr. e_list_object E tr bucket pre)) (\<lambda>r. case r of
       Inl e \<Rightarrow> ret (Inl (Wrap e (''list object: '' @ bucket)))
     | Inr keys \<Rightarrow> getAll E bucket keys))"

definition ossStore :: "env \<Rightarrow> string \<Rightarrow> ObjectStorage" where
  "ossStore E bucket = \<lparr>os_BucketName = bucket, os_EnsureBucket = EnsureBucket E,
     os_GetFile = GetFile E bucket, os_PutFile = PutFile E bucket,
     os_DeleteObject = DeleteObject E bucket, os_GetObject = GetObject E bucket,
     os_PutObject = PutObject E bucket, os_ListObject = ListObject E bucket\<rparr>"

section \<open>The contract of a store\<close>

text \<open>
  What the storage service promises: a successful put is what later reads see, until some call writes
  the same object.
\<close>

fun writes :: "string \<Rightarrow> string \<Rightarrow> call \<Rightarrow> bool" where
  "writes b k (BlobWrite (PutObjectC b' k' d)) = (b' = b \<and> k' = k)"
| "writes b k (BlobWrite (DeleteObjectC b' k')) = (b' = b \<and> k' = k)"
| "writes b k (BlobWrite (PutFileC b' k' f)) = (b' = b \<and> k' = k)"
| "writes b k _ = False"

definition coherent :: "env \<Rightarrow> bool" where
  "coherent E \<longleftrightarrow>
     (\<forall>tr b k d. e_err E tr (BPutObject b k d) = None \<longrightarrow> e_object E (tr @ [BPutObject b k d]) b k = Inr d) \<and>
     (\<forall>tr b k c. \<not> writes b k c \<longrightarrow> e_object E (tr @ [c]) b k = e_object E tr b k)"

locale object_storage =
  fixes E :: env and st :: ObjectStorage and loc :: "string \<Rightarrow> (string \<times> string) option"
  assumes get_reads: "emits reads (os_GetObject st k)"
    and put_one: "emits {c. \<exists>b m. loc k = Some (b, m) \<and> c = BPutObject b m d} (os_PutObject st d k)"
    and delete_one: "emits {c. \<exists>b m. loc k = Some (b, m) \<and> c = BDeleteObject b m} (os_DeleteObject st k)"
    and put_file_one: "emits (reads \<union> {c. \<exists>b m. loc k = Some (b, m) \<and> c = BPutFile b m f}) (os_PutFile st f k)"
    and get_file_one: "emits (reads \<union> {FOpenWrite f, FCopy f}) (os_GetFile st k f)"
    and ensure_one: "emits (reads \<union> {BPutBucket n}) (os_EnsureBucket st n)"
    and list_one: "emits (reads \<union> {c. \<exists>b. c = BPutBucket b}) (os_ListObject st p)"
    and get_object: "loc k = Some (b, m) \<Longrightarrow> e_object E tr b m = Inr d \<Longrightarrow> \<exists>t. os_GetObject st k tr = (Ret (Inr d), t)"
    and put_object: "os_PutObject st d k tr = (Ret None, t) \<Longrightarrow>
      \<exists>b m. loc k = Some (b, m) \<and> t = tr @ [BPutObject b m d] \<and> e_err E tr (BPutObject b m d) = None"

lemma coherent_frame:
  assumes "coherent E" and "\<And>c. c \<in> set new \<Longrightarrow> \<not> writes b k c"
  shows "e_object E (tr @ new) b k = e_object E tr b k"
  using assms(2)
proof (induction new rule: rev_induct)
  case (snoc c new)
  have "e_object E ((tr @ new) @ [c]) b k = e_object E (tr @ new) b k"
    using assms(1) snoc.prems unfolding coherent_def by fastforce
  with snoc show ?case by simp
qed simp

context object_storage
begin

text \<open>What was put is what is got, as long as nobody writes the object in between.\<close>

lemma put_then_get:
  assumes "coherent E" and put: "os_PutObject st d k tr = (Ret None, t)"
    and frame: "\<And>b m c. loc k = Some (b, m) \<Longrightarrow> c \<in> set new \<Longrightarrow> \<not> writes b m c"
  shows "\<exists>t'. os_GetObject st k (t @ new) = (Ret (Inr d), t')"
proof -
  from put_object [OF put] obtain b m where l: "loc k = Some (b, m)" "t = tr @ [BPutObject b m d]"
    "e_err E tr (BPutObject b m d) = None" by blast
  with assms(1) have "e_object E t b m = Inr d" unfolding coherent_def by blast
  with coherent_frame [OF assms(1) frame [OF l(1)]] have "e_object E (t @ new) b m = Inr d" by simp
  with get_object [OF l(1)] show ?thesis by blast
qed

end

section \<open>The implementation keeps the contract\<close>

definition location :: "string \<Rightarrow> string \<Rightarrow> (string \<times> string) option" where
  "location bucket k = (case resolve bucket k of Inl _ \<Rightarrow> None | Inr l \<Rightarrow> Some l)"

lemma location_Some: "location bucket k = Some l \<longleftrightarrow> resolve bucket k = Inr l"
  by (auto simp: location_def split: sum.splits)

lemma GetObject_reads [emits_intro]: "reads \<subseteq> A \<Longrightarrow> emits A (GetObject E bucket k)"
  unfolding GetObject_def by (intro emits_intro) auto

lemma getAll_reads: "emits reads (getAll E bucket ks)"
  by (induction ks) (auto intro!: emits_intro)

lemma EnsureBucket_emits: "reads \<union> {BPutBucket n} \<subseteq> A \<Longrightarrow> emits A (EnsureBucket E n)"
  unfolding EnsureBucket_def by (intro emits_intro) auto

lemma ListObject_emits: "emits (reads \<union> {c. \<exists>b. c = BPutBucket b}) (ListObject E bucket p)"
  unfolding ListObject_def
  by (intro emits_intro EnsureBucket_emits emits_mono [OF getAll_reads]) auto

interpretation oss: object_storage E "ossStore E bucket" "location bucket" for E bucket
proof unfold_locales
  fix k d f n p
  show "emits reads (os_GetObject (ossStore E bucket) k)"
    by (simp add: ossStore_def GetObject_reads)
  show "emits {c. \<exists>b m. location bucket k = Some (b, m) \<and> c = BPutObject b m d} (os_PutObject (ossStore E bucket) d k)"
    by (auto simp: ossStore_def PutObject_def location_Some intro!: emits_intro)
  show "emits {c. \<exists>b m. location bucket k = Some (b, m) \<and> c = BDeleteObject b m} (os_DeleteObject (ossStore E bucket) k)"
    by (auto simp: ossStore_def DeleteObject_def location_Some intro!: emits_intro)
  show "emits (reads \<union> {c. \<exists>b m. location bucket k = Some (b, m) \<and> c = BPutFile b m f}) (os_PutFile (ossStore E bucket) f k)"
    by (auto simp: ossStore_def PutFile_def location_Some intro!: emits_intro)
  show "emits (reads \<union> {FOpenWrite f, FCopy f}) (os_GetFile (ossStore E bucket) k f)"
    by (auto simp: ossStore_def GetFile_def intro!: emits_intro)
  show "emits (reads \<union> {BPutBucket n}) (os_EnsureBucket (ossStore E bucket) n)"
    by (simp add: ossStore_def EnsureBucket_emits)
  show "emits (reads \<union> {c. \<exists>b. c = BPutBucket b}) (os_ListObject (ossStore E bucket) p)"
    by (simp add: ossStore_def ListObject_emits)
next
  fix k b m tr d
  assume "location bucket k = Some (b, m)" "e_object E tr b m = Inr d"
  then show "\<exists>t. os_GetObject (ossStore E bucket) k tr = (Ret (Inr d), t)"
    by (simp add: ossStore_def GetObject_def location_Some run_simps)
next
  fix d k tr t
  assume "os_PutObject (ossStore E bucket) d k tr = (Ret None, t)"
  then show "\<exists>b m. location bucket k = Some (b, m) \<and> t = tr @ [BPutObject b m d] \<and> e_err E tr (BPutObject b m d) = None"
    by (auto simp: ossStore_def PutObject_def location_Some do_call_def perform_apply split: sum.splits)
qed

section \<open>Paths\<close>

text \<open>
  The full path the indexes print is resolved back to its bucket and key, whatever bucket is
  configured, provided the bucket name has no slash and the key does not contain the
  \<^verbatim>\<open>oss://bucket/\<close> prefix again (every occurrence of it would be cut out).
\<close>

lemma resolve_inverts_uri:
  assumes "CHR ''/'' \<notin> set b" and "\<not> contains k (''oss://'' @ b @ ''/'')"
  shows "resolve bucket (''oss://'' @ b @ ''/'' @ k) = Inr (b, k)"
proof -
  let ?s = "''oss://'' @ b @ ''/'' @ k" and ?p = "''oss://'' @ b @ ''/''"
  have "split_on ?s ''/'' = ''oss:'' # [] # split_on (b @ CHR ''/'' # k) ''/''"
    using split_on_char [of "CHR ''/''" "''oss:''" "CHR ''/'' # b @ CHR ''/'' # k"]
      split_on_char [of "CHR ''/''" "[]" "b @ CHR ''/'' # k"] by simp
  also have "split_on (b @ CHR ''/'' # k) ''/'' = b # split_on k ''/''" by (rule split_on_char [OF assms(1)])
  finally have segs: "split_on ?s ''/'' = ''oss:'' # [] # b # split_on k ''/''" .
  have "split_on k ''/'' \<noteq> []" by (simp add: split_on_def split_acc_not_Nil)
  then have "length (split_on ?s ''/'') \<ge> 4" unfolding segs by (cases "split_on k ''/''") auto
  moreover have "replace_all ?s ?p [] = k"
  proof -
    have "split_acc ?p [] (?p @ k) = [] # split_acc ?p [] k"
      by (simp add: prefix_def)
    also have "split_acc ?p [] k = [k]" using split_acc_no_sep [OF _ assms(2), of "[]"] by simp
    finally show ?thesis by (simp add: replace_all_def split_on_def)
  qed
  moreover have "split_on ?s ''/'' ! 2 = b" unfolding segs by simp
  moreover have "prefix ''oss://'' ?s" by simp
  ultimately show ?thesis unfolding resolve_def Let_def by simp
qed

end
