(* ===== verification/Index.thy ===== *)
theory Index
  imports Storage Etcd "HOL-Library.List_Lexorder" "HOL-Library.Char_ord"
begin

text \<open>
  \<^verbatim>\<open>pkg/index\<close>: the records the operator keeps in the object storage (clusters, node pools, etcd
  snapshots), and \<^verbatim>\<open>pkg/operator/controllers/backup\<close>, which writes the snapshots. The JSON encoder and
  decoder are a parameter \<open>K\<close>, a record of functions. An operation of the snapshot index returns the
  updated index; its mutex is the lock named \<open>index\<close>. Identities are ordered as Go orders strings,
  byte by byte.
\<close>

section \<open>Data\<close>

record Backup =
  bk_Identity :: string

record SnapshotData =
  sn_Prefix :: string
  sn_Name :: string
  sn_Copies :: "Backup list"
  sn_Spec :: "ClusterSpec option"

text \<open>
  \<^verbatim>\<open>utils.PrettyJson\<close> and \<^verbatim>\<open>json.Unmarshal\<close>; decoding a snapshot fills an existing value.
\<close>

record codec =
  cd_cluster :: "ClusterId \<Rightarrow> string"
  cd_uncluster :: "string \<Rightarrow> gerr + ClusterId"
  cd_pool :: "NodePool \<Rightarrow> string"
  cd_unpool :: "string \<Rightarrow> gerr + NodePool"
  cd_snapshot :: "SnapshotData \<Rightarrow> string"
  cd_unsnapshot :: "string \<Rightarrow> SnapshotData \<Rightarrow> SnapshotData \<times> gerr option"

record ClusterIndex =
  cix_id :: string
  cix_store :: ObjectStorage

record NodePoolIndex =
  nix_cid :: string
  nix_store :: ObjectStorage

record SnapshotIndex =
  six_load :: bool
  six_snapshot :: "SnapshotData option"
  six_store :: ObjectStorage

record GenericIndexer =
  gix_snapshot :: SnapshotIndex
  gix_cluster :: ClusterIndex
  gix_pool :: NodePoolIndex

section \<open>Clusters and node pools\<close>

definition path :: "string \<Rightarrow> string \<Rightarrow> string" where
  "path bucket name = ''oss://'' @ bucket @ ''/wdrip/clusters/'' @ name @ ''.json''"

definition nPath :: "string \<Rightarrow> string \<Rightarrow> string \<Rightarrow> string" where
  "nPath bucket ident name = ''oss://'' @ bucket @ ''/wdrip/nodepools/'' @ ident @ ''/'' @ name @ ''.json''"

definition NewClusterIndex :: "string \<Rightarrow> ObjectStorage \<Rightarrow> ClusterIndex" where
  "NewClusterIndex ident store = \<lparr>cix_id = ident, cix_store = store\<rparr>"

definition NewNodePoolIndex :: "string \<Rightarrow> ObjectStorage \<Rightarrow> NodePoolIndex" where
  "NewNodePoolIndex cid store = \<lparr>nix_cid = cid, nix_store = store\<rparr>"

definition noBucket :: gerr where
  "noBucket = Errorf ''oss bucket name should be provided in wdrip config''"

text \<open>The common tail of \<^verbatim>\<open>SaveCluster\<close> and \<^verbatim>\<open>SaveNodePool\<close>: create the bucket when it is missing.\<close>

definition putEnsuring :: "ObjectStorage \<Rightarrow> string \<Rightarrow> string \<Rightarrow> string \<Rightarrow> gerr option eff" where
  "putEnsuring store bName data p = andThen (os_PutObject store data p) (\<lambda>err. case err of
     None \<Rightarrow> ret None
   | Some e \<Rightarrow> if contains (err_msg e) ''NoSuchBucket''
       then andThen (os_EnsureBucket store bName) (\<lambda>err. case err of
           Some e \<Rightarrow> ret (Some (Wrap e (''create bucket fail: '' @ bName)))
         | None \<Rightarrow> os_PutObject store data p)
       else ret (Some e))"

definition SaveCluster :: "codec \<Rightarrow> ClusterIndex \<Rightarrow> ClusterId \<Rightarrow> gerr option eff" where
  "SaveCluster K n ident = (let bName = os_BucketName (cix_store n)
     in if bName = [] then ret (Some noBucket)
        else putEnsuring (cix_store n) bName (cd_cluster K ident) (path bName (om_Name (cid_Meta ident))))"

text \<open>\<^verbatim>\<open>GetCluster\<close> and \<^verbatim>\<open>RemoveCluster\<close> take an id, but use the one of the index.\<close>

definition GetCluster :: "codec \<Rightarrow> ClusterIndex \<Rightarrow> string \<Rightarrow> (gerr + ClusterId) eff" where
  "GetCluster K n ident = (let bName = os_BucketName (cix_store n)
     in if bName = [] then ret (Inl noBucket)
        else andThen (os_GetObject (cix_store n) (path bName (cix_id n))) (\<lambda>r. case r of
            Inl e \<Rightarrow> ret (Inl (Wrap e (''get ClusterIndex: '' @ cix_id n)))
          | Inr data \<Rightarrow> (case cd_uncluster K data of
              Inl e \<Rightarrow> ret (Inl (Wrap e (''unmarshal ClusterIndex: '' @ cix_id n)))
            | Inr cid \<Rightarrow> ret (Inr cid))))"

definition RemoveCluster :: "ClusterIndex \<Rightarrow> string \<Rightarrow> gerr option eff" where
  "RemoveCluster n ident = (let bName = os_BucketName (cix_store n)
     in if bName = [] then ret (Some noBucket)
        else os_DeleteObject (cix_store n) (path bName (cix_id n)))"

fun decodeAll :: "(string \<Rightarrow> gerr + 'a) \<Rightarrow> string \<Rightarrow> string list \<Rightarrow> gerr + 'a list" where
  "decodeAll u msg [] = Inr []"
| "decodeAll u msg (v # vs) = (case u v of
     Inl e \<Rightarrow> Inl (Wrap e msg)
   | Inr x \<Rightarrow> (case decodeAll u msg vs of Inl e \<Rightarrow> Inl e | Inr xs \<Rightarrow> Inr (x # xs)))"

definition ListCluster :: "codec \<Rightarrow> ClusterIndex \<Rightarrow> string \<Rightarrow> (gerr + ClusterId list) eff" where
  "ListCluster K n sel = (let bName = os_BucketName (cix_store n)
     in if bName = [] then ret (Inl noBucket)
        else andThen (os_ListObject (cix_store n) ''wdrip/clusters'') (\<lambda>r. case r of
            Inl e \<Rightarrow> ret (Inl (Wrap e (''list clusters: '' @ bName)))
          | Inr mlist \<Rightarrow> ret (decodeAll (cd_uncluster K) ''unmarshal ClusterIndex'' mlist)))"

definition SaveNodePool :: "codec \<Rightarrow> NodePoolIndex \<Rightarrow> NodePool \<Rightarrow> gerr option eff" where
  "SaveNodePool K n np = (let bName = os_BucketName (nix_store n)
     in if bName = [] then ret (Some noBucket)
        else putEnsuring (nix_store n) bName (cd_pool K np) (nPath bName (nix_cid n) (np_Name np)))"

definition GetNodePool :: "codec \<Rightarrow> NodePoolIndex \<Rightarrow> string \<Rightarrow> (gerr + NodePool) eff" where
  "GetNodePool K n ident = (let bName = os_BucketName (nix_store n)
     in if bName = [] then ret (Inl noBucket)
        else andThen (os_GetObject (nix_store n) (nPath bName (nix_cid n) ident)) (\<lambda>r. case r of
            Inl e \<Rightarrow> ret (Inl (Wrap e (''get NodePoolIndex: '' @ ident)))
          | Inr data \<Rightarrow> (case cd_unpool K data of
              Inl e \<Rightarrow> ret (Inl (Wrap e (''unmarshal NodePoolIndex: '' @ ident)))
            | Inr cid \<Rightarrow> ret (Inr cid))))"

definition RemoveNodePool :: "NodePoolIndex \<Rightarrow> string \<Rightarrow> gerr option eff" where
  "RemoveNodePool n ident = (let bName = os_BucketName (nix_store n)
     in if bName = [] then ret (Some noBucket)
        else os_DeleteObject (nix_store n) (nPath bName (nix_cid n) ident))"

definition ListNodePools :: "codec \<Rightarrow> NodePoolIndex \<Rightarrow> string \<Rightarrow> (gerr + NodePool list) eff" where
  "ListNodePools K n sel = (let bName = os_BucketName (nix_store n)
     in if bName = [] then ret (Inl noBucket)
        else andThen (os_ListObject (nix_store n) (''wdrip/nodepools/'' @ nix_cid n)) (\<lambda>r. case r of
            Inl e \<Rightarrow> ret (Inl (Wrap e (''list clusters: '' @ bName)))
          | Inr mlist \<Rightarrow> ret (decodeAll (cd_unpool K) ''unmarshal NodePoolIndex'' mlist)))"

section \<open>Snapshots\<close>

definition KEEP_COPIES_CNT :: nat where "KEEP_COPIES_CNT = 4"

definition newSnapshot :: "string \<Rightarrow> SnapshotData" where
  "newSnapshot name = \<lparr>sn_Prefix = ''wdrip/backup'', sn_Name = name, sn_Copies = [], sn_Spec = None\<rparr>"

definition base :: "SnapshotData \<Rightarrow> string" where
  "base i = sn_Prefix i @ ''/'' @ sn_Name i"

definition IndexLocation :: "SnapshotData \<Rightarrow> string" where
  "IndexLocation i = base i @ ''/index.json''"

definition Path :: "SnapshotData \<Rightarrow> Backup \<Rightarrow> string" where
  "Path i b = base i @ ''/'' @ bk_Identity b @ ''/snapshot.db''"

definition URI :: "SnapshotData \<Rightarrow> Backup \<Rightarrow> string \<Rightarrow> string" where
  "URI i b bName = ''oss://'' @ bName @ ''/'' @ Path i b"

definition Load :: "codec \<Rightarrow> SnapshotData \<Rightarrow> string \<Rightarrow> SnapshotData \<times> gerr option" where
  "Load K i b = (if b = [] then (i, None) else cd_unsnapshot K b i)"

text \<open>
  Backups with the same identity are equal, so the order in which the sort leaves them does not matter.
\<close>

definition SortBackups :: "SnapshotData \<Rightarrow> SnapshotData" where
  "SortBackups i = i\<lparr>sn_Copies := rev (sort_key bk_Identity (sn_Copies i))\<rparr>"

definition LatestBackup :: "SnapshotData \<Rightarrow> SnapshotData \<times> Backup option" where
  "LatestBackup i = (let i = SortBackups i in (i, case sn_Copies i of [] \<Rightarrow> None | b # _ \<Rightarrow> Some b))"

definition HourNow :: "env \<Rightarrow> string eff" where
  "HourNow E = andThen (now E) (\<lambda>n. ret (e_format_hour E n))"

definition NewSnapshotIndex :: "string \<Rightarrow> ObjectStorage \<Rightarrow> SnapshotIndex" where
  "NewSnapshotIndex ident store =
     \<lparr>six_load = False, six_snapshot = Some (newSnapshot ident), six_store = store\<rparr>"

definition locked :: "string \<Rightarrow> 'a eff \<Rightarrow> 'a eff" where
  "locked l body = andThen (perform (CLock l) (\<lambda>_. ())) (\<lambda>_. with_defer body (CUnlock l))"

definition LazyLoad :: "codec \<Rightarrow> SnapshotIndex \<Rightarrow> (SnapshotIndex \<times> gerr option) eff" where
  "LazyLoad K i = locked ''index''
     (if six_load i then ret (i, None)
      else (case six_snapshot i of
        None \<Rightarrow> ret (i, Some (Errorf ''snapshot not initialized: ''))
      | Some sn \<Rightarrow> andThen (os_GetObject (six_store i) (IndexLocation sn)) (\<lambda>r. case r of
          Inl e \<Rightarrow> if contains (err_msg e) ''NoSuchKey'' then ret (i, None)
                   else ret (i, Some (Wrap e (''get snapshot: '' @ IndexLocation sn)))
        | Inr data \<Rightarrow> (case Load K sn data of (sn, err) \<Rightarrow> ret (i\<lparr>six_snapshot := Some sn\<rparr>, err)))))"

definition SnapshotOf :: "codec \<Rightarrow> SnapshotIndex \<Rightarrow> (SnapshotIndex \<times> SnapshotData option \<times> gerr option) eff" where
  "SnapshotOf K i = andThen (LazyLoad K i) (\<lambda>(i, err). ret (i, six_snapshot i, err))"

definition DownloadLatest ::
    "codec \<Rightarrow> SnapshotIndex \<Rightarrow> string \<Rightarrow> (SnapshotIndex \<times> ClusterSpec option \<times> gerr option) eff" where
  "DownloadLatest K i dir = andThen (LazyLoad K i) (\<lambda>(i, err). case err of
     Some e \<Rightarrow> ret (i, None, Some (Wrap e ''load latest backup''))
   | None \<Rightarrow> locked ''index'' (andThen (deref (six_snapshot i)) (\<lambda>sn.
       case LatestBackup sn of (sn, backup) \<Rightarrow>
         (let i = i\<lparr>six_snapshot := Some sn\<rparr>
          in case backup of
            None \<Rightarrow> ret (i, sn_Spec sn, Some (Errorf ''BackupNotFound''))
          | Some b \<Rightarrow> andThen (os_GetFile (six_store i) (Path sn b) (if dir = [] then SnapshotTMP else dir)) (\<lambda>err.
              case err of
                Some e \<Rightarrow> ret (i, None, Some (Wrap e ''download latest backup''))
              | None \<Rightarrow> ret (i, sn_Spec sn, None))))))"

definition BackupTo :: "env \<Rightarrow> codec \<Rightarrow> SnapshotIndex \<Rightarrow> ClusterSpec \<Rightarrow> (SnapshotIndex \<times> gerr option) eff" where
  "BackupTo E K i spec = andThen (LazyLoad K i) (\<lambda>(i, err). case err of
     Some e \<Rightarrow> ret (i, Some (Wrap e ''load latest backup''))
   | None \<Rightarrow> locked ''index'' (andThen (deref (six_snapshot i)) (\<lambda>sn. andThen (HourNow E) (\<lambda>h.
       let backup = \<lparr>bk_Identity = h\<rparr>
       in andThen (os_PutFile (six_store i) SnapshotTMP (Path sn backup)) (\<lambda>err. case err of
         Some e \<Rightarrow> ret (i, Some (Wrap e (''put file '' @ SnapshotTMP @ '': '' @ Path sn backup)))
       | None \<Rightarrow>
          (let sn' = sn\<lparr>sn_Copies := sn_Copies sn @ [backup], sn_Spec := Some spec\<rparr>;
               i' = i\<lparr>six_snapshot := Some sn'\<rparr>
           in andThen (os_PutObject (six_store i) (cd_snapshot K sn') (IndexLocation sn')) (\<lambda>err. case err of
             Some e \<Rightarrow> ret (i', Some (Wrap e (''put snapshot object: '' @ IndexLocation sn')))
           | None \<Rightarrow> ret (i', None))))))))"

text \<open>The loop of \<^verbatim>\<open>BackupGC\<close> over the copies past the first four; a failed deletion is only logged.\<close>

fun deleteCopies :: "ObjectStorage \<Rightarrow> SnapshotData \<Rightarrow> Backup list \<Rightarrow> unit eff" where
  "deleteCopies store sn [] = ret ()"
| "deleteCopies store sn (b # bs) =
     andThen (os_DeleteObject store (Path sn b)) (\<lambda>_. deleteCopies store sn bs)"

definition BackupGC :: "codec \<Rightarrow> SnapshotIndex \<Rightarrow> (SnapshotIndex \<times> gerr option) eff" where
  "BackupGC K i = andThen (LazyLoad K i) (\<lambda>(i, err). case err of
     Some e \<Rightarrow> ret (i, Some (Wrap e ''load latest backup''))
   | None \<Rightarrow> locked ''index'' (andThen (deref (six_snapshot i)) (\<lambda>sn.
       if length (sn_Copies sn) \<le> KEEP_COPIES_CNT then ret (i, None)
       else (let sn = SortBackups sn;
                 sn' = sn\<lparr>sn_Copies := take KEEP_COPIES_CNT (sn_Copies sn)\<rparr>
             in andThen (deleteCopies (six_store i) sn (drop KEEP_COPIES_CNT (sn_Copies sn))) (\<lambda>_.
                andThen (os_PutObject (six_store i) (cd_snapshot K sn') (IndexLocation sn')) (\<lambda>_.
                  ret (i\<lparr>six_snapshot := Some sn'\<rparr>, None)))))))"

definition NewGenericIndexer :: "string \<Rightarrow> ObjectStorage \<Rightarrow> GenericIndexer" where
  "NewGenericIndexer ident store = \<lparr>gix_snapshot = NewSnapshotIndex ident store,
     gix_cluster = NewClusterIndex ident store, gix_pool = NewNodePoolIndex ident store\<rparr>"

section \<open>The backup controller\<close>

text \<open>
  \<^verbatim>\<open>prvd.NewContext\<close> makes the provider, here the store, from the cluster spec: it is the argument
  \<open>newctx\<close>.
\<close>

record Runner =
  rn_spec :: "Cluster option"
  rn_index :: "GenericIndexer option"

definition initialize ::
    "env \<Rightarrow> (ClusterSpec \<Rightarrow> (gerr + ObjectStorage) eff) \<Rightarrow> Runner \<Rightarrow> (Runner \<times> gerr option) eff" where
  "initialize E newctx s = andThen (Cluster_get E KUBERNETES_CLUSTER) (\<lambda>r. case r of
     Inl e \<Rightarrow> ret (s, Some (Errorf (''member: spec not found,'' @ err_msg e)))
   | Inr spec \<Rightarrow> (let s = s\<lparr>rn_spec := Some spec\<rparr>
       in andThen (newctx (cl_Spec spec)) (\<lambda>r. case r of
           Inl e \<Rightarrow> ret (s, Some (Wrap e ''new provider context''))
         | Inr store \<Rightarrow>
             ret (s\<lparr>rn_index := Some (NewGenericIndexer (cs_ClusterID (cl_Spec spec)) store)\<rparr>, None))))"

definition CleanUp :: "codec \<Rightarrow> Runner \<Rightarrow> Runner eff" where
  "CleanUp K s = locked ''snapshot'' (andThen (deref (rn_spec s)) (\<lambda>_. andThen (deref (rn_index s)) (\<lambda>ix.
     andThen (BackupGC K (gix_snapshot ix)) (\<lambda>(i, _). ret (s\<lparr>rn_index := Some (ix\<lparr>gix_snapshot := i\<rparr>)\<rparr>)))))"

definition runBackup ::
    "env \<Rightarrow> codec \<Rightarrow> (ClusterSpec \<Rightarrow> (gerr + ObjectStorage) eff) \<Rightarrow> Runner \<Rightarrow> Cluster \<Rightarrow> Master list \<Rightarrow>
     (Runner \<times> gerr option) eff" where
  "runBackup E K newctx s spec masters = andThen (initialize E newctx s) (\<lambda>(s, err). case err of
     Some e \<Rightarrow> ret (s, Some (Wrap e ''initialize snapshot backup failed''))
   | None \<Rightarrow> andThen (NewEtcdFromCRD E masters spec ETCD_TMP) (\<lambda>r. case r of
     Inl e \<Rightarrow> ret (s, Some (Errorf (''new etcd: '' @ err_msg e)))
   | Inr metcd \<Rightarrow> andThen (Snapshot E metcd SnapshotTMP) (\<lambda>err. case err of
     Some e \<Rightarrow> ret (s, Some (Wrap e ''snapshot etcd''))
   | None \<Rightarrow> andThen (deref (rn_index s)) (\<lambda>ix.
     andThen (GetCluster K (gix_cluster ix) (cs_ClusterID (cl_Spec spec))) (\<lambda>r. case r of
     Inl e \<Rightarrow> ret (s, Some (Wrap e ''load cluster id''))
   | Inr mid \<Rightarrow>
     andThen (SaveCluster K (gix_cluster ix) (mid\<lparr>cid_Spec := (cid_Spec mid)\<lparr>cis_Cluster := cl_Spec spec\<rparr>\<rparr>)) (\<lambda>err.
     case err of
       Some e \<Rightarrow> ret (s, Some (Wrap e ''save cluster spec''))
     | None \<Rightarrow> andThen (BackupTo E K (gix_snapshot ix) (cl_Spec spec)) (\<lambda>(i, err).
         ret (s\<lparr>rn_index := Some (ix\<lparr>gix_snapshot := i\<rparr>)\<rparr>, err))))))))"

definition doBackup ::
    "env \<Rightarrow> codec \<Rightarrow> (ClusterSpec \<Rightarrow> (gerr + ObjectStorage) eff) \<Rightarrow> Runner \<Rightarrow> (Runner \<times> gerr option) eff" where
  "doBackup E K newctx s = locked ''snapshot'' (andThen (MasterCRDS E) (\<lambda>r. case r of
     Inl e \<Rightarrow> ret (s, Some (Errorf (''member master: '' @ err_msg e)))
   | Inr masters \<Rightarrow> if masters = [] then ret (s, Some (Errorf ''master crd not found 0, abort backup''))
       else andThen (Cluster_get E KUBERNETES_CLUSTER) (\<lambda>r. case r of
         Inl e \<Rightarrow> ret (s, Some (Errorf (''member: spec not found,'' @ err_msg e)))
       | Inr spec \<Rightarrow> runBackup E K newctx s spec masters)))"

section \<open>Lemmas\<close>

lemma putEnsuring_done:
  assumes "putEnsuring store b d p tr = (Ret None, t)"
  shows "\<exists>t0. os_PutObject store d p t0 = (Ret None, t)"
proof -
  from assms obtain err t1 where put: "os_PutObject store d p tr = (Ret err, t1)"
    and k: "(case err of None \<Rightarrow> ret None | Some e \<Rightarrow> if contains (err_msg e) ''NoSuchBucket''
       then andThen (os_EnsureBucket store b) (\<lambda>err. case err of
           Some e \<Rightarrow> ret (Some (Wrap e (''create bucket fail: '' @ b)))
         | None \<Rightarrow> os_PutObject store d p)
       else ret (Some e)) t1 = (Ret None, t)"
    unfolding putEnsuring_def andThen_Ret_iff by blast
  then show ?thesis by (cases err) (auto simp: andThen_nil_iff split: if_splits)
qed

context object_storage
begin

lemma SaveNodePool_then_Get:
  assumes "coherent E" and "cd_unpool K (cd_pool K np) = Inr np" and "nix_store n = st"
    and save: "SaveNodePool K n np tr = (Ret None, t)"
    and frame: "\<And>b m c. loc (nPath (os_BucketName st) (nix_cid n) (np_Name np)) = Some (b, m) \<Longrightarrow>
      c \<in> set new \<Longrightarrow> \<not> writes b m c"
  shows "\<exists>t'. GetNodePool K n (np_Name np) (t @ new) = (Ret (Inr np), t')"
proof -
  let ?p = "nPath (os_BucketName st) (nix_cid n) (np_Name np)"
  from save assms(3) have b: "os_BucketName st \<noteq> []" and
    "putEnsuring st (os_BucketName st) (cd_pool K np) ?p tr = (Ret None, t)"
    by (auto simp: SaveNodePool_def Let_def split: if_splits)
  with putEnsuring_done obtain t0 where "os_PutObject st (cd_pool K np) ?p t0 = (Ret None, t)" by blast
  from put_then_get [OF assms(1) this, of new] frame obtain t' where
    "os_GetObject st ?p (t @ new) = (Ret (Inr (cd_pool K np)), t')" by blast
  with b assms(2,3) show ?thesis
    by (simp add: GetNodePool_def Let_def andThen_apply [of "os_GetObject st ?p"] ret_apply)
qed

end

lemma locked_run:
  assumes "locked l body tr = (r, t)"
  obtains t1 where "body (tr @ [CLock l]) = (r, t1)" and "t = t1 @ [CUnlock l]"
  using assms by (cases "body (tr @ [CLock l])") (auto simp: locked_def with_defer_apply andThen_perform)

subsection \<open>Sorting\<close>

lemma SortBackups_sorted:
  "\<forall>i j. i \<le> j \<longrightarrow> j < length (sn_Copies s) \<longrightarrow>
    bk_Identity (sn_Copies (SortBackups s) ! j) \<le> bk_Identity (sn_Copies (SortBackups s) ! i)"
proof (intro allI impI)
  fix i j
  assume ij: "i \<le> j" "j < length (sn_Copies s)"
  let ?l = "sort_key bk_Identity (sn_Copies s)"
  have "sorted (map bk_Identity ?l)" by simp
  with ij have "map bk_Identity ?l ! (length ?l - Suc j) \<le> map bk_Identity ?l ! (length ?l - Suc i)"
    by (intro sorted_nth_mono) auto
  with ij show "bk_Identity (sn_Copies (SortBackups s) ! j) \<le> bk_Identity (sn_Copies (SortBackups s) ! i)"
    by (simp add: SortBackups_def rev_nth)
qed

lemma SortBackups_mset: "mset (sn_Copies (SortBackups s)) = mset (sn_Copies s)"
  by (simp add: SortBackups_def)

lemma SortBackups_base [simp]: "base (SortBackups s) = base s" "Path (SortBackups s) b = Path s b"
  by (simp_all add: SortBackups_def base_def Path_def)

lemma Path_inj: "Path s b = Path s c \<longleftrightarrow> b = c"
  by (cases b, cases c) (simp add: Path_def)

subsection \<open>Runs of the snapshot index\<close>

lemma LazyLoad_store: "LazyLoad K i tr = (Ret (i1, err), t) \<Longrightarrow> six_store i1 = six_store i"
proof -
  have "returns (\<lambda>(i1, err). six_store i1 = six_store i) (LazyLoad K i)"
    unfolding LazyLoad_def locked_def by (intro returns_intro) auto
  then show "LazyLoad K i tr = (Ret (i1, err), t) \<Longrightarrow> six_store i1 = six_store i" by (auto dest: returnsD)
qed

lemma LazyLoad_emits:
  assumes "six_store i = ossStore E bucket" and "reads \<union> {CLock ''index'', CUnlock ''index''} \<subseteq> A"
  shows "emits A (LazyLoad K i)"
  unfolding LazyLoad_def locked_def assms(1)
  by (intro emits_intro oss.get_reads [THEN emits_mono]) (use assms(2) in \<open>auto split: prod.split intro: emits_intro\<close>)

lemma deleteCopies_emits:
  assumes "\<And>b. b \<in> set bs \<Longrightarrow> location bucket (Path sn b) = Some (bucket, Path sn b)"
  shows "emits {c. \<exists>b\<in>set bs. c = BDeleteObject bucket (Path sn b)} (deleteCopies (ossStore E bucket) sn bs)"
  using assms
proof (induction bs)
  case (Cons b bs)
  let ?A = "\<lambda>bs. {c. \<exists>b\<in>set bs. c = BDeleteObject bucket (Path sn b)}"
  have "emits (?A (b # bs)) (os_DeleteObject (ossStore E bucket) (Path sn b))"
    using oss.delete_one [of bucket "Path sn b" E] Cons.prems by (auto intro: emits_mono)
  moreover have "emits (?A (b # bs)) (deleteCopies (ossStore E bucket) sn bs)"
    using Cons by (intro emits_mono [OF Cons.IH]) auto
  ultimately show ?case by (auto intro: emits_andThen)
qed (simp add: emits_ret)

lemma plain_location: "\<not> prefix ''oss://'' k \<Longrightarrow> location bucket k = Some (bucket, k)"
  by (simp add: location_def resolve_def)

lemma backup_location:
  "sn_Prefix s = ''wdrip/backup'' \<Longrightarrow> location bucket (Path s b) = Some (bucket, Path s b)"
  "sn_Prefix s = ''wdrip/backup'' \<Longrightarrow> location bucket (IndexLocation s) = Some (bucket, IndexLocation s)"
  by (rule plain_location; simp add: Path_def IndexLocation_def base_def)+

lemma deref_run: "deref p tr = (Ret x, t) \<longleftrightarrow> p = Some x \<and> t = tr"
  by (auto simp: deref_def split: option.splits)

text \<open>What \<^verbatim>\<open>BackupGC\<close> does after the load.\<close>

lemma BackupGC_run:
  assumes load: "LazyLoad K i tr = (Ret (i1, None), t1)" and s: "six_snapshot i1 = Some s"
    and gc: "BackupGC K i tr = (Ret (i', err), t)"
  shows "err = None \<and> (if length (sn_Copies s) \<le> 4 then i' = i1 \<and> t = t1 @ [CLock ''index'', CUnlock ''index'']
    else i' = i1\<lparr>six_snapshot := Some (SortBackups s\<lparr>sn_Copies := take 4 (sn_Copies (SortBackups s))\<rparr>)\<rparr> \<and>
      (\<exists>t2 t3 e d k. deleteCopies (six_store i1) (SortBackups s) (drop 4 (sn_Copies (SortBackups s)))
         (t1 @ [CLock ''index'']) = (Ret (), t2) \<and>
       os_PutObject (six_store i1) d k t2 = (Ret e, t3) \<and> k = IndexLocation s \<and> t = t3 @ [CUnlock ''index'']))"
proof -
  define body where "body = (if length (sn_Copies s) \<le> KEEP_COPIES_CNT then ret (i1, None)
       else (let sn = SortBackups s;
                 sn' = sn\<lparr>sn_Copies := take KEEP_COPIES_CNT (sn_Copies sn)\<rparr>
             in andThen (deleteCopies (six_store i1) sn (drop KEEP_COPIES_CNT (sn_Copies sn))) (\<lambda>_.
                andThen (os_PutObject (six_store i1) (cd_snapshot K sn') (IndexLocation sn')) (\<lambda>_.
                  ret (i1\<lparr>six_snapshot := Some sn'\<rparr>, None :: gerr option)))))"
  have "BackupGC K i tr = locked ''index'' body t1"
    unfolding BackupGC_def body_def by (simp add: andThen_apply [of "LazyLoad K i", OF load] s deref_def)
  with gc obtain t4 where b: "body (t1 @ [CLock ''index'']) = (Ret (i', err), t4)" "t = t4 @ [CUnlock ''index'']"
    by (metis locked_run)
  have loc: "IndexLocation (SortBackups s\<lparr>sn_Copies := x\<rparr>) = IndexLocation s" for x
    by (simp add: IndexLocation_def base_def SortBackups_def)
  from b show ?thesis
    by (auto simp: body_def KEEP_COPIES_CNT_def Let_def andThen_Ret_iff loc) (intro exI, assumption)
qed

lemma BackupGC_deletes:
  assumes "six_store i = ossStore E bucket" and "LazyLoad K i tr = (Ret (i1, None), t1)"
    and "six_snapshot i1 = Some s" and "sn_Prefix s = ''wdrip/backup''"
    and "BackupGC K i tr = (Ret (i', err), t)"
    and "BDeleteObject bucket (Path s b) \<in> set (new_calls (BackupGC K i) tr)"
  shows "\<not> length (sn_Copies s) \<le> 4 \<and> b \<in> set (drop 4 (sn_Copies (SortBackups s)))"
proof -
  let ?A = "reads \<union> {CLock ''index'', CUnlock ''index''}" and ?l = "sn_Copies (SortBackups s)"
  note st = LazyLoad_store [OF assms(2), unfolded assms(1)]
  from emits_run [OF LazyLoad_emits [OF assms(1) order_refl] assms(2)] obtain n1 where
    n1: "t1 = tr @ n1" "set n1 \<subseteq> ?A" by blast
  note run = BackupGC_run [OF assms(2,3,5)]
  show ?thesis
  proof (cases "length (sn_Copies s) \<le> 4")
    case True
    with run n1 have "new_calls (BackupGC K i) tr = n1 @ [CLock ''index'', CUnlock ''index'']"
      using assms(5) by (simp add: new_calls_def)
    with n1(2) assms(6) show ?thesis by auto
  next
    case False
    with run obtain t2 t3 e d where
      del: "deleteCopies (ossStore E bucket) (SortBackups s) (drop 4 ?l) (t1 @ [CLock ''index'']) = (Ret (), t2)"
      and put: "os_PutObject (ossStore E bucket) d (IndexLocation s) t2 = (Ret e, t3)"
      and t: "t = t3 @ [CUnlock ''index'']" unfolding st by auto
    from emits_run [OF deleteCopies_emits del] backup_location(1) [OF assms(4)] obtain n2 where
      n2: "t2 = (t1 @ [CLock ''index'']) @ n2" "set n2 \<subseteq> {c. \<exists>b\<in>set (drop 4 ?l). c = BDeleteObject bucket (Path s b)}"
      by auto
    obtain n3 where n3: "t3 = t2 @ n3"
      "set n3 \<subseteq> {c. \<exists>b m. location bucket (IndexLocation s) = Some (b, m) \<and> c = BPutObject b m d}"
      by (rule emits_run [OF oss.put_one put])
    have "new_calls (BackupGC K i) tr = n1 @ [CLock ''index''] @ n2 @ n3 @ [CUnlock ''index'']"
      using assms(5) by (simp add: new_calls_def n1 n2 n3 t)
    with False n1(2) n2(2) n3(2) assms(6) show ?thesis by (auto simp: Path_inj)
  qed
qed

lemma SortBackups_split:
  assumes "b \<in> set (take k (sn_Copies (SortBackups s)))" and "c \<in> set (drop k (sn_Copies (SortBackups s)))"
  shows "bk_Identity c \<le> bk_Identity b"
  using assms SortBackups_sorted [of s] SortBackups_mset [of s, THEN mset_eq_length]
  by (fastforce simp: in_set_conv_nth)

lemma HourNow_run: "HourNow E tr = (Ret (e_format_hour E (e_now E tr)), tr @ [CNow])"
  by (simp add: HourNow_def now_def run_simps)

lemma BackupTo_run:
  assumes "BackupTo E K i spec tr = (Ret (i', None), t)"
  obtains i1 t1 sn t2 t3 where "LazyLoad K i tr = (Ret (i1, None), t1)" and "six_snapshot i1 = Some sn"
    and "os_PutFile (six_store i1) SnapshotTMP (Path sn \<lparr>bk_Identity = e_format_hour E (e_now E (t1 @ [CLock ''index'']))\<rparr>)
      (t1 @ [CLock ''index'', CNow]) = (Ret None, t2)"
    and "i' = i1\<lparr>six_snapshot := Some (sn\<lparr>sn_Copies := sn_Copies sn @
      [\<lparr>bk_Identity = e_format_hour E (e_now E (t1 @ [CLock ''index'']))\<rparr>], sn_Spec := Some spec\<rparr>)\<rparr>"
    and "os_PutObject (six_store i1) (cd_snapshot K (the (six_snapshot i'))) (IndexLocation sn) t2 = (Ret None, t3)"
    and "t = t3 @ [CUnlock ''index'']"
proof -
  from assms obtain i1 e1 t1 where load: "LazyLoad K i tr = (Ret (i1, e1), t1)"
    unfolding BackupTo_def andThen_Ret_iff by (auto split: prod.splits)
  define body where "body = andThen (deref (six_snapshot i1)) (\<lambda>sn. andThen (HourNow E) (\<lambda>h.
       let backup = \<lparr>bk_Identity = h\<rparr>
       in andThen (os_PutFile (six_store i1) SnapshotTMP (Path sn backup)) (\<lambda>err. case err of
         Some e \<Rightarrow> ret (i1, Some (Wrap e (''put file '' @ SnapshotTMP @ '': '' @ Path sn backup)))
       | None \<Rightarrow>
          (let sn' = sn\<lparr>sn_Copies := sn_Copies sn @ [backup], sn_Spec := Some spec\<rparr>;
               i' = i1\<lparr>six_snapshot := Some sn'\<rparr>
           in andThen (os_PutObject (six_store i1) (cd_snapshot K sn') (IndexLocation sn')) (\<lambda>err. case err of
             Some e \<Rightarrow> ret (i', Some (Wrap e (''put snapshot object: '' @ IndexLocation sn')))
           | None \<Rightarrow> ret (i', None))))))"
  from assms load have "e1 = None" and run: "locked ''index'' body t1 = (Ret (i', None), t)"
    unfolding BackupTo_def body_def by (auto simp: andThen_apply [of "LazyLoad K i", OF load] split: option.splits)
  from run obtain t3 where b: "body (t1 @ [CLock ''index'']) = (Ret (i', None), t3)" "t = t3 @ [CUnlock ''index'']"
    by (rule locked_run)
  let ?b = "\<lparr>bk_Identity = e_format_hour E (e_now E (t1 @ [CLock ''index'']))\<rparr>"
  from b(1) obtain sn err t2 where sn: "six_snapshot i1 = Some sn"
    and f: "os_PutFile (six_store i1) SnapshotTMP (Path sn ?b) (t1 @ [CLock ''index'', CNow]) = (Ret err, t2)"
    and k: "(case err of
         Some e \<Rightarrow> ret (i1, Some (Wrap e (''put file '' @ SnapshotTMP @ '': '' @ Path sn ?b)))
       | None \<Rightarrow>
          (let sn' = sn\<lparr>sn_Copies := sn_Copies sn @ [?b], sn_Spec := Some spec\<rparr>;
               i' = i1\<lparr>six_snapshot := Some sn'\<rparr>
           in andThen (os_PutObject (six_store i1) (cd_snapshot K sn') (IndexLocation sn')) (\<lambda>err. case err of
             Some e \<Rightarrow> ret (i', Some (Wrap e (''put snapshot object: '' @ IndexLocation sn')))
           | None \<Rightarrow> ret (i', None)))) t2 = (Ret (i', None), t3)"
    unfolding body_def andThen_Ret_iff deref_run HourNow_run Let_def by auto
  from k have "err = None" by (auto split: option.splits)
  with k load \<open>e1 = None\<close> sn f b(2) show thesis
    by (intro that [of i1 t1 sn t2 t3])
      (auto simp: Let_def andThen_Ret_iff IndexLocation_def base_def split: option.splits)
qed

section \<open>An example store\<close>

text \<open>
  A storage service that keeps the last value written to each object, an encoder for the parts of a
  snapshot that differ in the examples, and an index with five copies.
\<close>

fun store_step :: "string \<Rightarrow> string \<Rightarrow> gerr + string \<Rightarrow> call \<Rightarrow> gerr + string" where
  "store_step b k r (BlobWrite (PutObjectC b' k' d)) = (if b' = b \<and> k' = k then Inr d else r)"
| "store_step b k r (BlobWrite (DeleteObjectC b' k')) = (if b' = b \<and> k' = k then Inl (Errorf ''NoSuchKey'') else r)"
| "store_step b k r _ = r"

definition store_env :: env where
  "store_env = env0\<lparr>e_object := (\<lambda>tr b k. foldl (store_step b k) (Inl (Errorf ''NoSuchKey'')) tr)\<rparr>"

definition codec0 :: codec where
  "codec0 = \<lparr>cd_cluster = (\<lambda>c. ''c''), cd_uncluster = (\<lambda>b. Inl not_found),
     cd_pool = np_Name, cd_unpool = (\<lambda>b. Inr (nodepool0 b None)),
     cd_snapshot = (\<lambda>s. join ''|'' (sn_Name s # map bk_Identity (sn_Copies s))),
     cd_unsnapshot = (\<lambda>b s. case split_on b ''|'' of [] \<Rightarrow> (s, Some not_found)
       | n # ids \<Rightarrow> (s\<lparr>sn_Name := n, sn_Copies := map Backup.make ids, sn_Spec := Some spec0\<rparr>, None))\<rparr>"

definition snapshot5 :: SnapshotData where
  "snapshot5 = (newSnapshot ''c1'')\<lparr>sn_Spec := Some spec0,
     sn_Copies := map Backup.make [''20210103'', ''20210105'', ''20210101'', ''20210104'', ''20210102'']\<rparr>"

definition stored5 :: "call list" where
  "stored5 = [BPutObject ''b'' (IndexLocation snapshot5) (cd_snapshot codec0 snapshot5)]"

definition index0 :: SnapshotIndex where
  "index0 = NewSnapshotIndex ''c1'' (ossStore store_env ''b'')"

lemma store_env_coherent: "coherent store_env"
proof -
  have "store_step b k r c = r" if "\<not> writes b k c" for b k r c
    using that by (cases "(b, k, r, c)" rule: store_step.cases) auto
  then show ?thesis by (auto simp: coherent_def store_env_def)
qed

section \<open>Properties\<close>



text \<open>
  C8: a finished backup can be found again. When \<^verbatim>\<open>Backup\<close> reports success on a store that keeps what
  it is given, the snapshot file was uploaded under the identity of the current minute, and an index
  opened afresh for the same cluster loads exactly the in-memory index: its last copy is the new
  backup and its cluster spec the given one.
\<close>

theorem BackupTo_recoverable:
  assumes "coherent E" and "cd_unsnapshot K (cd_snapshot K s) (newSnapshot (sn_Name s)) = (s, None)"
    and "cd_snapshot K s \<noteq> []"
    and "BackupTo E K i spec tr = (Ret (i', None), t)" and "six_store i = ossStore E bucket"
    and "six_snapshot i' = Some s" and "sn_Prefix s = ''wdrip/backup''"
  shows "sn_Spec s = Some spec \<and>
    (\<exists>t'. LazyLoad K (NewSnapshotIndex (sn_Name s) (ossStore E bucket)) t =
      (Ret ((NewSnapshotIndex (sn_Name s) (ossStore E bucket))\<lparr>six_snapshot := Some s\<rparr>, None), t')) \<and>
    (\<exists>t0 t2. os_PutFile (ossStore E bucket) SnapshotTMP (Path s (last (sn_Copies s))) t0 = (Ret None, t2))"
proof -
  from assms(4) obtain i1 t1 sn t2 t3 where load: "LazyLoad K i tr = (Ret (i1, None), t1)"
    and f: "os_PutFile (six_store i1) SnapshotTMP (Path sn \<lparr>bk_Identity = e_format_hour E (e_now E (t1 @ [CLock ''index'']))\<rparr>)
      (t1 @ [CLock ''index'', CNow]) = (Ret None, t2)"
    and i': "i' = i1\<lparr>six_snapshot := Some (sn\<lparr>sn_Copies := sn_Copies sn @
      [\<lparr>bk_Identity = e_format_hour E (e_now E (t1 @ [CLock ''index'']))\<rparr>], sn_Spec := Some spec\<rparr>)\<rparr>"
    and put: "os_PutObject (six_store i1) (cd_snapshot K (the (six_snapshot i'))) (IndexLocation sn) t2 = (Ret None, t3)"
    and t: "t = t3 @ [CUnlock ''index'']" by (rule BackupTo_run)
  note st = LazyLoad_store [OF load, unfolded assms(5)]
  from i' assms(6) have s: "s = sn\<lparr>sn_Copies := sn_Copies sn @
      [\<lparr>bk_Identity = e_format_hour E (e_now E (t1 @ [CLock ''index'']))\<rparr>], sn_Spec := Some spec\<rparr>" by simp
  then have loc: "IndexLocation s = IndexLocation sn" "Path s b = Path sn b"
    "IndexLocation (newSnapshot (sn_Name s)) = IndexLocation s" for b
    using assms(7) by (simp_all add: IndexLocation_def Path_def base_def newSnapshot_def)
  have quiet: "\<not> writes b m c" if "c \<in> set [CUnlock ''index'', CLock ''index'']" for b m c using that by auto
  have "\<exists>t'. os_GetObject (ossStore E bucket) (IndexLocation s) (t3 @ [CUnlock ''index'', CLock ''index'']) =
      (Ret (Inr (cd_snapshot K s)), t')"
    using oss.put_then_get [OF assms(1) put [unfolded st assms(6) option.sel loc(1) [symmetric]] quiet] by blast
  then obtain t' where get: "os_GetObject (ossStore E bucket) (IndexLocation s)
      (t3 @ [CUnlock ''index'', CLock ''index'']) = (Ret (Inr (cd_snapshot K s)), t')" by blast
  have "LazyLoad K (NewSnapshotIndex (sn_Name s) (ossStore E bucket)) t =
      (Ret ((NewSnapshotIndex (sn_Name s) (ossStore E bucket))\<lparr>six_snapshot := Some s\<rparr>, None), t' @ [CUnlock ''index''])"
    using get assms(2,3)
    by (simp add: LazyLoad_def NewSnapshotIndex_def locked_def andThen_perform with_defer_apply t loc(3) Load_def
      andThen_apply [of "os_GetObject (ossStore E bucket) (IndexLocation s)", OF get] ret_apply)
  with f s st loc(2) show ?thesis by auto
qed

theorem BackupTo_recoverable_witness:
  "\<exists>i' t (s :: SnapshotData). BackupTo store_env codec0 index0 spec0 stored5 = (Ret (i', None), t) \<and> six_snapshot i' = Some s \<and>
    length (sn_Copies s) = 6 \<and> sn_Spec s = Some spec0 \<and>
    (\<exists>t'. LazyLoad codec0 (NewSnapshotIndex (sn_Name s) (ossStore store_env ''b'')) t =
      (Ret ((NewSnapshotIndex (sn_Name s) (ossStore store_env ''b''))\<lparr>six_snapshot := Some s\<rparr>, None), t'))"
proof -
  let ?s = "snapshot5\<lparr>sn_Copies := sn_Copies snapshot5 @ [Backup.make ''19700101-0016'']\<rparr>"
  have "case fst (BackupTo store_env codec0 index0 spec0 stored5) of
      Ret (i, e) \<Rightarrow> six_snapshot i = Some ?s \<and> e = None | _ \<Rightarrow> False" by code_simp
  then obtain i' t where b: "BackupTo store_env codec0 index0 spec0 stored5 = (Ret (i', None), t)" "six_snapshot i' = Some ?s"
    by (cases "BackupTo store_env codec0 index0 spec0 stored5") (auto split: outcome.splits)
  have c: "cd_unsnapshot codec0 (cd_snapshot codec0 ?s) (newSnapshot (sn_Name ?s)) = (?s, None)" "cd_snapshot codec0 ?s \<noteq> []"
    by code_simp+
  have st: "six_store index0 = ossStore store_env ''b''" "sn_Prefix ?s = ''wdrip/backup''" "length (sn_Copies ?s) = 6"
    by (simp_all add: index0_def NewSnapshotIndex_def snapshot5_def newSnapshot_def)
  from BackupTo_recoverable [OF store_env_coherent c b(1) st(1) b(2) st(2)] b st(3) show ?thesis by blast
qed

text \<open>
  C28: the backup that is restored is the newest one: when \<^verbatim>\<open>LatestBackup\<close> succeeds it has downloaded the
  snapshot of a copy of the index whose identity no other copy exceeds, and it returns the spec stored
  with the index.
\<close>

theorem DownloadLatest_newest:
  assumes "DownloadLatest K i dir tr = (Ret (i', spec, None), t)"
  shows "\<exists>s b t0 t1. six_snapshot i' = Some s \<and> b \<in> set (sn_Copies s) \<and> sn_Spec s = spec \<and>
    (\<forall>c\<in>set (sn_Copies s). bk_Identity c \<le> bk_Identity b) \<and>
    os_GetFile (six_store i') (Path s b) (if dir = [] then SnapshotTMP else dir) t0 = (Ret None, t1)"
proof -
  from assms obtain i1 e1 t1 where load: "LazyLoad K i tr = (Ret (i1, e1), t1)"
    unfolding DownloadLatest_def andThen_Ret_iff by (auto split: prod.splits)
  let ?d = "if dir = [] then SnapshotTMP else dir"
  define rest where "rest sn b = andThen (os_GetFile (six_store i1) (Path sn b) ?d) (\<lambda>err. case err of
      Some e \<Rightarrow> ret (i1\<lparr>six_snapshot := Some sn\<rparr>, None, Some (Wrap e ''download latest backup''))
    | None \<Rightarrow> ret (i1\<lparr>six_snapshot := Some sn\<rparr>, sn_Spec sn, None))" for sn b
  define body where "body = andThen (deref (six_snapshot i1)) (\<lambda>sn. case LatestBackup sn of (sn, backup) \<Rightarrow>
      (case backup of None \<Rightarrow> ret (i1\<lparr>six_snapshot := Some sn\<rparr>, sn_Spec sn, Some (Errorf ''BackupNotFound''))
       | Some b \<Rightarrow> rest sn b))"
  from assms have run: "locked ''index'' body t1 = (Ret (i', spec, None), t)"
    unfolding DownloadLatest_def body_def rest_def
    by (auto simp: andThen_apply [of "LazyLoad K i", OF load] Let_def split: option.splits)
  then obtain t2 where b: "body (t1 @ [CLock ''index'']) = (Ret (i', spec, None), t2)" by (rule locked_run)
  then obtain sn where "six_snapshot i1 = Some sn" and l: "(case LatestBackup sn of (sn, backup) \<Rightarrow>
      (case backup of None \<Rightarrow> ret (i1\<lparr>six_snapshot := Some sn\<rparr>, sn_Spec sn, Some (Errorf ''BackupNotFound''))
       | Some b \<Rightarrow> rest sn b)) (t1 @ [CLock ''index'']) = (Ret (i', spec, None), t2)"
    unfolding body_def andThen_Ret_iff deref_run by blast
  define s where "s = SortBackups sn"
  from l obtain b bs where bs: "sn_Copies s = b # bs" and r: "rest s b (t1 @ [CLock ''index'']) = (Ret (i', spec, None), t2)"
    unfolding s_def by (cases "sn_Copies (SortBackups sn)") (auto simp: LatestBackup_def Let_def)
  from r obtain err where "os_GetFile (six_store i1) (Path s b) ?d (t1 @ [CLock ''index'']) = (Ret err, t2)"
    and "err = None \<and> i' = i1\<lparr>six_snapshot := Some s\<rparr> \<and> spec = sn_Spec s"
    unfolding rest_def andThen_Ret_iff by (auto split: option.splits)
  moreover have "\<forall>c\<in>set (sn_Copies s). bk_Identity c \<le> bk_Identity b"
    using SortBackups_split [of b 1 sn] bs unfolding s_def by auto
  ultimately show ?thesis using bs
    by (intro exI [of _ s] exI [of _ b] exI [of _ "t1 @ [CLock ''index'']"] exI [of _ t2]) auto
qed

theorem DownloadLatest_newest_witness:
  "\<exists>i' spec t (s :: SnapshotData) b. DownloadLatest codec0 index0 ''/tmp/db'' stored5 = (Ret (i', spec, None), t) \<and>
    six_snapshot i' = Some s \<and> b \<in> set (sn_Copies s) \<and> (\<forall>c\<in>set (sn_Copies s). bk_Identity c \<le> bk_Identity b)"
proof -
  have "case fst (DownloadLatest codec0 index0 ''/tmp/db'' stored5) of Ret (i, sp, e) \<Rightarrow> e = None | _ \<Rightarrow> False" by code_simp
  then obtain i' spec t where d: "DownloadLatest codec0 index0 ''/tmp/db'' stored5 = (Ret (i', spec, None), t)"
    by (cases "DownloadLatest codec0 index0 ''/tmp/db'' stored5") (auto split: outcome.splits)
  from DownloadLatest_newest [OF d] d show ?thesis by blast
qed

text \<open>
  A saved node pool reads back as it was saved, on a store that keeps what it is given and with a
  decoder that inverts the encoder, until somebody writes the same object.
\<close>

lemma SaveNodePool_GetNodePool:
  assumes "coherent E" and "cd_unpool K (cd_pool K np) = Inr np"
    and "SaveNodePool K (NewNodePoolIndex cid (ossStore E bucket)) np tr = (Ret None, t)"
    and "\<And>b m c. location bucket (nPath bucket cid (np_Name np)) = Some (b, m) \<Longrightarrow> c \<in> set new \<Longrightarrow> \<not> writes b m c"
  shows "\<exists>t'. GetNodePool K (NewNodePoolIndex cid (ossStore E bucket)) (np_Name np) (t @ new) = (Ret (Inr np), t')"
  by (rule oss.SaveNodePool_then_Get [OF assms(1,2) _ assms(3)])
    (use assms(4) in \<open>auto simp: NewNodePoolIndex_def ossStore_def\<close>)

end
