(* ===== verification/Controllers.thy ===== *)
theory Controllers
  imports Healet Index
begin

text \<open>
  The reconcilers of \<^verbatim>\<open>pkg/operator/controllers\<close>: the master set
  (\<^verbatim>\<open>master/masterset.go\<close>), which scales the control plane without losing the etcd quorum, and the node
  pools (\<^verbatim>\<open>nodepool/np_controller.go\<close>). A reconciler answers a \<open>Result\<close> and an error. The clients, the
  event recorder and the scheme that the structs carry are the environment; the provider's object
  storage and the JSON encoder are arguments.
\<close>

section \<open>The master set\<close>

record MasterSetReconciler =
  msr_healet :: Healet

definition zeroResult :: Result where
  "zeroResult = \<lparr>res_Requeue = False, res_RequeueAfter = 0\<rparr>"

definition after :: "int \<Rightarrow> Result" where
  "after d = \<lparr>res_Requeue = True, res_RequeueAfter = d\<rparr>"

definition endpointOf :: "string \<Rightarrow> string" where
  "endpointOf ip = ''https://'' @ ip @ '':2379''"

definition findId :: "env \<Rightarrow> instances \<Rightarrow> string \<Rightarrow> string eff" where
  "findId E ecs ip = andThen (range_map E ecs) (\<lambda>l.
     ret (case find (\<lambda>(k, i). ip = endpointOf (ins_Ip i)) l of Some (k, i) \<Rightarrow> ins_Id i | None \<Rightarrow> []))"

text \<open>
  The quotient is only used through the maximum with one, so that it does not matter how the quotient of a
  negative number is rounded.
\<close>

definition quorumTarget :: "int \<Rightarrow> int \<Rightarrow> int" where
  "quorumTarget current expect = (let mx = Max_int ((current - 1) div 2) 1 in Max_int (current - mx) expect)"

definition QuorumScale :: "(int \<Rightarrow> gerr option eff) \<Rightarrow> int \<Rightarrow> int \<Rightarrow> gerr option eff" where
  "QuorumScale mfunc current expect =
     (if expect = current then ret None
      else if expect > current then mfunc expect
      else andThen (mfunc (quorumTarget current expect)) (\<lambda>err. case err of
          Some e \<Rightarrow> ret (Some e)
        | None \<Rightarrow> ret (Some (Errorf ''RetryNextBatch''))))"

text \<open>
  The closure \<^verbatim>\<open>scale\<close> of \<^verbatim>\<open>Reconcile\<close>. The error it wraps when the control plane is not healthy is the
  variable of the enclosing function, which is nil whenever the closure is called.
\<close>

definition scale :: "env \<Rightarrow> Healet \<Rightarrow> instances \<Rightarrow> gerr option \<Rightarrow> int \<Rightarrow> gerr option eff" where
  "scale E h instances err expect = andThen (Healthy E h) (\<lambda>healthy.
     if \<not> healthy then ret (Wrapf err ''[QuorumScale] controlplane not healthy, wait retry'')
     else if expect = 1
     then andThen (RemoveFollower E) (\<lambda>(ip, err). case err of
         Some e \<Rightarrow> ret (Some (Errorf (''quorum remove etcd member: '' @ err_msg e)))
       | None \<Rightarrow> andThen (findId E instances ip) (\<lambda>ident.
           if ident = [] then ret (Some (Errorf (''ecs not found by ip: '' @ ip)))
           else andThen (do_call E (PRemoveScalingGroupECS [] ident)) (\<lambda>err. case err of
               Some e \<Rightarrow> ret (Some (Errorf (''remove ecs from scaling group: '' @ err_msg e)))
             | None \<Rightarrow> ret None)))
     else andThen (do_call E (PScaleMasterGroup [] expect)) (\<lambda>err. case err of
         Some e \<Rightarrow> andThen (Sleep (30 * Second)) (\<lambda>_. ret (Some (Errorf (''scale master group: '' @ err_msg e))))
       | None \<Rightarrow> ret None))"

definition scaleGroup :: "env \<Rightarrow> Healet \<Rightarrow> MasterSet \<Rightarrow> (Result \<times> gerr option) eff" where
  "scaleGroup E h ms = andThen (ScalingGroupDetail E []) (\<lambda>r. case r of
     Inl e \<Rightarrow> ret (after (15 * Second), None)
   | Inr instances \<Rightarrow>
     if int (length instances) = mset_Replicas ms then ret (zeroResult, None)
     else andThen (perform (PUserData JoinMasterUserdata) (\<lambda>tr. e_userdata E tr JoinMasterUserdata)) (\<lambda>r. case r of
       Inl e \<Rightarrow> ret (zeroResult, Some (Wrap e ''join master userdata''))
     | Inr ud \<Rightarrow> andThen (do_call E (PModifyScalingConfig [] ud)) (\<lambda>err. case err of
         Some e \<Rightarrow> ret (after (30 * Second), None)
       | None \<Rightarrow> andThen (QuorumScale (scale E h instances None) (int (length instances)) (mset_Replicas ms))
           (\<lambda>err. ret (zeroResult, err)))))"

definition MasterSetReconcile :: "env \<Rightarrow> MasterSetReconciler \<Rightarrow> (Result \<times> gerr option) eff" where
  "MasterSetReconcile E m = andThen (Healthy E (msr_healet m)) (\<lambda>healthy.
     if \<not> healthy then andThen (FixMasterNode E (msr_healet m)) (\<lambda>_. ret (after Minute, None))
     else andThen (MasterSet_get E ''masterset'') (\<lambda>r. case r of
       Inl e \<Rightarrow> ret (after Minute, None)
     | Inr ms \<Rightarrow> andThen (MasterNodes E) (\<lambda>r. case r of
         Inl e \<Rightarrow> ret (zeroResult, Some (Errorf (''get nodes: '' @ err_msg e)))
       | Inr mnode \<Rightarrow> if int (length mnode) = mset_Replicas ms then ret (zeroResult, None)
           else scaleGroup E (msr_healet m) ms)))"

section \<open>Node pools\<close>

record ReconcileNodePool =
  rnp_heal :: Healet
  rnp_prvd :: ObjectStorage
  rnp_codec :: codec

definition NODE_POOL_FINALIZER :: string where "NODE_POOL_FINALIZER = ''nodepool''"
definition NodePoolHashLabel :: string where "NodePoolHashLabel = ''alibabacloud.com/nodepool.hash''"

definition EnsureNodePoolBackup :: "env \<Rightarrow> ReconcileNodePool \<Rightarrow> NodePool \<Rightarrow> gerr option eff" where
  "EnsureNodePoolBackup E r np = andThen (Cluster_get E KUBERNETES_CLUSTER) (\<lambda>c. case c of
     Inl e \<Rightarrow> ret (Some (Wrap e ''get cluster id''))
   | Inr spec \<Rightarrow> SaveNodePool (rnp_codec r) (NewNodePoolIndex (cs_ClusterID (cl_Spec spec)) (rnp_prvd r)) np)"

definition DeleteNodePoolBackup :: "env \<Rightarrow> ReconcileNodePool \<Rightarrow> NodePool \<Rightarrow> gerr option eff" where
  "DeleteNodePoolBackup E r np = andThen (Cluster_get E KUBERNETES_CLUSTER) (\<lambda>c. case c of
     Inl e \<Rightarrow> ret (Some (Wrap e ''get cluster id''))
   | Inr spec \<Rightarrow> RemoveNodePool (NewNodePoolIndex (cs_ClusterID (cl_Spec spec)) (rnp_prvd r)) (np_Name np))"

definition WaitReplicas :: "int \<Rightarrow> gerr option" where
  "WaitReplicas i = None"

definition nodePoolHash :: "NodePool \<Rightarrow> string" where
  "nodePoolHash np = (case om_Labels (np_Meta np) of None \<Rightarrow> []
     | Some lbl \<Rightarrow> (case map_of lbl NodePoolHashLabel of None \<Rightarrow> [] | Some h \<Rightarrow> h))"

text \<open>The three setters that \<^verbatim>\<open>Reconcile\<close> hands to \<^verbatim>\<open>help.Patch\<close>.\<close>

definition onPool :: "(NodePool \<Rightarrow> NodePool) \<Rightarrow> Setter" where
  "onPool f copy = (case copy of
     ONodePool mp \<Rightarrow> Ret (Inr (ONodePool (f mp)))
   | _ \<Rightarrow> Panic ''interface conversion: runtime.Object is not *v1.NodePool'')"

definition dropFinalizer :: "NodePool \<Rightarrow> NodePool" where
  "dropFinalizer mp = mp\<lparr>np_Meta := (np_Meta mp)\<lparr>om_Finalizers :=
     Remove (om_Finalizers (np_Meta mp)) NODE_POOL_FINALIZER\<rparr>\<rparr>"

definition setBind :: "BindID option \<Rightarrow> NodePool \<Rightarrow> NodePool" where
  "setBind bind mp = mp\<lparr>np_Spec := (np_Spec mp)\<lparr>nps_Infra := (nps_Infra (np_Spec mp))\<lparr>inf_Bind := bind\<rparr>\<rparr>\<rparr>"

definition addFinalizer :: "NodePool \<Rightarrow> NodePool" where
  "addFinalizer mp = (if \<not> Has (om_Finalizers (np_Meta mp)) NODE_POOL_FINALIZER
     then mp\<lparr>np_Meta := (np_Meta mp)\<lparr>om_Finalizers := om_Finalizers (np_Meta mp) @ [NODE_POOL_FINALIZER]\<rparr>\<rparr>
     else mp)"

definition setHash :: "string \<Rightarrow> NodePool \<Rightarrow> NodePool" where
  "setHash h np = np\<lparr>np_Meta := (np_Meta np)\<lparr>om_Labels :=
     Some (put (case om_Labels (np_Meta np) of None \<Rightarrow> [] | Some l \<Rightarrow> l) NodePoolHashLabel h)\<rparr>\<rparr>"

text \<open>The branch for a pool that is being deleted.\<close>

definition deletePool :: "env \<Rightarrow> ReconcileNodePool \<Rightarrow> NodePool \<Rightarrow> (Result \<times> gerr option) eff" where
  "deletePool E r np = andThen (do_call E (PDeleteNodeGroup np)) (\<lambda>err. case err of
     Some e \<Rightarrow> ret (NewDelay 10, Some (Wrap e (''clean up nodepool '' @ np_Name np @ '' infra'')))
   | None \<Rightarrow> andThen (DeleteNodePoolBackup E r np) (\<lambda>err. case err of
       Some e \<Rightarrow> ret (zeroResult, Some (Wrap e ''remove oss nodepool backup failed''))
     | None \<Rightarrow> andThen (Patch E (ONodePool np) (onPool dropFinalizer) PatchSpec) (\<lambda>err. ret (zeroResult, err))))"

text \<open>A failed repair is only logged, but may clear the binding of the pool at hand.\<close>

definition clearBind :: "gerr option \<Rightarrow> NodePool \<Rightarrow> NodePool" where
  "clearBind err np = (case err of None \<Rightarrow> np
     | Some e \<Rightarrow> if contains (err_msg e) ''ScalingGroupNotFound'' \<or> contains (err_msg e) ''InvalidVPC''
                 then setBind None np else np)"

definition createPool :: "env \<Rightarrow> ReconcileNodePool \<Rightarrow> NodePool \<Rightarrow> (Result \<times> gerr option) option eff" where
  "createPool E r np = andThen (perform (PCreateNodeGroup np) (\<lambda>tr. e_create_group E tr np)) (\<lambda>b. case b of
     Inl e \<Rightarrow> ret (Some (zeroResult, Some (Wrap e (''create node group: '' @ np_Name np))))
   | Inr bind \<Rightarrow> andThen (EnsureNodePoolBackup E r np) (\<lambda>_.
       andThen (Patch E (ONodePool np) (onPool (addFinalizer \<circ> setBind (Some bind))) PatchSpec) (\<lambda>err. case err of
         Some e \<Rightarrow> ret (Some (NewDelay 3, Some (Wrap e ''patch bind infra'')))
       | None \<Rightarrow> ret None)))"

definition modifyPool :: "env \<Rightarrow> ReconcileNodePool \<Rightarrow> NodePool \<Rightarrow> BindID \<Rightarrow> string \<Rightarrow> (Result \<times> gerr option) option eff" where
  "modifyPool E r np bind hasho =
     (if hasho = nodePoolHash np then ret (Some (zeroResult, None))
      else andThen (do_call E (PModifyNodeGroup np)) (\<lambda>err. case err of
        Some e \<Rightarrow> ret (Some (NewDelay 3, Some (Wrap e ''modify node group'')))
      | None \<Rightarrow> if bind_ScalingGroupId bind \<noteq> [] then andThen (EnsureNodePoolBackup E r np) (\<lambda>_. ret None)
                else ret None))"

definition applyPool :: "env \<Rightarrow> ReconcileNodePool \<Rightarrow> NodePool \<Rightarrow> (Result \<times> gerr option) eff" where
  "applyPool E r np = (case e_hash_object E (np_Spec np) of
     Inl e \<Rightarrow> ret (zeroResult, Some (Errorf (''hash np: '' @ err_msg e)))
   | Inr hasho \<Rightarrow> andThen (case inf_Bind (nps_Infra (np_Spec np)) of
         None \<Rightarrow> createPool E r np
       | Some bind \<Rightarrow> modifyPool E r np bind hasho) (\<lambda>early. case early of
       Some res \<Rightarrow> ret res
     | None \<Rightarrow> andThen (Patch E (ONodePool np) (onPool (setHash hasho)) PatchSpec) (\<lambda>_.
         ret (zeroResult, WaitReplicas (inf_DesiredCapacity (nps_Infra (np_Spec np)))))))"

definition NodePoolReconcile :: "env \<Rightarrow> ReconcileNodePool \<Rightarrow> string \<Rightarrow> string \<Rightarrow> (Result \<times> gerr option) eff" where
  "NodePoolReconcile E r ns name = andThen (perform (KGetNodePool ns name) (\<lambda>tr. e_nodepool E tr ns name)) (\<lambda>g. case g of
     Inl e \<Rightarrow> if IsNotFound e then ret (zeroResult, None) else ret (NewDelay 3, Some e)
   | Inr np \<Rightarrow> if om_Deleted (np_Meta np) then deletePool E r np
       else andThen (FixNodePool E (rnp_heal r) np) (\<lambda>err. applyPool E r (clearBind err np)))"

section \<open>Lemmas\<close>

subsection \<open>Scaling\<close>

lemma findId_run:
  assumes "findId E ecs ip tr = (Ret ident, t)" and "ident \<noteq> []"
  shows "\<exists>k x. (k, x) \<in> set ecs \<and> ins_Id x = ident \<and> ip = endpointOf (ins_Ip x)"
proof -
  from assms(1) obtain l where l: "range_map E ecs tr = (Ret l, t)"
    "ident = (case find (\<lambda>(k, i). ip = endpointOf (ins_Ip i)) l of Some (k, i) \<Rightarrow> ins_Id i | None \<Rightarrow> [])"
    unfolding findId_def andThen_Ret_iff by auto
  with assms(2) obtain k x where x: "find (\<lambda>(k, i). ip = endpointOf (ins_Ip i)) l = Some (k, x)" "ins_Id x = ident"
    by (auto split: option.splits)
  then have "(k, x) \<in> set l \<and> ip = endpointOf (ins_Ip x)"
    by (induction l) (auto split: if_splits)
  moreover have "mset l = mset ecs" using range_map_mset [OF l(1)] by simp
  then have "set l = set ecs" by (rule mset_eq_setD)
  ultimately show ?thesis using x(2) by blast
qed

lemma quorumTarget_bounds:
  assumes "expect < current"
  shows "expect \<le> quorumTarget current expect" and "quorumTarget current expect < current"
    and "current \<le> 2 \<or> current < 2 * quorumTarget current expect"
    and "current = 2 \<Longrightarrow> quorumTarget current expect = 1"
  using assms unfolding quorumTarget_def Let_def Max_int_def by auto

lemma QuorumScale_in:
  assumes "expect < current"
  shows "QuorumScale f current expect = andThen (f (quorumTarget current expect)) (\<lambda>err. ret (Some (case err of
    Some e \<Rightarrow> e | None \<Rightarrow> Errorf ''RetryNextBatch'')))"
  using assms unfolding QuorumScale_def by (auto intro!: arg_cong [where f = "andThen _"] split: option.split)

text \<open>A bound on the calls of \<open>QuorumScale\<close> from one on the calls of its action at the admissible targets.\<close>

lemma QuorumScale_emits:
  assumes "current < expect \<Longrightarrow> emits A (f expect)"
    and "\<And>t. expect \<le> t \<Longrightarrow> t < current \<Longrightarrow> current \<le> 2 \<or> current < 2 * t \<Longrightarrow> emits A (f t)"
  shows "emits A (QuorumScale f current expect)"
proof (cases "expect < current")
  case True
  then show ?thesis unfolding QuorumScale_in [OF True]
    by (intro emits_intro assms(2) quorumTarget_bounds)
next
  case False
  then show ?thesis using assms(1) unfolding QuorumScale_def by (auto intro: emits_intro)
qed

lemma Healthy_emits: "made E h \<Longrightarrow> reads \<subseteq> A \<Longrightarrow> emits A (Healthy E h)"
  unfolding Healthy_def by (intro emits_intro)

lemma RemoveFollower_emits: "reads \<union> etcdctl_calls \<union> file_calls \<subseteq> A \<Longrightarrow> emits A (RemoveFollower E)"
proof -
  assume A: "reads \<union> etcdctl_calls \<union> file_calls \<subseteq> A"
  have "emits A (removeFirstFollower E metcd endps)" for metcd endps
    by (induction endps) (use A in \<open>auto simp: Let_def CmpEq_def intro!: emits_intro split: option.splits\<close>)
  with A show ?thesis unfolding RemoveFollower_def Endpoints_def by (intro emits_intro) auto
qed

text \<open>
  What may change a scaling group in one round of the master set. An admissible target is the wanted number
  when the group grows; when it shrinks the target lies between the two and is more than half of the
  current number, except for the step from two to one.
\<close>

definition admissible :: "int \<Rightarrow> int \<Rightarrow> int \<Rightarrow> bool" where
  "admissible replicas current n \<longleftrightarrow> (if current < replicas then n = replicas
     else replicas \<le> n \<and> n < current \<and> (current \<le> 2 \<or> current < 2 * n))"

definition scalingOk :: "env \<Rightarrow> call \<Rightarrow> bool" where
  "scalingOk E c \<longleftrightarrow> (\<forall>w. c = GroupWrite w \<longrightarrow> (case w of
     ModifyScalingConfigC g d \<Rightarrow> g = [] \<and> (\<exists>t. e_userdata E t JoinMasterUserdata = Inr d)
   | ScaleMasterGroupC g n \<Rightarrow> g = [] \<and> n \<noteq> 1 \<and> (\<exists>t t' ms d. e_masterset E t [] ''masterset'' = Inr ms \<and>
       e_scaling_group E t' [] = Inr d \<and> admissible (mset_Replicas ms) (int (length d)) n)
   | RemoveScalingGroupECSC g i \<Rightarrow> g = [] \<and> (\<exists>t d k x t0 t1. e_scaling_group E t [] = Inr d \<and> length d = 2 \<and>
       (k, x) \<in> set d \<and> ins_Id x = i \<and> RemoveFollower E t0 = (Ret (endpointOf (ins_Ip x), None), t1))
   | _ \<Rightarrow> False))"

lemma scalingOk_reads: "reads \<union> etcdctl_calls \<union> file_calls \<subseteq> {c. scalingOk E c}" "reads \<subseteq> {c. scalingOk E c}"
  by (auto simp: scalingOk_def etcdctl_calls_def file_calls_def)

lemma scale_emits:
  assumes "made E h" and "e_scaling_group E t [] = Inr d" and "e_masterset E t' [] ''masterset'' = Inr ms"
    and n: "admissible (mset_Replicas ms) (int (length d)) n"
  shows "emits {c. scalingOk E c} (scale E h d err n)"
proof -
  have remove: "scalingOk E (PRemoveScalingGroupECS [] ident)"
    if "n = 1" "RemoveFollower E t0 = (Ret (ip, None), t1)" "findId E d ip t2 = (Ret ident, t3)" "ident \<noteq> []" for ip t0 t1 t2 t3 ident
  proof -
    from findId_run [OF that(3,4)] obtain k x where x: "(k, x) \<in> set d" "ins_Id x = ident" "ip = endpointOf (ins_Ip x)" by blast
    then have "0 < length d" by auto
    with n that(1) have "length d = 2" by (auto simp: admissible_def split: if_splits)
    with x that(2) assms(2) show ?thesis unfolding scalingOk_def by simp blast
  qed
  have "scalingOk E (PScaleMasterGroup [] n)" if "n \<noteq> 1"
    using that assms(2-4) unfolding scalingOk_def by simp blast
  with remove show ?thesis unfolding scale_def
    by (intro emits_bind emits_if emits_case_prod emits_case_option Healthy_emits RemoveFollower_emits assms(1)
      scalingOk_reads)
     (auto simp: findId_def Sleep_def scalingOk_def [of _ "Sys _"] intro!: emits_intro)
qed

lemma FixMasterNode_emits:
  assumes "made E h" and "\<And>c. (\<And>w. c \<noteq> GroupWrite w) \<Longrightarrow> c \<in> A"
  shows "emits A (FixMasterNode E h)"
  unfolding FixMasterNode_def
  by (intro emits_intro fixMaster_emits) (use assms in \<open>auto simp: etcdctl_calls_def file_calls_def scope_def intro!: assms(2)\<close>)

lemma MasterSetReconcile_emits:
  assumes "made E (msr_healet m)"
  shows "emits {c. scalingOk E c} (MasterSetReconcile E m)"
proof -
  note reads = scalingOk_reads(2) [of E]
  have quorum: "emits {c. scalingOk E c} (QuorumScale (scale E (msr_healet m) d None) (int (length d)) (mset_Replicas ms))"
    if "e_scaling_group E t [] = Inr d" "e_masterset E t' [] ''masterset'' = Inr ms" for t t' d ms
    by (rule QuorumScale_emits; rule scale_emits [OF assms that]) (auto simp: admissible_def)
  have group: "emits {c. scalingOk E c} (scaleGroup E (msr_healet m) ms)"
    if "e_masterset E t [] ''masterset'' = Inr ms" for t ms
    unfolding scaleGroup_def ScalingGroupDetail_def
    by (intro emits_bind_perform emits_case_sum emits_if emits_case_option emits_ret emits_andThen emits_do_call quorum)
      (use that in \<open>auto simp: scalingOk_def\<close>)
  show ?thesis unfolding MasterSetReconcile_def MasterSet_get_def
    by (intro emits_andThen [OF Healthy_emits [OF assms reads]] emits_if emits_bind_perform emits_case_sum
      emits_andThen [OF FixMasterNode_emits [OF assms]] emits_andThen [OF MasterNodes_reads [OF reads]] emits_ret group)
      (auto simp: scalingOk_def)
qed

subsection \<open>Rounds of scaling\<close>

text \<open>The number of masters after a round in which the action changes the group to its target.\<close>

definition afterRound :: "int \<Rightarrow> int \<Rightarrow> int" where
  "afterRound expect current =
     (case new_calls (QuorumScale (\<lambda>t. perform (PScaleMasterGroup [] t) (\<lambda>_. None)) current expect) [] of
        [GroupWrite (ScaleMasterGroupC _ t)] \<Rightarrow> t
      | _ \<Rightarrow> current)"

lemma afterRound_eq:
  "afterRound expect current = (if expect < current then quorumTarget current expect else expect)"
proof (cases "expect < current")
  case True
  then show ?thesis
    by (simp add: afterRound_def QuorumScale_in new_calls_def andThen_perform ret_apply)
next
  case False
  then show ?thesis by (simp add: afterRound_def QuorumScale_def new_calls_def perform_apply ret_apply)
qed

lemma afterRound_reaches: "nat (current - expect) \<le> n \<Longrightarrow> (afterRound expect ^^ Suc n) current = expect"
proof (induction n arbitrary: current)
  case 0
  then show ?case by (simp add: afterRound_eq)
next
  case (Suc n)
  let ?c = "afterRound expect current"
  have "nat (?c - expect) \<le> n"
    using Suc.prems quorumTarget_bounds(2) [of expect current] by (auto simp: afterRound_eq)
  then have "(afterRound expect ^^ Suc n) ?c = expect" by (rule Suc.IH)
  then show ?case by (simp only: funpow_Suc_right [of "Suc n"] comp_apply)
qed

subsection \<open>Node pools\<close>

lemma Patch_emits:
  assumes "reads \<subseteq> A"
    and "\<And>cur x tr t. get_obj E target tr = (Ret (Inr cur), t) \<Longrightarrow> setter cur = Ret (Inr x) \<Longrightarrow> KPatch x \<in> A"
  shows "emits A (Patch E target setter PatchSpec)"
proof -
  have "emits A (case setter cur of Panic s \<Rightarrow> panic s
     | Ret (Inl e) \<Rightarrow> ret (Some (Errorf (''get object diff patch: '' @ err_msg e)))
     | Ret (Inr ntarget) \<Rightarrow> (case e_marshal E cur of
         Some e \<Rightarrow> ret (Some (Errorf (''ensure marshal: '' @ err_msg e)))
       | None \<Rightarrow> (case e_marshal E ntarget of
           Some e \<Rightarrow> ret (Some (Errorf (''ensure marshal: '' @ err_msg e)))
         | None \<Rightarrow> (case e_merge_patch E cur ntarget of
             Some e \<Rightarrow> ret (Some (Errorf (''create merge patch: '' @ err_msg e)))
           | None \<Rightarrow> if json_view cur = json_view ntarget then ret None
                     else send_patch E ntarget PatchSpec))))"
    if "get_obj E target tr = (Ret (Inr cur), t)" for cur tr t
    using assms(2) [OF that]
    by (auto simp: send_patch_def Let_def intro!: emits_intro split: outcome.split sum.split)
  then show ?thesis unfolding Patch_def
    by (intro emits_bind emits_case_sum get_obj_reads [OF assms(1)] emits_ret) auto
qed

lemma FixNodePool_emits:
  assumes "made E h" and "reads \<subseteq> A" and "\<And>info. scope E info \<subseteq> A" and "\<And>n. KDelete (ONode n) \<in> A"
  shows "emits A (FixNodePool E h pool)"
proof -
  from assms(1) obtain infra where g: "hl_tripGetter h = wTripleGetter E infra" unfolding made_def by blast
  have "KPatch (ONode n) \<in> A" for n by (rule subsetD [OF assms(3)]) (simp add: scope_def)
  then have "emits A (Patch E (ONode n) (poolSetter s) PatchSpec)" for n s
    by (intro Patch_emits assms(2)) (auto simp: poolSetter_def split: kobj.splits)
  with assms(2) show ?thesis unfolding FixNodePool_def g
    by (intro emits_intro emits_mono [OF wget.node_pool_reads] FixUpNode_emits [OF assms(1,2,3,4)]) auto
qed

text \<open>What may change a scaling group, or patch a pool, in one round of a node pool.\<close>

definition poolOk :: "env \<Rightarrow> Healet \<Rightarrow> NodePool \<Rightarrow> call \<Rightarrow> bool" where
  "poolOk E h np c \<longleftrightarrow> (\<forall>w. c = GroupWrite w \<longrightarrow> (case w of
     DeleteNodeGroupC p \<Rightarrow> p = np \<and> om_Deleted (np_Meta np)
   | CreateNodeGroupC p \<Rightarrow> \<not> om_Deleted (np_Meta np) \<and> inf_Bind (nps_Infra (np_Spec p)) = None \<and>
       (\<exists>err t0 t1. FixNodePool E h np t0 = (Ret err, t1) \<and> p = clearBind err np)
   | ModifyNodeGroupC p \<Rightarrow> \<not> om_Deleted (np_Meta np) \<and> p = np \<and> inf_Bind (nps_Infra (np_Spec np)) \<noteq> None \<and>
       (\<exists>hasho. e_hash_object E (np_Spec np) = Inr hasho \<and> hasho \<noteq> nodePoolHash np)
   | _ \<Rightarrow> False))"

lemma poolOk_other: "(\<And>w. c \<noteq> GroupWrite w) \<Longrightarrow> poolOk E h np c"
  by (simp add: poolOk_def)

lemma poolOk_reads: "reads \<subseteq> {c. poolOk E h np c}"
  by (auto simp: poolOk_def)

text \<open>The backup operations touch only the storage.\<close>

definition blob_calls :: "call set" where
  "blob_calls = reads \<union> range BlobWrite"

lemma backup_emits:
  assumes "rnp_prvd r = ossStore E bucket"
  shows "emits blob_calls (EnsureNodePoolBackup E r np)" and "emits blob_calls (DeleteNodePoolBackup E r np)"
proof -
  have put: "emits blob_calls (putEnsuring (ossStore E bucket) b d p)" for b d p
    unfolding putEnsuring_def
    by (intro emits_intro emits_mono [OF oss.put_one] emits_mono [OF oss.ensure_one]) (auto simp: blob_calls_def)
  have "emits blob_calls (os_DeleteObject (ossStore E bucket) k)" for k
    by (rule emits_mono [OF oss.delete_one]) (auto simp: blob_calls_def)
  with put show "emits blob_calls (EnsureNodePoolBackup E r np)" and "emits blob_calls (DeleteNodePoolBackup E r np)"
    unfolding EnsureNodePoolBackup_def DeleteNodePoolBackup_def SaveNodePool_def RemoveNodePool_def NewNodePoolIndex_def assms
    by (simp_all add: Let_def) (intro emits_intro; simp add: blob_calls_def)+
qed

lemma onPool_result: "onPool f cur = Ret (Inr x) \<longleftrightarrow> (\<exists>mp. cur = ONodePool mp \<and> x = ONodePool (f mp))"
  by (auto simp: onPool_def split: kobj.splits)

lemma poolPatch_emits:
  assumes "reads \<subseteq> A" and "\<And>mp. KPatch (ONodePool (f mp)) \<in> A"
  shows "emits A (Patch E (ONodePool np) (onPool f) PatchSpec)"
  by (rule Patch_emits) (use assms in \<open>auto simp: onPool_result\<close>)

lemma applyPool_emits:
  assumes "rnp_prvd r = ossStore E bucket" and "\<not> om_Deleted (np_Meta np)"
    and "FixNodePool E h np t0 = (Ret err, t1)"
  shows "emits {c. poolOk E h np c} (applyPool E r (clearBind err np))"
proof -
  let ?A = "{c. poolOk E h np c}" and ?np = "clearBind err np"
  have blob: "blob_calls \<subseteq> ?A" by (auto simp: blob_calls_def poolOk_def)
  note backup = emits_mono [OF backup_emits(1) [OF assms(1)] blob]
  have patch: "emits ?A (Patch E (ONodePool p) (onPool f) PatchSpec)" for p f
    by (rule poolPatch_emits [OF poolOk_reads]) (simp add: poolOk_other)
  have "emits ?A (createPool E r ?np)" if "inf_Bind (nps_Infra (np_Spec ?np)) = None"
    unfolding createPool_def
    by (intro emits_intro backup patch) (use that assms(2,3) in \<open>auto simp: poolOk_def\<close>)
  moreover have "emits ?A (modifyPool E r ?np b hasho)"
    if "inf_Bind (nps_Infra (np_Spec ?np)) = Some b" "e_hash_object E (np_Spec ?np) = Inr hasho" for b hasho
  proof -
    have "?np = np" using that(1) by (auto simp: clearBind_def setBind_def split: option.splits if_splits)
    then show ?thesis unfolding modifyPool_def
      by (intro emits_intro backup) (use that assms(2) in \<open>auto simp: poolOk_def\<close>)
  qed
  ultimately show ?thesis unfolding applyPool_def
    by (intro emits_case_sum emits_case_option emits_andThen emits_ret patch)
qed

lemma deletePool_emits:
  assumes "rnp_prvd r = ossStore E bucket" and "om_Deleted (np_Meta np)"
  shows "emits {c. poolOk E h np c} (deletePool E r np)"
proof -
  let ?A = "{c. poolOk E h np c}"
  have blob: "blob_calls \<subseteq> ?A" by (auto simp: blob_calls_def poolOk_def)
  note backup = emits_mono [OF backup_emits(2) [OF assms(1)] blob]
  have "emits ?A (Patch E (ONodePool np) (onPool dropFinalizer) PatchSpec)"
    by (rule poolPatch_emits [OF poolOk_reads]) (simp add: poolOk_other)
  with assms(2) show ?thesis unfolding deletePool_def
    by (intro emits_andThen emits_case_option emits_do_call emits_ret backup) (auto simp: poolOk_def)
qed

lemma NodePoolReconcile_run:
  assumes "e_nodepool E tr ns name = Inr np"
  shows "NodePoolReconcile E r ns name tr = (if om_Deleted (np_Meta np) then deletePool E r np
     else andThen (FixNodePool E (rnp_heal r) np) (\<lambda>err. applyPool E r (clearBind err np))) (tr @ [KGetNodePool ns name])"
  by (simp add: NodePoolReconcile_def andThen_perform assms)

lemma NodePoolReconcile_new_calls:
  assumes "e_nodepool E tr ns name = Inr np" and "emits A (if om_Deleted (np_Meta np) then deletePool E r np
     else andThen (FixNodePool E (rnp_heal r) np) (\<lambda>err. applyPool E r (clearBind err np)))"
  shows "set (new_calls (NodePoolReconcile E r ns name) tr) \<subseteq> insert (KGetNodePool ns name) A"
  using emitsD [OF assms(2), of "tr @ [KGetNodePool ns name]"] NodePoolReconcile_run [OF assms(1), of r]
  by (auto simp: new_calls_def)

lemma Remove_gone: "tar \<notin> set (Remove m tar)"
  by (induction m tar rule: Remove.induct) auto

section \<open>Properties\<close>

text \<open>
  The examples: a healthy control plane of two masters of which one is wanted, and a bound node pool
  that is being deleted.
\<close>

definition shrink_env :: env where
  "shrink_env = sound_env\<lparr>e_masterset := (\<lambda>tr ns n. Inr defaultMasterSet),
     e_json_endpoints := (\<lambda>s. Inr [endpoint0 ''https://10.0.0.1:2379'' 7 7, endpoint0 ''https://10.0.0.2:2379'' 8 7])\<rparr>"

definition gone_pool :: NodePool where
  "gone_pool = pool0\<lparr>np_Meta := (np_Meta pool0)\<lparr>om_Deleted := True, om_Finalizers := [''nodepool'', ''other'']\<rparr>\<rparr>"

definition pool_env :: "NodePool \<Rightarrow> env" where
  "pool_env np = env0\<lparr>e_nodepool := (\<lambda>tr ns n. Inr np), e_cluster := (\<lambda>tr ns n. Inr cluster0)\<rparr>"

definition pools0 :: "env \<Rightarrow> ReconcileNodePool" where
  "pools0 E = \<lparr>rnp_heal = healet0 E, rnp_prvd = ossStore E ''b'', rnp_codec = codec0\<rparr>"



text \<open>
  C27: repeated rounds of \<^verbatim>\<open>QuorumScale\<close> reach the wanted number. If every round changes the group to the number
  it asks for, then after as many rounds as the numbers differ (and one) the number is the wanted one, and
  no round on the way gives up half of more than two masters.
\<close>

theorem QuorumScale_converges:
  "(afterRound expect ^^ Suc (nat (current - expect))) current = expect \<and>
   (\<forall>n. let c = (afterRound expect ^^ n) current in c \<le> 2 \<or> c < 2 * afterRound expect c \<or> c \<le> afterRound expect c)"
proof -
  have "c \<le> 2 \<or> c < 2 * afterRound expect c \<or> c \<le> afterRound expect c" for c
    using quorumTarget_bounds(3) [of expect c] by (auto simp: afterRound_eq)
  then show ?thesis using afterRound_reaches [of current expect "nat (current - expect)"] by (simp add: Let_def)
qed



text \<open>
  A node group is changed only when the pool asks for it. It is deleted only for a pool that is being
  deleted; created only for a pool without a binding, or whose repair in the same round reported that its
  scaling group is gone or belongs to another network; and modified only for a bound pool whose
  specification has another hash than the one it is labelled with.
\<close>

lemma NodePoolReconcile_group_writes:
  assumes "NewHealet E spec tr0 = (Ret (Inr h), t0)" and "rnp_heal r = h" and "rnp_prvd r = ossStore E bucket"
    and "e_nodepool E tr ns name = Inr np" and "GroupWrite w \<in> set (new_calls (NodePoolReconcile E r ns name) tr)"
  shows "case w of
     DeleteNodeGroupC p \<Rightarrow> p = np \<and> om_Deleted (np_Meta np)
   | CreateNodeGroupC p \<Rightarrow> \<not> om_Deleted (np_Meta np) \<and> inf_Bind (nps_Infra (np_Spec p)) = None \<and>
       (\<exists>err t0 t1. FixNodePool E h np t0 = (Ret err, t1) \<and> p = clearBind err np)
   | ModifyNodeGroupC p \<Rightarrow> \<not> om_Deleted (np_Meta np) \<and> p = np \<and> inf_Bind (nps_Infra (np_Spec np)) \<noteq> None \<and>
       (\<exists>hasho. e_hash_object E (np_Spec np) = Inr hasho \<and> hasho \<noteq> nodePoolHash np)
   | _ \<Rightarrow> False"
proof -
  let ?A = "{c. poolOk E h np c}"
  have scope: "reads \<subseteq> ?A" "scope E info \<subseteq> ?A" for info
    by (auto simp: poolOk_def scope_def etcdctl_calls_def file_calls_def)
  have fix_pool: "emits ?A (FixNodePool E h np)"
    by (rule FixNodePool_emits [OF NewHealet_made [OF assms(1)] scope]) (simp add: poolOk_other)
  have "emits ?A (if om_Deleted (np_Meta np) then deletePool E r np
     else andThen (FixNodePool E (rnp_heal r) np) (\<lambda>err. applyPool E r (clearBind err np)))"
    unfolding assms(2)
    by (intro emits_if deletePool_emits [OF assms(3)] emits_bind [OF fix_pool] applyPool_emits [OF assms(3)])
  from NodePoolReconcile_new_calls [OF assms(4) this] assms(5) have "poolOk E h np (GroupWrite w)" by blast
  then show ?thesis unfolding poolOk_def by blast
qed

end
