(* ===== verification/Heal_Loop.thy ===== *)
theory Heal_Loop
  imports Healet
begin

text \<open>
  The event loop of the healing centre and its clients: \<^verbatim>\<open>(*Healet).run\<close> with the two notification
  functions (\<^verbatim>\<open>pkg/operator/heal/healet.go\<close>) and the repair controller that waits for an answer
  (\<^verbatim>\<open>pkg/operator/controllers/master/node_controller.go\<close>). The channels are unbuffered: a sender is
  blocked until the loop receives from it. The goroutines interleave as the rules of a step relation;
  a client is a number, which also names the channel \<^verbatim>\<open>done\<close> it makes.
\<close>

section \<open>Events\<close>

record Event =
  ev_Object :: "kobj option"
  ev_Done :: nat

datatype channel = Nodes | Pools

text \<open>The notifications, as the channel they send to and the event they send.\<close>

definition NotifyNodeEvent :: "nat \<Rightarrow> channel \<times> Event" where
  "NotifyNodeEvent fin = (Nodes, \<lparr>ev_Object = None, ev_Done = fin\<rparr>)"

definition NotifyNodePoolEvent :: "nat \<Rightarrow> channel \<times> Event" where
  "NotifyNodePoolEvent fin = (Nodes, \<lparr>ev_Object = None, ev_Done = fin\<rparr>)"

section \<open>The repair controller\<close>

text \<open>
  \<^verbatim>\<open>(*RepairReconciler).Reconcile\<close> up to the point where it returns, or sends its event and waits for
  the answer, after which it returns nil.
\<close>

datatype repair = Done "gerr option" | Notify

definition RepairReconcile :: "env \<Rightarrow> string \<Rightarrow> repair eff" where
  "RepairReconcile E name = andThen (Node_get E name) (\<lambda>r. case r of
     Inl e \<Rightarrow> if IsNotFound e then ret (Done None) else ret (Done (Some e))
   | Inr n \<Rightarrow> if \<not> IsMaster n then ret (Done None)
       else if \<not> NodeReady n then ret Notify else ret (Done None))"

section \<open>The loop\<close>

text \<open>
  What the \<^verbatim>\<open>select\<close> of \<^verbatim>\<open>run\<close> finds ready, and one turn of the loop: the answer says whether the loop
  goes on, and which \<^verbatim>\<open>done\<close> channels it has signalled.
\<close>

datatype ready = Received channel Event | Tick

definition runTurn :: "env \<Rightarrow> Healet \<Rightarrow> ready \<Rightarrow> (bool \<times> nat list) eff" where
  "runTurn E m rd = (case rd of
     Received Nodes event \<Rightarrow> ret (True, [])
   | Received Pools event \<Rightarrow> (case ev_Object event of
       Some (ONodePool np) \<Rightarrow> andThen (FixNodePool E m np) (\<lambda>_. ret (True, []))
     | _ \<Rightarrow> ret (False, []))
   | Tick \<Rightarrow> andThen (FixMasterNode E m) (\<lambda>_. ret (True, [])))"

datatype client = Idle | Sending | Waiting | Finished "gerr option"

record LoopState =
  ls_trace :: "call list"
  ls_running :: bool
  ls_senders :: "(channel \<times> Event) list"
  ls_signalled :: "nat list"
  ls_clients :: "nat \<Rightarrow> client"

definition initLoop :: "call list \<Rightarrow> LoopState" where
  "initLoop tr = \<lparr>ls_trace = tr, ls_running = True, ls_senders = [], ls_signalled = [], ls_clients = (\<lambda>_. Idle)\<rparr>"

text \<open>
  The steps: a repair returns, or is blocked sending; some client is blocked sending a node pool event;
  the loop takes the event of a sender, which then waits for the answer; the ticker fires;
  \<^verbatim>\<open>wait.Forever\<close> enters a loop that has returned again, five seconds later; a client whose channel is
  signalled goes on and returns. A finished client may be called again.
\<close>

inductive loop_step :: "env \<Rightarrow> Healet \<Rightarrow> LoopState \<Rightarrow> LoopState \<Rightarrow> bool" for E m where
  repair_returns: "ls_clients s i = Idle \<Longrightarrow> RepairReconcile E name (ls_trace s) = (Ret (Done err), tr) \<Longrightarrow>
    loop_step E m s (s\<lparr>ls_trace := tr, ls_clients := (ls_clients s)(i := Finished err)\<rparr>)"
| repair_sends: "ls_clients s i = Idle \<Longrightarrow> RepairReconcile E name (ls_trace s) = (Ret Notify, tr) \<Longrightarrow>
    loop_step E m s (s\<lparr>ls_trace := tr, ls_senders := ls_senders s @ [NotifyNodeEvent i],
      ls_clients := (ls_clients s)(i := Sending)\<rparr>)"
| pool_sends: "ls_clients s i = Idle \<Longrightarrow>
    loop_step E m s (s\<lparr>ls_senders := ls_senders s @ [NotifyNodePoolEvent i], ls_clients := (ls_clients s)(i := Sending)\<rparr>)"
| receives: "ls_running s \<Longrightarrow> ls_senders s = as @ (ch, ev) # bs \<Longrightarrow>
    runTurn E m (Received ch ev) (ls_trace s) = (Ret (go, sig), tr) \<Longrightarrow>
    loop_step E m s (s\<lparr>ls_trace := tr, ls_running := go, ls_senders := as @ bs, ls_signalled := ls_signalled s @ sig,
      ls_clients := (ls_clients s)(ev_Done ev := Waiting)\<rparr>)"
| ticks: "ls_running s \<Longrightarrow> runTurn E m Tick (ls_trace s) = (Ret (go, sig), tr) \<Longrightarrow>
    loop_step E m s (s\<lparr>ls_trace := tr, ls_running := go, ls_signalled := ls_signalled s @ sig\<rparr>)"
| reenters: "\<not> ls_running s \<Longrightarrow>
    loop_step E m s (s\<lparr>ls_trace := ls_trace s @ [CSleep (5 * Second)], ls_running := True\<rparr>)"
| resumes: "ls_clients s i = Waiting \<Longrightarrow> i \<in> set (ls_signalled s) \<Longrightarrow>
    loop_step E m s (s\<lparr>ls_clients := (ls_clients s)(i := Finished None)\<rparr>)"
| called: "ls_clients s i = Finished err \<Longrightarrow> loop_step E m s (s\<lparr>ls_clients := (ls_clients s)(i := Idle)\<rparr>)"

inductive reachable :: "env \<Rightarrow> Healet \<Rightarrow> LoopState \<Rightarrow> bool" for E m where
  start: "reachable E m (initLoop tr)"
| step: "reachable E m s \<Longrightarrow> loop_step E m s s' \<Longrightarrow> reachable E m s'"

inductive_cases loop_stepE: "loop_step E m s s'"

section \<open>Lemmas\<close>

text \<open>
  The invariant: the loop is running, everything sent goes to the nodes channel, the senders are the
  clients that are sending, each once, and nobody was ever signalled.
\<close>

definition loop_inv :: "LoopState \<Rightarrow> bool" where
  "loop_inv s \<longleftrightarrow> ls_running s \<and> fst ` set (ls_senders s) \<subseteq> {Nodes} \<and> ls_signalled s = [] \<and>
     distinct (map (ev_Done \<circ> snd) (ls_senders s)) \<and>
     (\<forall>ch ev. (ch, ev) \<in> set (ls_senders s) \<longrightarrow> ls_clients s (ev_Done ev) = Sending) \<and>
     (\<forall>i. ls_clients s i = Sending \<longrightarrow> (\<exists>ch ev. (ch, ev) \<in> set (ls_senders s) \<and> ev_Done ev = i))"

lemmas notify_defs = NotifyNodeEvent_def NotifyNodePoolEvent_def

lemma runTurn_tick: "runTurn E m Tick tr = (Ret (go, sig), t) \<Longrightarrow> go \<and> sig = []"
  by (auto simp: runTurn_def andThen_Ret_iff)

lemma runTurn_nodes: "runTurn E m (Received Nodes ev) tr = (Ret (True, []), tr)"
  by (simp add: runTurn_def ret_apply)

lemma loop_inv_receive:
  assumes "loop_inv s" and "ls_senders s = as @ (ch, ev) # bs"
  shows "ch = Nodes" and "loop_inv (s\<lparr>ls_trace := tr, ls_senders := as @ bs, ls_clients := (ls_clients s)(ev_Done ev := Waiting)\<rparr>)"
proof -
  from assms show "ch = Nodes" by (auto simp: loop_inv_def)
  from assms have "distinct (map (ev_Done \<circ> snd) (as @ (ch, ev) # bs))" unfolding loop_inv_def by metis
  then have fresh: "ev_Done ev \<notin> set (map (ev_Done \<circ> snd) (as @ bs))" by auto
  have "ev_Done e \<noteq> ev_Done ev" if "(c, e) \<in> set (as @ bs)" for c e
    using imageI [OF that, of "ev_Done \<circ> snd"] fresh by (metis comp_apply list.set_map snd_conv)
  note other = this
  have "\<exists>c e. (c, e) \<in> set (as @ bs) \<and> ev_Done e = i" if "ls_clients s i = Sending" "i \<noteq> ev_Done ev" for i
  proof -
    from assms(1) that(1) obtain c e where "(c, e) \<in> set (ls_senders s)" "ev_Done e = i"
      unfolding loop_inv_def by metis
    with assms(2) that(2) show ?thesis by auto
  qed
  moreover have "ls_clients s (ev_Done e) = Sending" if "(c, e) \<in> set (as @ bs)" for c e
    using assms that unfolding loop_inv_def by auto
  ultimately show "loop_inv (s\<lparr>ls_trace := tr, ls_senders := as @ bs, ls_clients := (ls_clients s)(ev_Done ev := Waiting)\<rparr>)"
    using assms other unfolding loop_inv_def by simp
qed

lemma loop_inv_trace [simp]: "loop_inv (s\<lparr>ls_trace := tr\<rparr>) = loop_inv s"
  by (simp add: loop_inv_def)

lemma loop_inv_client:
  assumes "loop_inv s" and "ls_clients s i \<noteq> Sending" and "c \<noteq> Sending"
  shows "loop_inv (s\<lparr>ls_clients := (ls_clients s)(i := c)\<rparr>)"
proof -
  from assms(1,2) have "ev_Done ev \<noteq> i" if "(ch, ev) \<in> set (ls_senders s)" for ch ev
    using that unfolding loop_inv_def by metis
  with assms show ?thesis unfolding loop_inv_def by simp
qed

lemma loop_inv_send:
  assumes "loop_inv s" and "ls_clients s (ev_Done ev) \<noteq> Sending"
  shows "loop_inv (s\<lparr>ls_senders := ls_senders s @ [(Nodes, ev)], ls_clients := (ls_clients s)(ev_Done ev := Sending)\<rparr>)"
proof -
  from assms have "ev_Done e \<noteq> ev_Done ev" if "(ch, e) \<in> set (ls_senders s)" for ch e
    using that unfolding loop_inv_def by metis
  then have "ev_Done ev \<notin> set (map (ev_Done \<circ> snd) (ls_senders s))" by force
  with assms show ?thesis unfolding loop_inv_def by simp metis
qed

lemma loop_step_inv: "loop_step E m s s' \<Longrightarrow> loop_inv s \<Longrightarrow> loop_inv s'"
proof (induction rule: loop_step.induct)
  case (repair_returns s i name err tr)
  then show ?case using loop_inv_client [of "s\<lparr>ls_trace := tr\<rparr>" i "Finished err"] by simp
next
  case (repair_sends s i name tr)
  then show ?case using loop_inv_send [of "s\<lparr>ls_trace := tr\<rparr>" "snd (NotifyNodeEvent i)"] by (simp add: notify_defs)
next
  case (pool_sends s i)
  then show ?case using loop_inv_send [of s "snd (NotifyNodePoolEvent i)"] by (simp add: notify_defs)
next
  case (receives s as ch ev bs go sig tr)
  note inv = loop_inv_receive [OF receives.prems receives.hyps(2)]
  with receives.hyps(3) have "go" "sig = []" by (simp_all add: runTurn_nodes)
  with inv(2) [of tr] receives.prems show ?case by (simp add: loop_inv_def)
next
  case (ticks s go sig tr)
  with runTurn_tick [OF ticks.hyps(2)] show ?case by (simp add: loop_inv_def)
next
  case (reenters s)
  then show ?case by (simp add: loop_inv_def)
next
  case (resumes s i)
  then show ?case by (simp add: loop_inv_def)
next
  case (called s i err)
  then show ?case using loop_inv_client [of s i Idle] by simp
qed

lemma reachable_inv: "reachable E m s \<Longrightarrow> loop_inv s"
proof (induction rule: reachable.induct)
  case (start tr)
  show ?case by (simp add: loop_inv_def initLoop_def)
next
  case (step s s')
  from step.hyps(2) step.IH show ?case by (rule loop_step_inv)
qed

lemma reachable_steps: "rtranclp (loop_step E m) s s' \<Longrightarrow> reachable E m s \<Longrightarrow> reachable E m s'"
  by (induction rule: rtranclp_induct) (auto intro: reachable.step)

lemma blocked_step:
  assumes "loop_step E m s s'" and "loop_inv s" and "ls_clients s i \<in> {Sending, Waiting}"
  shows "ls_clients s' i \<in> {Sending, Waiting}"
  using assms by (cases rule: loop_step.cases) (auto simp: loop_inv_def)

section \<open>Properties\<close>

text \<open>An environment with one master, whose node is not ready.\<close>

definition sick_env :: env where
  "sick_env = env0\<lparr>e_node := (\<lambda>tr n. Inr ((node0 n ''cn.i-1'' False)
     \<lparr>node_Meta := zeroMeta\<lparr>om_Name := n, om_Labels := Some [(''node-role.kubernetes.io/master'', [])]\<rparr>\<rparr>))\<rparr>"

definition sent :: LoopState where
  "sent = (initLoop [])\<lparr>ls_trace := [KGetNode ''n1''], ls_senders := [NotifyNodeEvent 0],
     ls_clients := (\<lambda>_. Idle)(0 := Sending)\<rparr>"

lemma sick_sends: "loop_step sick_env m (initLoop []) sent"
proof -
  have "fst (RepairReconcile sick_env ''n1'' []) = Ret Notify" "snd (RepairReconcile sick_env ''n1'' []) = [KGetNode ''n1'']"
    by code_simp+
  then have "RepairReconcile sick_env ''n1'' [] = (Ret Notify, [KGetNode ''n1''])" by (metis prod.collapse)
  then show ?thesis
    using repair_sends [of "initLoop []" 0 sick_env "''n1''" "[KGetNode ''n1'']" m] by (simp add: initLoop_def sent_def)
qed

text \<open>
  C32: a repair that reports an unready master never returns. Once a client of the loop is sending or waiting, it is
  sending or waiting in every later state, whatever the interleaving: the loop takes the event but never
  signals its \<^verbatim>\<open>Done\<close> channel.
\<close>

theorem repair_blocks_forever:
  assumes "reachable E m s" and "ls_clients s i \<in> {Sending, Waiting}" and "rtranclp (loop_step E m) s s'"
  shows "ls_clients s' i \<in> {Sending, Waiting}"
  using assms(3)
proof (induction rule: rtranclp_induct)
  case base
  show ?case by (rule assms(2))
next
  case (step y z)
  from step.hyps(1) assms(1) have "loop_inv y" by (rule reachable_inv [OF reachable_steps])
  with step.hyps(2) show ?case using step.IH by (rule blocked_step)
qed

theorem repair_blocks_forever_witness:
  "loop_step sick_env (healet0 sick_env) (initLoop []) sent \<and> ls_clients sent 0 \<in> {Sending, Waiting} \<and>
   (\<exists>s'. loop_step sick_env (healet0 sick_env) sent s' \<and> ls_clients s' 0 \<in> {Sending, Waiting})"
proof -
  let ?m = "healet0 sick_env"
  let ?s = "sent\<lparr>ls_senders := [], ls_clients := (ls_clients sent)(0 := Waiting)\<rparr>"
  have r: "reachable sick_env ?m sent" by (rule reachable.step [OF reachable.start sick_sends])
  have c: "ls_clients sent 0 \<in> {Sending, Waiting}" by (simp add: sent_def)
  have s: "loop_step sick_env ?m sent ?s"
    using receives [of sent "[]" Nodes "snd (NotifyNodeEvent 0)" "[]" sick_env ?m True "[]" "ls_trace sent"]
    by (simp add: sent_def initLoop_def notify_defs runTurn_nodes)
  from repair_blocks_forever [OF r c r_into_rtranclp [of "loop_step sick_env ?m", OF s]] s c sick_sends show ?thesis by blast
qed

text \<open>
  C31: the loop itself never gets stuck. In every reachable state \<^verbatim>\<open>run\<close> has not returned, nothing was sent to its
  node pool channel, and it can take the event of any blocked sender in the next step.
\<close>

theorem run_serves_senders:
  assumes "reachable E m s"
  shows "ls_running s \<and> Pools \<notin> fst ` set (ls_senders s) \<and>
    (\<forall>i. ls_clients s i = Sending \<longrightarrow> (\<exists>s'. loop_step E m s s' \<and> ls_clients s' i = Waiting))"
proof -
  note inv = reachable_inv [OF assms]
  have "\<exists>s'. loop_step E m s s' \<and> ls_clients s' i = Waiting" if "ls_clients s i = Sending" for i
  proof -
    from inv that obtain ch ev where "(ch, ev) \<in> set (ls_senders s)" and i: "ev_Done ev = i"
      unfolding loop_inv_def by metis
    then obtain as bs where split: "ls_senders s = as @ (ch, ev) # bs" by (meson split_list)
    have turn: "runTurn E m (Received ch ev) (ls_trace s) = (Ret (True, []), ls_trace s)"
      unfolding loop_inv_receive(1) [OF inv split] by (rule runTurn_nodes)
    from inv have "ls_running s" by (simp add: loop_inv_def)
    from receives [OF this split turn] i show ?thesis by (intro exI conjI) auto
  qed
  with inv show ?thesis by (auto simp: loop_inv_def)
qed

theorem run_serves_senders_witness:
  "reachable sick_env (healet0 sick_env) sent \<and> ls_clients sent 0 = Sending \<and>
   (\<exists>s'. loop_step sick_env (healet0 sick_env) sent s' \<and> ls_clients s' 0 = Waiting)"
proof -
  have r: "reachable sick_env (healet0 sick_env) sent" by (rule reachable.step [OF reachable.start sick_sends])
  have c: "ls_clients sent 0 = Sending" by (simp add: sent_def)
  from run_serves_senders [OF r] r c show ?thesis by blast
qed

end
