(* ===== verification/Node_Cache.thy ===== *)
theory Node_Cache
  imports Etcd
begin

text \<open>
  The shared node cache: \<^verbatim>\<open>pkg/context/base/context.go\<close> (a context over a \<^verbatim>\<open>sync.Map\<close>),
  \<^verbatim>\<open>pkg/context/credential.go\<close> (the cache of the masters), and the controller in
  \<^verbatim>\<open>pkg/operator/controllers/master/master.go\<close> that keeps the cache equal to the \<^verbatim>\<open>Master\<close> resources.
  A map is an association list with distinct keys; ranging over it visits it in an order that the
  environment chooses.
\<close>

section \<open>Contexts\<close>

text \<open>A value of type \<^verbatim>\<open>interface{}\<close>: a \<^verbatim>\<open>Master\<close>, or of some other type.\<close>

datatype any = AnyMaster Master | AnyOther string

record BaseContext =
  ctx_Ctx :: "(string \<times> any) list option"

definition Value_of :: "BaseContext \<Rightarrow> string \<Rightarrow> any option" where
  "Value_of c key = (case ctx_Ctx c of None \<Rightarrow> None | Some m \<Rightarrow> map_of m key)"

definition SetKV :: "BaseContext \<Rightarrow> string \<Rightarrow> any \<Rightarrow> BaseContext" where
  "SetKV c key v = c\<lparr>ctx_Ctx := Some (put (case ctx_Ctx c of None \<Rightarrow> [] | Some m \<Rightarrow> m) key v)\<rparr>"

definition DeleteKV :: "BaseContext \<Rightarrow> string \<Rightarrow> BaseContext eff" where
  "DeleteKV c key = andThen (deref (ctx_Ctx c)) (\<lambda>m. ret (c\<lparr>ctx_Ctx := Some (filter (\<lambda>(k, v). k \<noteq> key) m)\<rparr>))"

text \<open>The visitor carries the variables it captures and answers whether to go on.\<close>

fun visit :: "('s \<Rightarrow> string \<Rightarrow> any \<Rightarrow> 's \<times> bool) \<Rightarrow> 's \<Rightarrow> (string \<times> any) list \<Rightarrow> 's" where
  "visit f s [] = s"
| "visit f s ((k, v) # m) = (case f s k v of (s', go) \<Rightarrow> if go then visit f s' m else s')"

definition Range :: "env \<Rightarrow> BaseContext \<Rightarrow> ('s \<Rightarrow> string \<Rightarrow> any \<Rightarrow> 's \<times> bool) \<Rightarrow> 's \<Rightarrow> 's eff" where
  "Range E c f s = andThen (deref (ctx_Ctx c)) (\<lambda>m. andThen (range_map E m) (\<lambda>l. ret (visit f s l)))"

definition NewContext :: BaseContext where
  "NewContext = \<lparr>ctx_Ctx = Some []\<rparr>"

section \<open>The cache of the masters\<close>

record CachedContext =
  cac_Nodes :: BaseContext
  cac_BootCFG :: "ClusterSpec option"

definition NewCachedContext :: "ClusterSpec option \<Rightarrow> CachedContext" where
  "NewCachedContext boot = \<lparr>cac_Nodes = NewContext, cac_BootCFG = boot\<rparr>"

definition GetMasters :: "env \<Rightarrow> CachedContext \<Rightarrow> Master list eff" where
  "GetMasters E n = Range E (cac_Nodes n) (\<lambda>masters key value. case value of
     AnyMaster val \<Rightarrow> (masters @ [val], True)
   | AnyOther _ \<Rightarrow> (masters, True)) []"

definition AddMaster :: "CachedContext \<Rightarrow> Master \<Rightarrow> CachedContext" where
  "AddMaster n m = n\<lparr>cac_Nodes := SetKV (cac_Nodes n) (m_Name m) (AnyMaster m)\<rparr>"

definition RemoveMaster :: "CachedContext \<Rightarrow> string \<Rightarrow> CachedContext eff" where
  "RemoveMaster n key = andThen (DeleteKV (cac_Nodes n) key) (\<lambda>c. ret (n\<lparr>cac_Nodes := c\<rparr>))"

section \<open>Mirroring the resources\<close>

text \<open>The two loops of \<^verbatim>\<open>AddMasters\<close>.\<close>

fun dropGone :: "CachedContext \<Rightarrow> Master list \<Rightarrow> Master list \<Rightarrow> CachedContext eff" where
  "dropGone cache ms [] = ret cache"
| "dropGone cache ms (mc # mca) =
     andThen (if list_ex (\<lambda>m. m_Name mc = m_Name m) ms then ret cache else RemoveMaster cache (m_Name mc))
       (\<lambda>cache. dropGone cache ms mca)"

fun addAll :: "CachedContext \<Rightarrow> Master list \<Rightarrow> CachedContext" where
  "addAll cache [] = cache"
| "addAll cache (m # ms) = addAll (AddMaster cache m) ms"

definition AddMasters :: "env \<Rightarrow> CachedContext \<Rightarrow> Master list \<Rightarrow> CachedContext eff" where
  "AddMasters E cache ms = andThen (GetMasters E cache) (\<lambda>mca.
     andThen (dropGone cache ms mca) (\<lambda>cache. ret (addAll cache ms)))"

definition NodeReconcile :: "env \<Rightarrow> CachedContext \<Rightarrow> (CachedContext \<times> gerr option) eff" where
  "NodeReconcile E cache = andThen (MasterCRDS E) (\<lambda>r. case r of
     Inl e \<Rightarrow> if IsNotFound e then andThen (AddMasters E cache []) (\<lambda>cache. ret (cache, None))
              else ret (cache, Some e)
   | Inr m \<Rightarrow> andThen (AddMasters E cache m) (\<lambda>cache. ret (cache, None)))"

section \<open>Lemmas\<close>

text \<open>
  The invariant of the cache: the map exists, has every key once, and holds a master under its name.
\<close>

definition keyed :: "CachedContext \<Rightarrow> bool" where
  "keyed n = (case ctx_Ctx (cac_Nodes n) of None \<Rightarrow> False
     | Some l \<Rightarrow> distinct (map fst l) \<and>
         list_all (\<lambda>(k, v). case v of AnyMaster m \<Rightarrow> m_Name m = k | AnyOther _ \<Rightarrow> True) l)"

definition entry :: "CachedContext \<Rightarrow> string \<Rightarrow> any option" where
  "entry n key = Value_of (cac_Nodes n) key"

text \<open>What the mirrored cache holds: the last resource of each name, and what is no master.\<close>

definition mirrored :: "CachedContext \<Rightarrow> Master list \<Rightarrow> string \<Rightarrow> any option" where
  "mirrored n ms key = (case find (\<lambda>m. m_Name m = key) (rev ms) of
     Some m \<Rightarrow> Some (AnyMaster m)
   | None \<Rightarrow> (case entry n key of Some (AnyMaster _) \<Rightarrow> None | v \<Rightarrow> v))"

lemma NewCachedContext_keyed: "keyed (NewCachedContext boot)"
  by (simp add: keyed_def NewCachedContext_def NewContext_def)

lemma put_entries: "set (put l k v) \<subseteq> insert (k, v) (set l)"
  by (induction l) (auto split: if_splits)

lemma AddMaster_keyed: "keyed n \<Longrightarrow> keyed (AddMaster n m)"
  using put_entries by (fastforce simp: keyed_def AddMaster_def SetKV_def distinct_put list_all_iff split: option.splits)

lemma AddMaster_entry: "entry (AddMaster n m) = (entry n)(m_Name m \<mapsto> AnyMaster m)"
  by (auto simp: entry_def AddMaster_def SetKV_def Value_of_def split: option.splits)

lemma find_append: "find P (xs @ ys) = (case find P xs of None \<Rightarrow> find P ys | Some x \<Rightarrow> Some x)"
  by (induction xs) auto

lemma addAll_mirror:
  "keyed n \<Longrightarrow> keyed (addAll n ms) \<and>
   entry (addAll n ms) k = (case find (\<lambda>m. m_Name m = k) (rev ms) of Some m \<Rightarrow> Some (AnyMaster m) | None \<Rightarrow> entry n k)"
  by (induction ms arbitrary: n) (auto simp: AddMaster_keyed AddMaster_entry find_append split: option.splits)

lemma RemoveMaster_run:
  assumes "keyed n"
  obtains n' where "RemoveMaster n key tr = (Ret n', tr)" and "keyed n'" and "entry n' = (entry n)(key := None)"
proof -
  from assms obtain l where l: "ctx_Ctx (cac_Nodes n) = Some l" by (auto simp: keyed_def split: option.splits)
  let ?n = "n\<lparr>cac_Nodes := (cac_Nodes n)\<lparr>ctx_Ctx := Some (filter (\<lambda>(k, v). k \<noteq> key) l)\<rparr>\<rparr>"
  have "RemoveMaster n key tr = (Ret ?n, tr)" using l by (simp add: RemoveMaster_def DeleteKV_def deref_def run_simps)
  moreover have "keyed ?n" using assms l by (auto simp: keyed_def list_all_iff intro: distinct_map_filter)
  moreover have "map_of (filter (\<lambda>(k, v). k \<noteq> key) l) = (map_of l)(key := None)" by (induction l) auto
  then have "entry ?n = (entry n)(key := None)" using l by (auto simp: entry_def Value_of_def)
  ultimately show thesis by (rule that)
qed

lemma dropGone_run:
  assumes "keyed n"
  shows "\<exists>n'. dropGone n ms mca tr = (Ret n', tr) \<and> keyed n' \<and>
    entry n' k = (if k \<in> m_Name ` set mca \<and> k \<notin> m_Name ` set ms then None else entry n k)"
  using assms
proof (induction mca arbitrary: n)
  case (Cons mc mca)
  obtain n' where rm: "RemoveMaster n (m_Name mc) tr = (Ret n', tr)" "keyed n'" "entry n' = (entry n)(m_Name mc := None)"
    using Cons.prems by (rule RemoveMaster_run)
  let ?kept = "list_ex (\<lambda>m. m_Name mc = m_Name m) ms" and ?n = "if list_ex (\<lambda>m. m_Name mc = m_Name m) ms then n else n'"
  have step: "(if ?kept then ret n else RemoveMaster n (m_Name mc)) tr = (Ret ?n, tr)" using rm(1) by (simp add: ret_apply)
  have "keyed ?n" and e: "entry ?n k = (if k = m_Name mc \<and> \<not> ?kept then None else entry n k)"
    using Cons.prems rm(2,3) by auto
  moreover have "?kept \<longleftrightarrow> m_Name mc \<in> m_Name ` set ms" by (auto simp: list_ex_iff)
  ultimately show ?case using Cons.IH [of ?n] unfolding dropGone.simps andThen_apply [of "if ?kept then ret n else RemoveMaster n (m_Name mc)", OF step]
    by (auto split: if_splits)
qed (simp add: ret_apply)

lemma visit_masters:
  "visit (\<lambda>masters key value. case value of AnyMaster val \<Rightarrow> (masters @ [val], True) | AnyOther _ \<Rightarrow> (masters, True)) s l =
   s @ List.map_filter (\<lambda>(k, v). case v of AnyMaster m \<Rightarrow> Some m | _ \<Rightarrow> None) l"
  by (induction l arbitrary: s) (auto simp: map_filter_simps split: any.splits)

lemma GetMasters_run:
  assumes "keyed n"
  obtains ms t where "GetMasters E n tr = (Ret ms, t)" and "\<And>k. k \<in> m_Name ` set ms \<longleftrightarrow> (\<exists>m. entry n k = Some (AnyMaster m))"
proof -
  from assms obtain l where l: "ctx_Ctx (cac_Nodes n) = Some l" "distinct (map fst l)"
    "\<And>k m. (k, AnyMaster m) \<in> set l \<Longrightarrow> m_Name m = k"
    by (fastforce simp: keyed_def list_all_iff split: option.splits)
  obtain xs where xs: "range_map E l tr = (Ret xs, tr @ [CRange (length l)])" "mset xs = mset l"
    using range_map_mset [of E l tr] by (fastforce simp: range_map_def perform_apply Let_def)
  let ?ms = "List.map_filter (\<lambda>(k, v). case v of AnyMaster m \<Rightarrow> Some m | _ \<Rightarrow> None) xs"
  have run: "GetMasters E n tr = (Ret ?ms, tr @ [CRange (length l)])"
    using l(1) xs(1) by (simp add: GetMasters_def Range_def deref_def visit_masters run_simps)
  have mem: "m \<in> set ?ms \<longleftrightarrow> (\<exists>k. (k, AnyMaster m) \<in> set l)" for m
    using mset_eq_setD [OF xs(2)] by (force simp: List.map_filter_def split: any.splits)
  show thesis
    by (rule that [OF run])
      (use mem l in \<open>auto simp: entry_def Value_of_def image_iff map_of_eq_Some_iff dest: map_of_SomeD\<close>)
qed

section \<open>Properties\<close>

text \<open>
  C30: the cache mirrors the resources. From a cache that holds each master under its name, \<^verbatim>\<open>AddMasters\<close>
  always returns, keeps that invariant, and leaves exactly the given masters (the last one of each
  name) besides the values that are no masters.
\<close>

theorem AddMasters_mirrors:
  assumes "keyed n"
  shows "\<exists>n' t. AddMasters E n ms tr = (Ret n', t) \<and> keyed n' \<and> (\<forall>k. entry n' k = mirrored n ms k)"
proof -
  from assms obtain mca t where get: "GetMasters E n tr = (Ret mca, t)"
    and names: "\<And>k. k \<in> m_Name ` set mca \<longleftrightarrow> (\<exists>m. entry n k = Some (AnyMaster m))" by (rule GetMasters_run [of n E tr]) auto
  from dropGone_run [OF assms, of ms mca t] obtain n1 where drop: "dropGone n ms mca t = (Ret n1, t)" "keyed n1" by blast
  have e: "entry n1 k = (if k \<in> m_Name ` set mca \<and> k \<notin> m_Name ` set ms then None else entry n k)" for k
    using dropGone_run [OF assms, of ms mca t k] drop by auto
  have "entry (addAll n1 ms) k = mirrored n ms k" for k
  proof (cases "find (\<lambda>m. m_Name m = k) (rev ms)")
    case None
    then have "k \<notin> m_Name ` set ms" by (auto simp: find_None_iff)
    with None e [of k] names [of k] show ?thesis
      using addAll_mirror [OF drop(2), of ms k] by (auto simp: mirrored_def split: option.splits any.splits)
  qed (use addAll_mirror [OF drop(2), of ms k] in \<open>simp add: mirrored_def\<close>)
  with addAll_mirror [OF drop(2)] show ?thesis
    by (simp add: AddMasters_def andThen_apply [of "GetMasters E n", OF get] andThen_apply [of "dropGone n ms mca", OF drop(1)] ret_apply)
qed

theorem AddMasters_mirrors_witness:
  "\<exists>n' t. AddMasters env0 (AddMaster (NewCachedContext None) (master0 ''m1'' ''i-1'' ''10.0.0.1'')) [master0 ''m2'' ''i-2'' ''10.0.0.2''] [] =
     (Ret n', t) \<and> entry n' ''m1'' = None \<and> entry n' ''m2'' = Some (AnyMaster (master0 ''m2'' ''i-2'' ''10.0.0.2''))"
proof -
  let ?n = "AddMaster (NewCachedContext None) (master0 ''m1'' ''i-1'' ''10.0.0.1'')" and ?m = "master0 ''m2'' ''i-2'' ''10.0.0.2''"
  have v: "mirrored ?n [?m] ''m1'' = None" "mirrored ?n [?m] ''m2'' = Some (AnyMaster ?m)"
    by code_simp+
  show ?thesis
    using AddMasters_mirrors [OF AddMaster_keyed [OF NewCachedContext_keyed], of env0 None "master0 ''m1'' ''i-1'' ''10.0.0.1''" "[?m]" "[]"] v
    by metis
qed

end
