(* ===== verification/Monit.thy ===== *)
theory Monit
  imports Etcd
begin

text \<open>
  The monitor of \<^verbatim>\<open>pkg/operator/monit/monitor.go\<close>: checks with failure counters, and actions that run when
  every counter has passed its threshold; and the etcd check of \<^verbatim>\<open>pkg/operator/monit/check/etcd.go\<close>. A
  check is a Go interface, here a record of its methods over the state \<open>'s\<close> of its receiver; what the
  monitor relies on is the locale \<open>monitor_check\<close>. The token bucket of a check is an argument.
\<close>

section \<open>Checks\<close>

record 's Check =
  ck_Name :: string
  ck_Check :: "'s \<Rightarrow> ('s \<times> bool \<times> gerr option) eff"
  ck_TryAccept :: "bool eff"
  ck_Threshold :: int

record 's ThreshedCheck =
  tc_check :: "'s Check"
  tc_state :: 's
  tc_threshed :: int
  tc_lastFailed :: string
  tc_lastGood :: string
  tc_lastReset :: string

definition NewThreshedCheck :: "'s Check \<Rightarrow> 's \<Rightarrow> 's ThreshedCheck" where
  "NewThreshedCheck check s = \<lparr>tc_check = check, tc_state = s, tc_threshed = 0, tc_lastFailed = [],
     tc_lastGood = [], tc_lastReset = []\<rparr>"

definition ResetCheck :: "'s ThreshedCheck \<Rightarrow> 's ThreshedCheck" where
  "ResetCheck t = t\<lparr>tc_threshed := 0\<rparr>"

definition ThreshMeet :: "'s ThreshedCheck \<Rightarrow> bool" where
  "ThreshMeet t \<longleftrightarrow> tc_threshed t > ck_Threshold (tc_check t)"

section \<open>The monitor\<close>

record 's Monitor =
  mo_checks :: "(string \<times> 's ThreshedCheck) list"
  mo_actions :: "gerr option eff list"
  mo_lastRun :: int

definition NewMonitor :: "env \<Rightarrow> 's Monitor eff" where
  "NewMonitor E = andThen (now E) (\<lambda>n. ret \<lparr>mo_checks = [], mo_actions = [], mo_lastRun = n\<rparr>)"

fun WithCheck :: "'s Monitor \<Rightarrow> ('s Check \<times> 's) list \<Rightarrow> 's Monitor" where
  "WithCheck m [] = m"
| "WithCheck m ((v, s) # check) =
     WithCheck (m\<lparr>mo_checks := put (mo_checks m) (ck_Name v) (NewThreshedCheck v s)\<rparr>) check"

definition WithAction :: "'s Monitor \<Rightarrow> gerr option eff list \<Rightarrow> 's Monitor" where
  "WithAction m action = m\<lparr>mo_actions := mo_actions m @ action\<rparr>"

text \<open>One check of \<^verbatim>\<open>CheckRound\<close>, and the loop over the map.\<close>

definition checkOne :: "env \<Rightarrow> 's ThreshedCheck \<Rightarrow> 's ThreshedCheck eff" where
  "checkOne E v = andThen (ck_TryAccept (tc_check v)) (\<lambda>accept.
     if \<not> accept then ret v
     else andThen (ck_Check (tc_check v) (tc_state v)) (\<lambda>(s, ok, err).
       let v = v\<lparr>tc_state := s\<rparr> in
       case err of
         Some e \<Rightarrow> ret v
       | None \<Rightarrow> if \<not> ok then andThen (Now E) (\<lambda>n. ret (v\<lparr>tc_threshed := tc_threshed v + 1, tc_lastFailed := n\<rparr>))
           else andThen (Now E) (\<lambda>good. andThen (Now E) (\<lambda>reset.
             ret ((ResetCheck v)\<lparr>tc_lastGood := good, tc_lastReset := reset\<rparr>)))))"

fun checkAll :: "env \<Rightarrow> (string \<times> 's ThreshedCheck) list \<Rightarrow> (string \<times> 's ThreshedCheck) list eff" where
  "checkAll E [] = ret []"
| "checkAll E ((k, v) # vs) = andThen (checkOne E v) (\<lambda>v'. andThen (checkAll E vs) (\<lambda>vs'. ret ((k, v') # vs')))"

definition CheckRound :: "env \<Rightarrow> 's Monitor \<Rightarrow> 's Monitor eff" where
  "CheckRound E m = andThen (range_map E (mo_checks m)) (\<lambda>l. andThen (checkAll E l) (\<lambda>l'.
     ret (m\<lparr>mo_checks := l'\<rparr>)))"

definition meetAll :: "env \<Rightarrow> 's Monitor \<Rightarrow> bool eff" where
  "meetAll E m = andThen (range_map E (mo_checks m)) (\<lambda>l. ret (list_all (\<lambda>(k, v). ThreshMeet v) l))"

text \<open>The actions run in order; a failed one is only logged.\<close>

fun runActions :: "gerr option eff list \<Rightarrow> unit eff" where
  "runActions [] = ret ()"
| "runActions (action # as) = andThen action (\<lambda>_. runActions as)"

text \<open>The closure \<^verbatim>\<open>check\<close> of \<^verbatim>\<open>StartMonit\<close>, and the first \<open>n\<close> rounds of \<^verbatim>\<open>wait.Forever\<close>.\<close>

definition monitRound :: "env \<Rightarrow> 's Monitor \<Rightarrow> 's Monitor eff" where
  "monitRound E m = andThen (andThen (meetAll E m) (\<lambda>met.
       if met then andThen (now E) (\<lambda>n.
           if \<not> n > mo_lastRun m + 5 * Minute then ret m
           else andThen (runActions (mo_actions m)) (\<lambda>_. andThen (now E) (\<lambda>n. ret (m\<lparr>mo_lastRun := n\<rparr>))))
       else ret m)) (\<lambda>m. CheckRound E m)"

fun StartMonit :: "env \<Rightarrow> nat \<Rightarrow> 's Monitor \<Rightarrow> 's Monitor eff" where
  "StartMonit E 0 m = ret m"
| "StartMonit E (Suc n) m =
     andThen (monitRound E m) (\<lambda>m. andThen (Sleep (10 * Second)) (\<lambda>_. StartMonit E n m))"

section \<open>The etcd check\<close>

record CheckEtcd =
  ce_master :: "Master list"
  ce_Cluster :: "Cluster option"

definition NewCheckEtcd :: "env \<Rightarrow> (gerr + CheckEtcd) eff" where
  "NewCheckEtcd E = andThen (Cluster_get E ''kubernetes-cluster'') (\<lambda>r. case r of
     Inl e \<Rightarrow> ret (Inl e)
   | Inr spec \<Rightarrow> ret (Inr \<lparr>ce_master = [], ce_Cluster = Some spec\<rparr>))"

text \<open>The loop over the members ends at the first healthy one.\<close>

fun anyHealthy :: "env \<Rightarrow> Etcd \<Rightarrow> Member list \<Rightarrow> bool eff" where
  "anyHealthy E metcd [] = ret False"
| "anyHealthy E metcd (mem # mems) = andThen (EndpointHealth E metcd (mem_IP mem)) (\<lambda>err.
     case err of None \<Rightarrow> ret True | Some e \<Rightarrow> anyHealthy E metcd mems)"

definition checkMembers :: "env \<Rightarrow> CheckEtcd \<Rightarrow> gerr option \<Rightarrow> (CheckEtcd \<times> bool \<times> gerr option) eff" where
  "checkMembers E m err = (case ce_Cluster m of
     None \<Rightarrow> ret (m, True, Wrapf err ''empty cluster spec'')
   | Some cluster \<Rightarrow> andThen (NewEtcdFromCRD E (ce_master m) cluster ''/tmp'') (\<lambda>r. case r of
       Inl e \<Rightarrow> ret (m, True, Some (Wrap e ''new etcd''))
     | Inr metcd \<Rightarrow> andThen (MemberList E metcd) (\<lambda>(err, mems). case err of
         Some e \<Rightarrow> ret (m, False, None)
       | None \<Rightarrow> andThen (anyHealthy E metcd mems) (\<lambda>h. ret (m, h, None)))))"

definition EtcdCheck :: "env \<Rightarrow> CheckEtcd \<Rightarrow> (CheckEtcd \<times> bool \<times> gerr option) eff" where
  "EtcdCheck E m = andThen (Cluster_get E ''kubernetes-cluster'') (\<lambda>r. case r of
     Inl e \<Rightarrow> checkMembers E m (Some e)
   | Inr spec \<Rightarrow> (let m = m\<lparr>ce_Cluster := Some spec\<rparr> in
       andThen (MasterCRDS E) (\<lambda>r.
         let m = (case r of Inr (x # xs) \<Rightarrow> m\<lparr>ce_master := x # xs\<rparr> | _ \<Rightarrow> m);
             err = (case r of Inl e \<Rightarrow> Some e | Inr _ \<Rightarrow> None)
         in if ce_master m = [] then ret (m, True, Wrapf err ''no master crd found'')
            else checkMembers E m None)))"

definition etcdCheckOf :: "env \<Rightarrow> (call list \<Rightarrow> bool) \<Rightarrow> CheckEtcd Check" where
  "etcdCheckOf E accept = \<lparr>ck_Name = ''etcd.health.check'', ck_Check = EtcdCheck E,
     ck_TryAccept = perform CNow accept, ck_Threshold = 6\<rparr>"

section \<open>Other clients\<close>

definition GetSpec :: "env \<Rightarrow> (gerr + Cluster \<times> Master list) eff" where
  "GetSpec E = andThen (Cluster_get E ''kubernetes-cluster'') (\<lambda>r. case r of
     Inl e \<Rightarrow> ret (Inl e)
   | Inr spec \<Rightarrow> andThen (MasterCRDS E) (\<lambda>r. case r of
       Inl e \<Rightarrow> ret (Inl e)
     | Inr masters \<Rightarrow> ret (Inr (spec, masters))))"

section \<open>What a counter stands for\<close>

text \<open>
  The abstract view of a check: a verdict per round, and the number of failures since the last success. A
  round in which the check is throttled or fails to decide does not count.
\<close>

datatype verdict = Skipped | Failed | Good

definition verdict :: "'s ThreshedCheck \<Rightarrow> call list \<Rightarrow> verdict" where
  "verdict v tr = (case ck_TryAccept (tc_check v) tr of
     (Ret True, t) \<Rightarrow> (case fst (ck_Check (tc_check v) (tc_state v) t) of
        Ret (s, ok, None) \<Rightarrow> if ok then Good else Failed
      | _ \<Rightarrow> Skipped)
   | _ \<Rightarrow> Skipped)"

fun streak :: "verdict list \<Rightarrow> nat" where
  "streak [] = 0"
| "streak (Skipped # vs) = streak vs"
| "streak (Failed # vs) = Suc (streak vs)"
| "streak (Good # vs) = 0"

definition consecutive :: "verdict list \<Rightarrow> nat" where
  "consecutive vs = streak (rev vs)"

inductive history :: "env \<Rightarrow> 's ThreshedCheck \<Rightarrow> verdict list \<Rightarrow> bool" for E where
  fresh: "history E (NewThreshedCheck c s) []"
| checked: "history E v vs \<Longrightarrow> checkOne E v tr = (Ret v', t) \<Longrightarrow> history E v' (vs @ [verdict v tr])"

locale monitor_check =
  fixes ck :: "'s Check" and B :: "call set"
  assumes check_emits: "emits B (ck_Check ck s)"
    and accept_emits: "emits B (ck_TryAccept ck)"
    and clock: "CNow \<in> B"
begin

lemma checkOne_emits: "tc_check v = ck \<Longrightarrow> emits B (checkOne E v)"
  unfolding checkOne_def Let_def Now_def
  by (intro emits_intro check_emits accept_emits) (use check_emits accept_emits clock in auto)

end

section \<open>Lemmas\<close>

lemma streak_le: "streak vs \<le> length vs"
  by (induction vs rule: streak.induct) auto

lemma consecutive_le: "consecutive vs \<le> length vs"
  using streak_le [of "rev vs"] by (simp add: consecutive_def)

lemma consecutive_snoc [simp]: "consecutive [] = 0"
  "consecutive (vs @ [x]) = (case x of Skipped \<Rightarrow> consecutive vs | Failed \<Rightarrow> Suc (consecutive vs) | Good \<Rightarrow> 0)"
  by (auto simp: consecutive_def split: verdict.split)

lemma checkOne_counter:
  assumes "checkOne E v tr = (Ret v', t)"
  shows "tc_check v' = tc_check v \<and> tc_threshed v' = (case verdict v tr of
    Skipped \<Rightarrow> tc_threshed v | Failed \<Rightarrow> tc_threshed v + 1 | Good \<Rightarrow> 0)"
proof -
  from assms obtain accept t1 where a: "ck_TryAccept (tc_check v) tr = (Ret accept, t1)"
    unfolding checkOne_def andThen_Ret_iff by blast
  show ?thesis
  proof (cases accept)
    case True
    with assms a obtain s ok err t2 where c: "ck_Check (tc_check v) (tc_state v) t1 = (Ret (s, ok, err), t2)"
      by (auto simp: checkOne_def andThen_apply [of "ck_TryAccept (tc_check v)", OF a] andThen_Ret_iff)
    with True assms a show ?thesis
      by (auto simp: checkOne_def verdict_def andThen_apply [of "ck_TryAccept (tc_check v)", OF a] Now_def ResetCheck_def
        andThen_apply [of "ck_Check (tc_check v) (tc_state v)", OF c] Let_def andThen_Ret_iff split: option.splits if_splits)
  next
    case False
    with assms a show ?thesis
      by (auto simp: checkOne_def verdict_def andThen_apply [of "ck_TryAccept (tc_check v)", OF a])
  qed
qed

lemma history_counter: "history E v vs \<Longrightarrow> tc_threshed v = int (consecutive vs)"
proof (induction rule: history.induct)
  case (checked v vs tr v' t)
  with checkOne_counter [OF checked.hyps(2)] show ?case by (simp split: verdict.split)
qed (simp add: NewThreshedCheck_def)

lemma checkAll_history:
  assumes "checkAll E l tr = (Ret l', t)" and "\<And>k v. (k, v) \<in> set l \<Longrightarrow> \<exists>vs. length vs = n \<and> history E v vs \<and> tc_check v \<in> C"
    and "(k', v') \<in> set l'"
  shows "\<exists>vs. length vs = Suc n \<and> history E v' vs \<and> tc_check v' \<in> C"
  using assms
proof (induction l arbitrary: tr l' t)
  case Nil
  then show ?case by simp
next
  case (Cons x l)
  obtain k v where x: "x = (k, v)" by fastforce
  from Cons.prems(1) obtain v1 l1 t1 t2 where one: "checkOne E v tr = (Ret v1, t1)"
    and rest: "checkAll E l t1 = (Ret l1, t2)" and l': "l' = (k, v1) # l1"
    unfolding x by (auto simp: andThen_Ret_iff)
  from Cons.prems(2) [of k v] x obtain vs where vs: "length vs = n" "history E v vs" "tc_check v \<in> C" by auto
  with checked [OF vs(2) one] checkOne_counter [OF one]
  have "\<exists>vs. length vs = Suc n \<and> history E v1 vs \<and> tc_check v1 \<in> C" by (intro exI [of _ "vs @ [verdict v tr]"]) simp
  moreover have "\<exists>vs. length vs = Suc n \<and> history E v' vs \<and> tc_check v' \<in> C" if "(k', v') \<in> set l1"
    by (rule Cons.IH [OF rest _ that], rule Cons.prems(2), rule list.set_intros(2))
  ultimately show ?case using Cons.prems(3) l' by auto
qed

text \<open>After \<open>n\<close> rounds every check has a history of \<open>n\<close> verdicts.\<close>

definition observed :: "env \<Rightarrow> 's Check set \<Rightarrow> gerr option eff list \<Rightarrow> nat \<Rightarrow> 's Monitor \<Rightarrow> bool" where
  "observed E C as n m \<longleftrightarrow> mo_actions m = as \<and>
     (\<forall>k v. (k, v) \<in> set (mo_checks m) \<longrightarrow> (\<exists>vs. length vs = n \<and> history E v vs \<and> tc_check v \<in> C))"

lemma CheckRound_observed:
  assumes "CheckRound E m tr = (Ret m', t)" and "observed E C as n m"
  shows "observed E C as (Suc n) m'"
proof -
  from assms(1) obtain l l' t1 where l: "range_map E (mo_checks m) tr = (Ret l, t1)"
    and all: "checkAll E l t1 = (Ret l', t)" and m': "m' = m\<lparr>mo_checks := l'\<rparr>"
    unfolding CheckRound_def andThen_Ret_iff by auto
  from range_map_mset [OF l] have "mset l = mset (mo_checks m)" by simp
  then have "set l = set (mo_checks m)" by (rule mset_eq_setD)
  with checkAll_history [OF all] assms(2) m' show ?thesis unfolding observed_def by simp
qed

lemma monitRound_observed:
  assumes "monitRound E m tr = (Ret m', t)" and "observed E C as n m"
  shows "observed E C as (Suc n) m'"
proof -
  from assms(1) obtain m1 t1 where "m1 = m \<or> (\<exists>r. m1 = m\<lparr>mo_lastRun := r\<rparr>)" and "CheckRound E m1 t1 = (Ret m', t)"
    unfolding monitRound_def andThen_Ret_iff by (auto simp: andThen_Ret_iff split: if_splits)
  moreover from this(1) assms(2) have "observed E C as n m1" by (auto simp: observed_def)
  ultimately show ?thesis by (blast intro: CheckRound_observed)
qed

lemma StartMonit_observed:
  "StartMonit E n m tr = (Ret m', t) \<Longrightarrow> observed E C as k m \<Longrightarrow> observed E C as (k + n) m'"
proof (induction n arbitrary: m tr k)
  case (Suc n)
  from Suc.prems(1) obtain m1 t1 t2 where r: "monitRound E m tr = (Ret m1, t1)" and "StartMonit E n m1 t2 = (Ret m', t)"
    by (auto simp: andThen_Ret_iff)
  from Suc.IH [OF this(2) monitRound_observed [OF r Suc.prems(2)]] show ?case by simp
qed simp

lemma put_set: "(k', v') \<in> set (put l k v) \<Longrightarrow> (k', v') \<in> set l \<or> k' = k \<and> v' = v"
  by (induction l) (auto split: if_splits)

lemma WithCheck_observed:
  "observed E C as 0 m \<Longrightarrow> fst ` set cs \<subseteq> C \<Longrightarrow> observed E C as 0 (WithCheck m cs)"
proof (induction m cs rule: WithCheck.induct)
  case (2 m v s check)
  have "observed E C as 0 (m\<lparr>mo_checks := put (mo_checks m) (ck_Name v) (NewThreshedCheck v s)\<rparr>)"
    using 2(2,3) put_set by (fastforce simp: observed_def NewThreshedCheck_def intro: fresh [unfolded NewThreshedCheck_def])
  with 2(1,3) show ?case by simp
qed simp

lemma WithAction_observed: "observed E C [] n m \<Longrightarrow> observed E C as n (WithAction m as)"
  by (simp add: observed_def WithAction_def)

lemma checkAll_emits: "(\<And>k v. (k, v) \<in> set l \<Longrightarrow> emits A (checkOne E v)) \<Longrightarrow> emits A (checkAll E l)"
  by (induction l rule: checkAll.induct) (auto intro!: emits_intro)

lemma CheckRound_emits:
  assumes "reads \<subseteq> A" and "\<And>k v. (k, v) \<in> set (mo_checks m) \<Longrightarrow> emits A (checkOne E v)"
  shows "emits A (CheckRound E m)"
proof -
  have "emits A (checkAll E l)" if "range_map E (mo_checks m) tr = (Ret l, t)" for l tr t
  proof (rule checkAll_emits)
    fix k v
    assume "(k, v) \<in> set l"
    moreover from range_map_mset [OF that] have "mset l = mset (mo_checks m)" by simp
    then have "set l = set (mo_checks m)" by (rule mset_eq_setD)
    ultimately show "emits A (checkOne E v)" using assms(2) by blast
  qed
  with assms(1) show ?thesis unfolding CheckRound_def
    by (intro emits_bind emits_range_map emits_andThen emits_ret) auto
qed

lemma meetAll_met:
  assumes "meetAll E m tr = (Ret met, t)"
  shows "met \<longleftrightarrow> (\<forall>k v. (k, v) \<in> set (mo_checks m) \<longrightarrow> ThreshMeet v)"
proof -
  from assms obtain l where l: "range_map E (mo_checks m) tr = (Ret l, t)" "met = list_all (\<lambda>(k, v). ThreshMeet v) l"
    unfolding meetAll_def andThen_Ret_iff by auto
  from range_map_mset [OF l(1)] have "mset l = mset (mo_checks m)" by simp
  then have "set l = set (mo_checks m)" by (rule mset_eq_setD)
  with l(2) show ?thesis by (auto simp: list_all_iff)
qed

text \<open>A round makes calls of its own only when all counters and the clock allow the actions.\<close>

lemma monitRound_quiet:
  assumes "reads \<subseteq> A" and "\<And>k v. (k, v) \<in> set (mo_checks m) \<Longrightarrow> emits A (checkOne E v)"
    and "\<not> ((\<forall>k v. (k, v) \<in> set (mo_checks m) \<longrightarrow> ThreshMeet v) \<and> (\<exists>t. e_now E t > mo_lastRun m + 5 * Minute))"
  shows "emits A (monitRound E m)"
proof -
  define pre where "pre = andThen (meetAll E m) (\<lambda>met.
       if met then andThen (now E) (\<lambda>n.
           if \<not> n > mo_lastRun m + 5 * Minute then ret m
           else andThen (runActions (mo_actions m)) (\<lambda>_. andThen (now E) (\<lambda>n. ret (m\<lparr>mo_lastRun := n\<rparr>))))
       else ret m)"
  have "emits A pre" unfolding pre_def now_def meetAll_def
    by (intro emits_bind [OF emits_andThen] emits_if emits_bind_perform emits_ret emits_range_map)
      (use assms(1,3) meetAll_met [of E m] in \<open>auto simp: meetAll_def\<close>)
  moreover have "emits A (CheckRound E m1)" if "pre tr = (Ret m1, t)" for m1 tr t
  proof -
    from that have "mo_checks m1 = mo_checks m" by (auto simp: pre_def andThen_Ret_iff split: if_splits)
    with CheckRound_emits [OF assms(1), of m1 E] assms(2) show ?thesis by simp
  qed
  ultimately show ?thesis unfolding monitRound_def pre_def [symmetric] by (rule emits_bind)
qed

lemma anyHealthy_none:
  "anyHealthy E metcd mems tr = (Ret False, t) \<Longrightarrow> x \<in> set mems \<Longrightarrow>
    \<exists>t0 t1 e. EndpointHealth E metcd (mem_IP x) t0 = (Ret (Some e), t1)"
proof (induction mems arbitrary: tr)
  case (Cons y mems)
  from Cons.prems(1) obtain e t1 where e: "EndpointHealth E metcd (mem_IP y) tr = (Ret (Some e), t1)"
    and "anyHealthy E metcd mems t1 = (Ret False, t)"
    by (auto simp: andThen_Ret_iff split: option.splits)
  with Cons.IH Cons.prems(2) show ?case by auto
qed simp

lemma checkMembers_unhealthy:
  assumes "checkMembers E m err0 tr = (Ret (m', False, err), t)"
  shows "err = None \<and> (\<exists>metcd t0 t1. (\<exists>e ms. MemberList E metcd t0 = (Ret (Some e, ms), t1)) \<or>
    (\<exists>mems. MemberList E metcd t0 = (Ret (None, mems), t1) \<and>
      (\<forall>x\<in>set mems. \<exists>t2 t3 e. EndpointHealth E metcd (mem_IP x) t2 = (Ret (Some e), t3))))"
proof -
  from assms obtain cluster where c: "ce_Cluster m = Some cluster" by (auto simp: checkMembers_def split: option.splits)
  define k where "k r = (case r of Inl e \<Rightarrow> ret (m, True, Some (Wrap e ''new etcd''))
     | Inr metcd \<Rightarrow> andThen (MemberList E metcd) (\<lambda>(err, mems). case err of
         Some e \<Rightarrow> ret (m, False, None)
       | None \<Rightarrow> andThen (anyHealthy E metcd mems) (\<lambda>h. ret (m, h, None))))" for r
  from assms c obtain r t0 where "k r t0 = (Ret (m', False, err), t)"
    unfolding checkMembers_def k_def by (auto simp only: option.case andThen_Ret_iff)
  then obtain metcd where "andThen (MemberList E metcd) (\<lambda>(err, mems). case err of
         Some e \<Rightarrow> ret (m, False, None)
       | None \<Rightarrow> andThen (anyHealthy E metcd mems) (\<lambda>h. ret (m, h, None))) t0 = (Ret (m', False, err), t)"
    unfolding k_def by (cases r) auto
  then obtain e mems t1 where ml: "MemberList E metcd t0 = (Ret (e, mems), t1)"
    and k: "(case e of Some e \<Rightarrow> ret (m, False, None)
       | None \<Rightarrow> andThen (anyHealthy E metcd mems) (\<lambda>h. ret (m, h, None))) t1 = (Ret (m', False, err), t)"
    unfolding andThen_Ret_iff by auto
  show ?thesis
  proof (cases e)
    case None
    with k obtain t2 where "anyHealthy E metcd mems t1 = (Ret False, t2)" "err = None" by (auto simp: andThen_Ret_iff)
    with anyHealthy_none [OF this(1)] ml None show ?thesis by blast
  next
    case (Some e')
    with k have "err = None" by simp
    with ml Some show ?thesis by blast
  qed
qed

lemma EndpointHealth_emits: "etcdctl_calls \<subseteq> A \<Longrightarrow> emits A (EndpointHealth E m ip)"
  unfolding EndpointHealth_def by (intro emits_intro) auto

lemma EtcdCheck_emits: "emits (reads \<union> etcdctl_calls \<union> file_calls) (EtcdCheck E m)"
proof -
  let ?A = "reads \<union> etcdctl_calls \<union> file_calls"
  have "emits ?A (anyHealthy E metcd mems)" for metcd mems
    by (induction mems) (auto intro!: emits_intro EndpointHealth_emits)
  then have "emits ?A (checkMembers E m err)" for m err
    unfolding checkMembers_def by (intro emits_intro) auto
  then show ?thesis unfolding EtcdCheck_def Let_def by (intro emits_intro) auto
qed

interpretation etcd_check: monitor_check "etcdCheckOf E accept" "reads \<union> etcdctl_calls \<union> file_calls" for E accept
  by unfold_locales (auto simp: etcdCheckOf_def EtcdCheck_emits intro: emits_intro)

section \<open>Properties\<close>

text \<open>
  The example: an etcd whose client always fails, a clock that moves on a minute with every call, and a
  monitor with the etcd check and one action.
\<close>

definition down_env :: env where
  "down_env = env0\<lparr>e_cluster := (\<lambda>tr ns n. Inr cluster0),
     e_masters := (\<lambda>tr. Inr [master0 ''m1'' ''cn.i-1'' ''10.0.0.1'']),
     e_now := (\<lambda>tr. int (length tr) * Minute),
     e_cmd := (\<lambda>tr as. \<lparr>cmd_Exit = 1, cmd_Error = None, cmd_Stdout = [], cmd_Stderr = []\<rparr>)\<rparr>"

definition watched :: "CheckEtcd Monitor" where
  "watched = WithAction (WithCheck \<lparr>mo_checks = [], mo_actions = [], mo_lastRun = 0\<rparr>
     [(etcdCheckOf down_env (\<lambda>_. True), \<lparr>ce_master = [], ce_Cluster = None\<rparr>)]) [do_call down_env (PRestartECS ''i-1'')]"



text \<open>
  C34: the counter of a check refines its history: it is the number of failures since the last success, and
  the threshold is met exactly when that number exceeds it.
\<close>

theorem ThreshedCheck_counts_failures:
  assumes "history E v vs"
  shows "tc_threshed v = int (consecutive vs) \<and> (ThreshMeet v \<longleftrightarrow> ck_Threshold (tc_check v) < int (consecutive vs)) \<and>
    consecutive vs \<le> length vs"
  using history_counter [OF assms] consecutive_le [of vs] by (simp add: ThreshMeet_def)

theorem ThreshedCheck_counts_failures_witness:
  "\<exists>v vs. history down_env (v :: CheckEtcd ThreshedCheck) vs \<and> tc_threshed v = 1 \<and> int (consecutive vs) = 1"
proof -
  let ?v = "NewThreshedCheck (etcdCheckOf down_env (\<lambda>_. True)) \<lparr>ce_master = [], ce_Cluster = None\<rparr>"
  have "case checkOne down_env ?v [] of (Ret v, t) \<Rightarrow> tc_threshed v = 1 | _ \<Rightarrow> False" by code_simp
  then obtain v t where v: "checkOne down_env ?v [] = (Ret v, t)" "tc_threshed v = 1"
    by (auto split: prod.splits outcome.splits)
  from ThreshedCheck_counts_failures [OF checked [OF fresh v(1)]] checked [OF fresh v(1)] v(2) show ?thesis by auto
qed

text \<open>
  The etcd check reports a failure only when etcd is down: the members could not be listed, or the health
  probe of every listed member failed.
\<close>

lemma EtcdCheck_unhealthy:
  assumes "EtcdCheck E m tr = (Ret (m', False, err), t)"
  shows "err = None \<and> (\<exists>metcd t0 t1. (\<exists>e ms. MemberList E metcd t0 = (Ret (Some e, ms), t1)) \<or>
    (\<exists>mems. MemberList E metcd t0 = (Ret (None, mems), t1) \<and>
      (\<forall>x\<in>set mems. \<exists>t2 t3 e. EndpointHealth E metcd (mem_IP x) t2 = (Ret (Some e), t3))))"
proof -
  define refresh where "refresh spec r = (let m = m\<lparr>ce_Cluster := Some spec\<rparr>;
        m = (case r of Inr (x # xs) \<Rightarrow> m\<lparr>ce_master := x # xs\<rparr> | _ \<Rightarrow> m);
        err = (case r of Inl e \<Rightarrow> Some e | Inr _ \<Rightarrow> None)
      in if ce_master m = [] then ret (m, True, Wrapf err ''no master crd found'')
         else checkMembers E m None)" for spec and r :: "gerr + Master list"
  have refreshed: "\<exists>m1. checkMembers E m1 None t1 = (Ret (m', False, err), t)"
    if "refresh spec r t1 = (Ret (m', False, err), t)" for spec r t1
    using that unfolding refresh_def Let_def by (auto split: if_splits)
  have "EtcdCheck E m = andThen (Cluster_get E ''kubernetes-cluster'') (\<lambda>r. case r of
     Inl e \<Rightarrow> checkMembers E m (Some e) | Inr spec \<Rightarrow> andThen (MasterCRDS E) (refresh spec))"
    unfolding EtcdCheck_def refresh_def Let_def by (rule refl)
  with assms obtain r t1 where "(case r of
     Inl e \<Rightarrow> checkMembers E m (Some e) | Inr spec \<Rightarrow> andThen (MasterCRDS E) (refresh spec)) t1 = (Ret (m', False, err), t)"
    by (auto simp only: andThen_Ret_iff)
  then obtain m1 err0 t1 where "checkMembers E m1 err0 t1 = (Ret (m', False, err), t)"
    by (cases r) (auto simp: andThen_Ret_iff dest: refreshed)
  then show ?thesis by (rule checkMembers_unhealthy)
qed

end
