(* ===== verification/Provider_Context.thy ===== *)
theory Provider_Context
  imports Etcd
begin

text \<open>
  \<^verbatim>\<open>pkg/iaas/provider/provider.go\<close>: the \<^verbatim>\<open>provider.Context\<close> that every cloud operation reads, the
  registry of providers, and how a context is initialised from the command line, from
  \<^verbatim>\<open>~/.wdrip/config\<close> and from the cluster spec, down to \<^verbatim>\<open>(*Devel).Initialize\<close> of
  \<^verbatim>\<open>pkg/iaas/provider/alibaba/ros.go\<close>. What the code asks of the machine it runs on (the home
  directory, files, the YAML and JSON decoders, the constructors of the SDK clients) is the record
  \<open>host\<close>; the locale \<open>quiet_host\<close> bounds its calls.
\<close>

section \<open>Paths\<close>

text \<open>\<^verbatim>\<open>filepath.Clean\<close> and \<^verbatim>\<open>filepath.Join\<close> on Unix; \<open>acc\<close> is the reversed list of the parts kept.\<close>

fun cleanParts :: "bool \<Rightarrow> string list \<Rightarrow> string list \<Rightarrow> string list" where
  "cleanParts rooted acc [] = rev acc"
| "cleanParts rooted acc (p # ps) =
     (if p = [] \<or> p = ''.'' then cleanParts rooted acc ps
      else if p = ''..'' then (case acc of
          a # as \<Rightarrow> if a = ''..'' then cleanParts rooted (p # acc) ps else cleanParts rooted as ps
        | [] \<Rightarrow> if rooted then cleanParts rooted acc ps else cleanParts rooted [p] ps)
      else cleanParts rooted (p # acc) ps)"

definition Clean :: "string \<Rightarrow> string" where
  "Clean p = (if p = [] then ''.''
     else let rooted = (hd p = CHR ''/''); out = join ''/'' (cleanParts rooted [] (split_on p ''/''))
          in if rooted then ''/'' @ out else if out = [] then ''.'' else out)"

definition Join_path :: "string list \<Rightarrow> string" where
  "Join_path elems = (case dropWhile (\<lambda>e. e = []) elems of [] \<Rightarrow> [] | es \<Rightarrow> Clean (join ''/'' es))"

section \<open>The provider and its context\<close>

record AlibabaDev =
  ad_Region :: string
  ad_AccessKeyId :: string
  ad_AccessKeySecret :: string
  ad_BucketName :: string
  ad_TemplateFile :: string

text \<open>
  A provider after \<^verbatim>\<open>Initialize\<close>: its configuration. The SDK clients that the Go struct also holds are
  an argument of the operations that use them.
\<close>

record Devel =
  dv_Cfg :: AlibabaDev

abbreviation "Region n \<equiv> ad_Region (dv_Cfg n)"

text \<open>
  \<^verbatim>\<open>provider.Context\<close> is a \<^verbatim>\<open>sync.Map\<close>. For each key the sources use, \<open>None\<close> means that nothing is
  stored, and \<open>Some None\<close> that a nil pointer or a nil map is.
\<close>

record Context =
  ctx_BootCFG :: "ClusterSpec option option"
  ctx_WdripOptions :: "WdripOptions option option"
  ctx_Stack :: "(string \<times> Value) list option option"
  ctx_Provider :: "Devel option"

definition zeroUnit :: Unit where
  "zeroUnit = \<lparr>unit_Name = [], unit_Version = [], unit_Paras = None\<rparr>"

definition zeroClusterSpec :: ClusterSpec where
  "zeroClusterSpec = \<lparr>cs_Bind = \<lparr>bi_Image = [], bi_Disk = \<lparr>disk_Size = [], disk_Type = []\<rparr>,
       bi_Secret = \<lparr>sec_Type = [], sec_Value = \<lparr>sv_Name = [], sv_Password = []\<rparr>\<rparr>,
       bi_Sysctl = [], bi_Region = [], bi_ZoneId = [], bi_Instance = [], bi_WorkerCount = 0,
       bi_Provider = None, bi_ResourceId = []\<rparr>,
     cs_ClusterID = [], cs_Namespace = [], cs_CloudType = [],
     cs_Network = \<lparr>net_Mode = [], net_PodCIDR = [], net_SVCCIDR = [], net_Domain = [],
       net_NetMask = []\<rparr>,
     cs_Etcd = \<lparr>etcd_Unit = zeroUnit, etcd_Endpoints = [], etcd_InitToken = [],
       etcd_PeerCA = None, etcd_ServerCA = None\<rparr>,
     cs_Runtime = zeroUnit,
     cs_Kubernetes = \<lparr>k8s_Unit = zeroUnit, k8s_KubeadmToken = [], k8s_RootCA = None,
       k8s_FrontProxyCA = None, k8s_SvcAccountCA = None, k8s_ControlRoot = None\<rparr>,
     cs_AddonInitialized = False, cs_Sans = [], cs_Token = [], cs_Registry = [],
     cs_Endpoint = \<lparr>ep_Intranet = [], ep_Internet = []\<rparr>, cs_SilentTime = 0\<rparr>"

definition zeroOptions :: WdripOptions where
  "zeroOptions = \<lparr>wo_Endpoint = [], wo_Role = [], wo_Token = [], wo_Config = [], wo_Bucket = [],
     wo_BootType = [], wo_Resource = [], wo_TargetCount = 0, wo_RecoverFrom = [], wo_ClusterName = [],
     wo_Default = None, wo_Addons = [], wo_ExpectedMasterCnt = 0, wo_RecoverMode = [],
     wo_OperatorCFG = \<lparr>of_MetricsAddr = [], of_EnableLeader = False, of_BindAddr = [], of_Token = [],
       of_MetaConfig = [], of_InitialCount = 0\<rparr>\<rparr>"

definition NewEmptyContext :: Context where
  "NewEmptyContext = \<lparr>ctx_BootCFG = None, ctx_WdripOptions = None, ctx_Stack = None, ctx_Provider = None\<rparr>"

definition NewContextWithCluster :: "ClusterSpec option \<Rightarrow> Context" where
  "NewContextWithCluster spec = NewEmptyContext\<lparr>ctx_BootCFG := Some spec\<rparr>"

definition BootCFG :: "Context \<Rightarrow> ClusterSpec option" where
  "BootCFG n = (case ctx_BootCFG n of None \<Rightarrow> Some zeroClusterSpec | Some v \<Rightarrow> v)"

definition Options :: "Context \<Rightarrow> WdripOptions option" where
  "Options n = (case ctx_WdripOptions n of None \<Rightarrow> Some zeroOptions | Some v \<Rightarrow> v)"

definition Stack :: "Context \<Rightarrow> (string \<times> Value) list option" where
  "Stack n = (case ctx_Stack n of None \<Rightarrow> Some [] | Some v \<Rightarrow> v)"

definition WithStack :: "Context \<Rightarrow> (string \<times> Value) list option \<Rightarrow> Context" where
  "WithStack n stack = n\<lparr>ctx_Stack := Some stack\<rparr>"

text \<open>A missing provider is a nil interface, on which the type assertion panics.\<close>

definition Provider_of :: "Context \<Rightarrow> ('c, Devel) io" where
  "Provider_of n = (case ctx_Provider n of
     None \<Rightarrow> panic ''interface conversion: interface is nil, not provider.Interface''
   | Some p \<Rightarrow> ret p)"

section \<open>The host\<close>

record 'c host =
  h_home :: "('c, gerr + string) io"
  h_whoami :: "('c, CmdStatus) io"
  h_exist :: "string \<Rightarrow> ('c, gerr + bool) io"
  h_read :: "string \<Rightarrow> ('c, gerr + string) io"
  h_yaml_context :: "string \<Rightarrow> ContextCFG \<Rightarrow> ContextCFG \<times> gerr option"
  h_yaml_spec :: "string \<Rightarrow> gerr + ClusterSpec"
  h_decode :: "string \<Rightarrow> gerr + AlibabaDev"
  h_ess_client :: "string \<Rightarrow> string \<Rightarrow> string \<Rightarrow> gerr option"
  h_ecs_client :: "string \<Rightarrow> string \<Rightarrow> string \<Rightarrow> gerr option"

definition HomeDir :: "'c host \<Rightarrow> ('c, gerr + string) io" where
  "HomeDir H = andThen (h_home H) (\<lambda>r. case r of
     Inr home \<Rightarrow> ret (Inr home)
   | Inl e \<Rightarrow> andThen (h_whoami H) (\<lambda>res. case CmdError res of
       Some e \<Rightarrow> ret (Inl (Wrap e ''read home dir by $(pwd ~)''))
     | None \<Rightarrow> (case cmd_Stdout res of
         [] \<Rightarrow> ret (Inr [])
       | who # _ \<Rightarrow> if who = ''root'' then ret (Inr ''/root'') else ret (Inr (''/home/'' @ who)))))"

definition LoadBootCFG :: "'c host \<Rightarrow> string \<Rightarrow> ('c, gerr + ClusterSpec) io" where
  "LoadBootCFG H name =
     (if name = [] then ret (Inl (Errorf ''cluster config file must be specified with --config''))
      else andThen (h_read H name) (\<lambda>r. case r of
        Inl e \<Rightarrow> ret (Inl (Errorf (''read boot config file: '' @ err_msg e)))
      | Inr data \<Rightarrow> (case h_yaml_spec H data of
          Inl e \<Rightarrow> ret (Inl (Errorf (''unmarshal bootcfg: '' @ err_msg e)))
        | Inr spec \<Rightarrow> ret (Inr spec))))"

definition SchemeGroupVersion :: string where
  "SchemeGroupVersion = ''alibabacloud.com/v1''"

text \<open>
  The two sources of a context: the file, whose errors are only logged (a failed read leaves empty
  data to decode, a failed decode leaves what it had filled in), and the provider of the cluster spec,
  which replaces it.
\<close>

definition fileContext :: "'c host \<Rightarrow> string \<Rightarrow> ContextCFG \<Rightarrow> ('c, ContextCFG) io" where
  "fileContext H mfi mctx = andThen (h_exist H mfi) (\<lambda>r. case r of
     Inl e \<Rightarrow> ret mctx
   | Inr exist \<Rightarrow> if exist
       then andThen (h_read H mfi) (\<lambda>r. ret (fst (h_yaml_context H (case r of Inl e \<Rightarrow> [] | Inr d \<Rightarrow> d) mctx)))
       else ret mctx)"

definition specContext :: "ClusterSpec option \<Rightarrow> ContextCFG \<Rightarrow> ContextCFG" where
  "specContext spec mctx = (case spec of
     None \<Rightarrow> mctx
   | Some s \<Rightarrow> (case bi_Provider (cs_Bind s) of
       None \<Rightarrow> mctx
     | Some p \<Rightarrow> mctx\<lparr>
         cc_Contexts := [\<lparr>ci_Name = cs_ClusterID s, ci_Context = Some \<lparr>ck_ProviderKey = ''provider01''\<rparr>\<rparr>],
         cc_Providers := [\<lparr>pi_Name = ''provider01'', pi_Provider = Some p\<rparr>],
         cc_CurrentContext := cs_ClusterID s\<rparr>))"

definition BuildContexCFG :: "'c host \<Rightarrow> ClusterSpec option \<Rightarrow> ('c, ContextCFG) io" where
  "BuildContexCFG H spec = andThen (HomeDir H) (\<lambda>r.
     let cacheDir = Join_path [case r of Inl e \<Rightarrow> [] | Inr home \<Rightarrow> home, ''.wdrip/''];
         mctx = \<lparr>cc_Kind = ''Config'', cc_APIVersion = SchemeGroupVersion, cc_CurrentContext = [],
           cc_Contexts = [], cc_Providers = []\<rparr>
     in andThen (fileContext H (Join_path [cacheDir, ''config'']) mctx) (\<lambda>mctx. ret (specContext spec mctx)))"

section \<open>Initialisation\<close>

text \<open>The registry holds what the package \<^verbatim>\<open>alibaba\<close> registers when it is loaded.\<close>

definition providerName :: string where "providerName = ''alibaba''"

definition GetProvider :: "string \<Rightarrow> ('c, unit) io" where
  "GetProvider key = (if key = providerName then ret ()
     else panic (''provider '' @ key @ '' not supported''))"

definition currentProvider :: "WdripOptions option \<Rightarrow> ('c, Provider option) io" where
  "currentProvider opts = andThen (deref opts) (\<lambda>opts. andThen (deref (wo_Default opts)) (\<lambda>cfg.
     case CurrentPrvdCFG cfg of Ret p \<Rightarrow> ret p | Panic s \<Rightarrow> panic s))"

definition setRegion :: "string \<Rightarrow> Context \<Rightarrow> Context" where
  "setRegion region ctx = (case ctx_BootCFG ctx of
     Some (Some spec) \<Rightarrow> ctx\<lparr>ctx_BootCFG := Some (Some (spec\<lparr>cs_Bind := (cs_Bind spec)\<lparr>bi_Region := region\<rparr>\<rparr>))\<rparr>
   | _ \<Rightarrow> ctx)"

text \<open>
  \<^verbatim>\<open>(*Devel).Initialize\<close>. The region of the cluster spec is not consulted: the assignment meant for it
  reads \<^verbatim>\<open>n.Cfg.Region\<close> a second time.
\<close>

definition newClients :: "'c host \<Rightarrow> string \<Rightarrow> AlibabaDev \<Rightarrow> gerr + Devel" where
  "newClients H region cfg =
     (case h_ess_client H region (ad_AccessKeyId cfg) (ad_AccessKeySecret cfg) of
        Some e \<Rightarrow> Inl (Wrap e ''create ess client'')
      | None \<Rightarrow> (case h_ecs_client H region (ad_AccessKeyId cfg) (ad_AccessKeySecret cfg) of
          Some e \<Rightarrow> Inl (Wrap e ''create ecs client'')
        | None \<Rightarrow> Inr \<lparr>dv_Cfg = cfg\<rparr>))"

definition InitializeDevel :: "'c host \<Rightarrow> Context \<Rightarrow> ('c, Context \<times> (gerr + Devel)) io" where
  "InitializeDevel H ctx = andThen (currentProvider (Options ctx)) (\<lambda>p. andThen (deref p) (\<lambda>p.
     case h_decode H (prvd_Value p) of
       Inl e \<Rightarrow> ret (ctx, Inl (Wrap e ''decode provider message''))
     | Inr cfg \<Rightarrow>
        (let region = ad_Region cfg;
             region = (if region = [] \<and> BootCFG ctx \<noteq> None then ad_Region cfg else region)
         in if region = [] then ret (ctx, Inl (Errorf ''region must be specified by --region or in spec.BindInfra.Region''))
            else let ctx = setRegion region ctx
              in if ad_AccessKeyId cfg = [] \<or> ad_AccessKeySecret cfg = []
                 then ret (ctx, Inl (Errorf ''region| AccessKey | AccessKeySecret''))
                 else ret (ctx, newClients H region cfg))))"

text \<open>
  \<^verbatim>\<open>(*Context).Initialize\<close>. The options are a pointer that the context shares with the caller; the default
  context that is filled in appears in both.
\<close>

definition setDefault :: "'c host \<Rightarrow> Context \<Rightarrow> WdripOptions \<Rightarrow> ('c, WdripOptions) io" where
  "setDefault H n opts = (case wo_Default opts of
     Some _ \<Rightarrow> ret opts
   | None \<Rightarrow> andThen (BuildContexCFG H (BootCFG n)) (\<lambda>cfg. ret (opts\<lparr>wo_Default := Some cfg\<rparr>)))"

definition withProvider :: "ClusterSpec \<Rightarrow> Provider option \<Rightarrow> ClusterSpec" where
  "withProvider spec p = (case bi_Provider (cs_Bind spec) of
     Some _ \<Rightarrow> spec
   | None \<Rightarrow> spec\<lparr>cs_Bind := (cs_Bind spec)\<lparr>bi_Provider := p\<rparr>\<rparr>)"

definition pickProvider :: "'c host \<Rightarrow> Context \<Rightarrow> WdripOptions \<Rightarrow> Provider option \<Rightarrow>
    ('c, gerr + Context \<times> Provider) io" where
  "pickProvider H n opts dprvd =
     (if wo_Config opts \<noteq> []
      then andThen (LoadBootCFG H (wo_Config opts)) (\<lambda>r. case r of
          Inl e \<Rightarrow> ret (Inl (Errorf (''load bootcfg: '' @ err_msg e)))
        | Inr bootcfg \<Rightarrow> (let bootcfg = withProvider bootcfg dprvd
            in andThen (deref (bi_Provider (cs_Bind bootcfg))) (\<lambda>p.
                 ret (Inr (n\<lparr>ctx_BootCFG := Some (Some bootcfg)\<rparr>, p)))))
      else andThen (deref dprvd) (\<lambda>p. ret (Inr (n, p))))"

definition Initialize :: "'c host \<Rightarrow> Context \<Rightarrow> WdripOptions \<Rightarrow> ('c, Context \<times> WdripOptions \<times> gerr option) io" where
  "Initialize H n opts = andThen (setDefault H n opts) (\<lambda>opts.
     let n = n\<lparr>ctx_WdripOptions := Some (Some opts)\<rparr>
     in andThen (currentProvider (Some opts)) (\<lambda>dprvd. andThen (pickProvider H n opts dprvd) (\<lambda>r. case r of
       Inl e \<Rightarrow> ret (n, opts, Some e)
     | Inr (n, p) \<Rightarrow> andThen (GetProvider (prvd_Name p)) (\<lambda>_. andThen (InitializeDevel H n) (\<lambda>(n, r). case r of
         Inl e \<Rightarrow> ret (n, opts, Some (Errorf (''initialize provider: '' @ err_msg e)))
       | Inr pvd \<Rightarrow> ret (n\<lparr>ctx_Provider := Some pvd\<rparr>, opts, None))))))"

definition NewContext :: "'c host \<Rightarrow> WdripOptions \<Rightarrow> ClusterSpec option \<Rightarrow> ('c, Context \<times> WdripOptions \<times> gerr option) io" where
  "NewContext H opts spec =
     Initialize H (NewEmptyContext\<lparr>ctx_BootCFG := Some spec, ctx_WdripOptions := Some (Some opts)\<rparr>) opts"

section \<open>The interface of a host\<close>

text \<open>A host only makes calls of a class \<open>A\<close>; then so does everything built on it.\<close>

locale quiet_host =
  fixes H :: "'c host" and A :: "'c set"
  assumes home: "emits A (h_home H)" and whoami: "emits A (h_whoami H)"
    and exist: "emits A (h_exist H f)" and read: "emits A (h_read H f)"
begin

lemma HomeDir_quiet: "emits A (HomeDir H)"
  unfolding HomeDir_def by (intro emits_intro home whoami)

lemma LoadBootCFG_quiet: "emits A (LoadBootCFG H f)"
  unfolding LoadBootCFG_def by (intro emits_intro read)

lemma fileContext_quiet: "emits A (fileContext H f mctx)"
  unfolding fileContext_def by (intro emits_intro exist read)

lemma BuildContexCFG_quiet: "emits A (BuildContexCFG H spec)"
  unfolding BuildContexCFG_def by (intro emits_intro HomeDir_quiet fileContext_quiet)

lemma deref_quiet: "emits A (deref p)"
  unfolding deref_def by (intro emits_intro)

lemma currentProvider_quiet: "emits A (currentProvider opts)"
  unfolding currentProvider_def by (auto intro!: emits_intro deref_quiet split: outcome.split)

lemma InitializeDevel_quiet: "emits A (InitializeDevel H ctx)"
  unfolding InitializeDevel_def by (intro emits_intro currentProvider_quiet deref_quiet)

lemma Initialize_quiet: "emits A (Initialize H n opts)"
  unfolding Initialize_def setDefault_def pickProvider_def GetProvider_def
  by (intro emits_intro BuildContexCFG_quiet LoadBootCFG_quiet currentProvider_quiet InitializeDevel_quiet deref_quiet)

lemma NewContext_quiet: "emits A (NewContext H opts spec)"
  unfolding NewContext_def by (rule Initialize_quiet)

end

text \<open>The host of the operator's environment; the decoders are parameters.\<close>

record decoders =
  d_yaml_context :: "string \<Rightarrow> ContextCFG \<Rightarrow> ContextCFG \<times> gerr option"
  d_yaml_spec :: "string \<Rightarrow> gerr + ClusterSpec"
  d_decode :: "string \<Rightarrow> gerr + AlibabaDev"
  d_ess_client :: "string \<Rightarrow> string \<Rightarrow> string \<Rightarrow> gerr option"
  d_ecs_client :: "string \<Rightarrow> string \<Rightarrow> string \<Rightarrow> gerr option"

definition envHost :: "env \<Rightarrow> decoders \<Rightarrow> call host" where
  "envHost E D = \<lparr>h_home = perform FHome (e_home E), h_whoami = run_cmd E [''whoami''],
     h_exist = FileExist E, h_read = (\<lambda>f. perform (FReadFile f) (\<lambda>tr. e_read_file E tr f)),
     h_yaml_context = d_yaml_context D, h_yaml_spec = d_yaml_spec D, h_decode = d_decode D,
     h_ess_client = d_ess_client D, h_ecs_client = d_ecs_client D\<rparr>"

interpretation env_host: quiet_host "envHost E D" "reads \<union> {XCmd [''whoami'']}" for E D
  by unfold_locales (auto simp: envHost_def FileExist_def intro!: emits_intro)

section \<open>Concrete data\<close>

definition dev0 :: AlibabaDev where
  "dev0 = \<lparr>ad_Region = ''cn'', ad_AccessKeyId = ''k'', ad_AccessKeySecret = ''s'', ad_BucketName = ''b'',
     ad_TemplateFile = []\<rparr>"

definition provider0 :: Provider where
  "provider0 = \<lparr>prvd_Name = ''alibaba'', prvd_Value = ''{}''\<rparr>"

definition bound0 :: ClusterSpec where
  "bound0 = spec0\<lparr>cs_Bind := (cs_Bind spec0)\<lparr>bi_Provider := Some provider0\<rparr>\<rparr>"

definition decoders0 :: "AlibabaDev \<Rightarrow> decoders" where
  "decoders0 dev = \<lparr>d_yaml_context = (\<lambda>s c. (c, None)), d_yaml_spec = (\<lambda>s. Inr bound0), d_decode = (\<lambda>s. Inr dev),
     d_ess_client = (\<lambda>r k s. None), d_ecs_client = (\<lambda>r k s. None)\<rparr>"

definition contextCFG0 :: ContextCFG where
  "contextCFG0 = specContext (Some bound0) \<lparr>cc_Kind = [], cc_APIVersion = [], cc_CurrentContext = [],
     cc_Contexts = [], cc_Providers = []\<rparr>"

section \<open>Properties\<close>

lemma specContext_current:
  assumes "bi_Provider (cs_Bind spec) = Some p"
  shows "CurrentPrvdCFG (specContext (Some spec) mctx) = Ret (Some p)"
  using assms by (simp add: specContext_def CurrentPrvdCFG_def)

text \<open>
  C38: Whatever the local configuration file says and however reading it fails, the provider that a cluster
  spec names is the current provider of the context built for that spec.
\<close>

theorem BuildContexCFG_prefers_spec:
  assumes "bi_Provider (cs_Bind spec) = Some p" and "BuildContexCFG H (Some spec) tr = (Ret cfg, t)"
  shows "CurrentPrvdCFG cfg = Ret (Some p)"
proof -
  from assms(2) obtain mctx where "cfg = specContext (Some spec) mctx"
    by (auto simp: BuildContexCFG_def Let_def andThen_Ret_iff)
  with specContext_current [OF assms(1)] show ?thesis by simp
qed

theorem BuildContexCFG_prefers_spec_witness:
  "\<exists>cfg t. BuildContexCFG (envHost env0 (decoders0 dev0)) (Some bound0) [] = (Ret cfg, t) \<and>
     CurrentPrvdCFG cfg = Ret (Some provider0)"
proof -
  have "case fst (BuildContexCFG (envHost env0 (decoders0 dev0)) (Some bound0) []) of Ret c \<Rightarrow> True | _ \<Rightarrow> False"
    by code_simp
  then obtain cfg t where run: "BuildContexCFG (envHost env0 (decoders0 dev0)) (Some bound0) [] = (Ret cfg, t)"
    by (cases "BuildContexCFG (envHost env0 (decoders0 dev0)) (Some bound0) []") (auto split: outcome.splits)
  have "bi_Provider (cs_Bind bound0) = Some provider0" by (simp add: bound0_def)
  from BuildContexCFG_prefers_spec [OF this run] run show ?thesis by blast
qed

text \<open>
  A provider configuration without a region is refused, also when the cluster spec has one, although the
  message asks for either of them.
\<close>

lemma InitializeDevel_ignores_spec_region:
  assumes "Options ctx = Some opts" and "wo_Default opts = Some cfg" and "CurrentPrvdCFG cfg = Ret (Some p)"
    and "h_decode H (prvd_Value p) = Inr dev" and "ad_Region dev = []"
  shows "InitializeDevel H ctx tr = (Ret (ctx, Inl (Errorf
     ''region must be specified by --region or in spec.BindInfra.Region'')), tr)"
  using assms by (simp add: InitializeDevel_def currentProvider_def deref_def)

end
