(* ===== verification/Cloud.thy ===== *)
theory Cloud
  imports Provider_Context
begin

text \<open>
  The Alibaba Cloud services as the provider \<^verbatim>\<open>pkg/iaas/provider/alibaba\<close> calls them: the scaling
  service ESS, the instances of ECS and the resource stacks of ROS. The SDK is not part of the
  repository; each request is a call with the fields the sources set, and its answer is a field of
  the record \<open>cloud\<close>, a function of the calls made before. The theory also holds the polls of
  \<^verbatim>\<open>k8s.io/apimachinery\<close> over these calls and the absence of panics they keep.
\<close>

section \<open>Requests\<close>

text \<open>The request for a new scaling group and for a new scaling configuration.\<close>

record GroupRequest =
  gr_RegionId :: string
  gr_ScalingGroupName :: string
  gr_MultiAZPolicy :: string
  gr_VSwitchIds :: "string list"
  gr_MinSize :: int
  gr_MaxSize :: int
  gr_DesiredCapacity :: int

record ConfigRequest =
  cr_RegionId :: string
  cr_ScalingGroupId :: string
  cr_SecurityGroupId :: string
  cr_RamRoleName :: string
  cr_SystemDiskCategory :: string
  cr_SystemDiskSize :: int
  cr_ScalingConfigurationName :: string
  cr_ImageId :: string
  cr_UserData :: string
  cr_Cpu :: int
  cr_Memory :: int
  cr_Tags :: "(string \<times> string) list"
  cr_KeyPairName :: string

text \<open>
  The lists of instance ids that the sources send as JSON text are kept as lists; the tags of a
  configuration are the map that \<^verbatim>\<open>utils.PrettyJson\<close> prints.
\<close>

datatype sys_req = SysSleep int | SysTimer int | SysNow | SysReadFile string | SysRange nat | SysHome
  | SysCmd "string list" | SysExist string

datatype ess_read = DescribeScalingGroups string "string list" string
  | DescribeScalingInstances string string | DescribeScalingActivities string string string
  | DescribeScalingRules string "string list" string
  | DescribeScalingConfigurations string string "string list"

datatype ess_write = ModifyScalingConfiguration string string
  | ModifyScalingRule string string string int
  | CreateScalingRule string string string string int
  | ExecuteScalingRule string | RemoveInstances "string list" string
  | CreateScalingGroup GroupRequest | CreateScalingConfiguration ConfigRequest
  | EnableScalingGroup string string | DeleteScalingGroup string bool string
  | ModifyScalingGroup string int

datatype ecs_read = DescribeInstances string "string list" | DescribeInstanceAttribute string
  | DescribeVSwitches string string | DescribeInvocations string string string string
  | DescribeInvocationResults string string

datatype ecs_change = StopInstance string bool | StartInstance string
  | DeleteInstance string string bool | ModifyInstanceAttribute string string
  | ReplaceDisk string string | AttachKeyPair string string "string list"
  | UntagResources string string "string list" "string list"
  | TagResources string string "string list" "(string \<times> string) list"
  | RunShell string string string "string list"

datatype ros_read = ListStacks string "string list" | GetStack string string
  | ListStackResources string string

datatype ros_write = CreateStack string string string "(string \<times> string) list" | DeleteStack string

datatype ccall = SysR sys_req | EssR ess_read | EssW ess_write | EcsR ecs_read | EcsW ecs_change
  | RosR ros_read | RosW ros_write

text \<open>The requests that change a resource of the cloud.\<close>

fun changes :: "ccall \<Rightarrow> bool" where
  "changes (EssW _) = True"
| "changes (EcsW _) = True"
| "changes (RosW _) = True"
| "changes _ = False"

definition queries :: "ccall set" where
  "queries = {c. \<not> changes c}"

lemma in_queries [simp]: "c \<in> queries \<longleftrightarrow> \<not> changes c"
  by (simp add: queries_def)

section \<open>Answers\<close>

record EssGroup =
  eg_ScalingGroupId :: string
  eg_VpcId :: string

record EssRule =
  er_ScalingRuleId :: string
  er_ScalingRuleName :: string
  er_ScalingGroupId :: string
  er_ScalingRuleAri :: string

record EcsInstance =
  ei_InstanceId :: string
  ei_RegionId :: string
  ei_Status :: string
  ei_ImageId :: string
  ei_KeyPairName :: string
  ei_CreationTime :: string
  ei_PrivateIpAddress :: "string list"
  ei_Tags :: "(string \<times> string) list"

record InvocationResult =
  ir_InvokeRecordStatus :: string
  ir_Output :: string

record Invocation =
  iv_InvokeId :: string
  iv_CommandId :: string
  iv_InvocationStatus :: string
  iv_Results :: "InvocationResult list"

record RosStack =
  rs_StackId :: string
  rs_StackName :: string
  rs_Status :: string
  rs_StatusReason :: string
  rs_Outputs :: "(string \<times> goval) list"

text \<open>
  A request that only answers an error is answered by \<open>c_err\<close>. A listing of scaling activities or of
  virtual switches is represented by the ids and by the zones in it. A count of invocations comes
  separately from the list, as in the SDK.
\<close>

record cloud =
  c_err :: "ccall list \<Rightarrow> ccall \<Rightarrow> gerr option"
  c_ticks :: "ccall list \<Rightarrow> nat"
  c_now :: "ccall list \<Rightarrow> string"
  c_perm :: "ccall list \<Rightarrow> nat \<Rightarrow> nat list"
  c_home :: "ccall list \<Rightarrow> gerr + string"
  c_cmd :: "ccall list \<Rightarrow> string list \<Rightarrow> CmdStatus"
  c_exist :: "ccall list \<Rightarrow> string \<Rightarrow> gerr + bool"
  c_read_file :: "ccall list \<Rightarrow> string \<Rightarrow> gerr + string"
  c_groups :: "ccall list \<Rightarrow> string list \<Rightarrow> string \<Rightarrow> gerr + EssGroup list"
  c_scaling_instances :: "ccall list \<Rightarrow> string \<Rightarrow> gerr + string list"
  c_activities :: "ccall list \<Rightarrow> string \<Rightarrow> string \<Rightarrow> gerr + string list"
  c_rules :: "ccall list \<Rightarrow> string list \<Rightarrow> string \<Rightarrow> gerr + EssRule list"
  c_create_rule :: "ccall list \<Rightarrow> string \<Rightarrow> gerr + EssRule"
  c_configs :: "ccall list \<Rightarrow> string \<Rightarrow> string list \<Rightarrow> gerr + string list"
  c_create_group :: "ccall list \<Rightarrow> GroupRequest \<Rightarrow> gerr + string"
  c_create_config :: "ccall list \<Rightarrow> ConfigRequest \<Rightarrow> gerr + string"
  c_instances :: "ccall list \<Rightarrow> string list \<Rightarrow> gerr + EcsInstance list"
  c_attribute :: "ccall list \<Rightarrow> string \<Rightarrow> gerr + string"
  c_vswitches :: "ccall list \<Rightarrow> string \<Rightarrow> gerr + string list"
  c_invocations :: "ccall list \<Rightarrow> string \<Rightarrow> gerr + (int \<times> Invocation list)"
  c_run :: "ccall list \<Rightarrow> string \<Rightarrow> string list \<Rightarrow> gerr + string"
  c_invocation_results :: "ccall list \<Rightarrow> string \<Rightarrow> string \<Rightarrow> gerr + Invocation"
  c_stacks :: "ccall list \<Rightarrow> string list \<Rightarrow> gerr + RosStack list"
  c_stack :: "ccall list \<Rightarrow> string \<Rightarrow> gerr + RosStack"
  c_stack_resources :: "ccall list \<Rightarrow> string \<Rightarrow> gerr + (string \<times> string) list"
  c_create_stack :: "ccall list \<Rightarrow> string \<Rightarrow> gerr + string"

type_synonym 'a ali = "(ccall, 'a) io"

section \<open>Reading the context\<close>

text \<open>\<^verbatim>\<open>stack[k].Val.(string)\<close>; reading a nil map gives the zero value.\<close>

definition stackString :: "(string \<times> Value) list option \<Rightarrow> string \<Rightarrow> string ali" where
  "stackString stack k = assert_string (stack_val (case stack of None \<Rightarrow> [] | Some m \<Rightarrow> m) k)"

section \<open>Primitive requests\<close>

definition change :: "cloud \<Rightarrow> ccall \<Rightarrow> gerr option ali" where
  "change C c = perform c (\<lambda>tr. c_err C tr c)"

definition sleep :: "int \<Rightarrow> unit ali" where
  "sleep d = perform (SysR (SysSleep d)) (\<lambda>_. ())"

text \<open>\<^verbatim>\<open>for k, v := range m\<close>, in an order the language leaves open.\<close>

definition range_of :: "cloud \<Rightarrow> 'a list \<Rightarrow> 'a list ali" where
  "range_of C xs = perform (SysR (SysRange (length xs))) (\<lambda>tr.
     let p = c_perm C tr (length xs)
     in if sort p = [0..<length xs] then map ((!) xs) p else xs)"

definition poll :: "cloud \<Rightarrow> int \<Rightarrow> (bool \<times> gerr option) ali \<Rightarrow> gerr option ali" where
  "poll C timeout cond = andThen (perform (SysR (SysTimer timeout)) (c_ticks C)) (\<lambda>n. poll_ticks n cond)"

definition pollImmediate :: "cloud \<Rightarrow> int \<Rightarrow> (bool \<times> gerr option) ali \<Rightarrow> gerr option ali" where
  "pollImmediate C timeout cond = andThen cond (\<lambda>(fin, err). case err of
     Some e \<Rightarrow> ret (Some e)
   | None \<Rightarrow> if fin then ret None else poll C timeout cond)"

text \<open>
  A poll whose condition also updates the variables it captures: the state is passed from one try to
  the next and returned with the error.
\<close>

fun pollTicksWith :: "nat \<Rightarrow> 's \<Rightarrow> ('s \<Rightarrow> ('s \<times> bool \<times> gerr option) ali) \<Rightarrow> ('s \<times> gerr option) ali" where
  "pollTicksWith 0 s cond = ret (s, Some ErrWaitTimeout)"
| "pollTicksWith (Suc n) s cond = andThen (cond s) (\<lambda>(s, fin, err). case err of
     Some e \<Rightarrow> ret (s, Some e)
   | None \<Rightarrow> if fin then ret (s, None) else pollTicksWith n s cond)"

definition pollWith :: "cloud \<Rightarrow> int \<Rightarrow> 's \<Rightarrow> ('s \<Rightarrow> ('s \<times> bool \<times> gerr option) ali) \<Rightarrow> ('s \<times> gerr option) ali" where
  "pollWith C timeout s cond =
     andThen (perform (SysR (SysTimer timeout)) (c_ticks C)) (\<lambda>n. pollTicksWith n s cond)"

definition pollImmediateWith ::
    "cloud \<Rightarrow> int \<Rightarrow> 's \<Rightarrow> ('s \<Rightarrow> ('s \<times> bool \<times> gerr option) ali) \<Rightarrow> ('s \<times> gerr option) ali" where
  "pollImmediateWith C timeout s cond = andThen (cond s) (\<lambda>(s, fin, err). case err of
     Some e \<Rightarrow> ret (s, Some e)
   | None \<Rightarrow> if fin then ret (s, None) else pollWith C timeout s cond)"

text \<open>The machine on which the provider runs.\<close>

definition cloudHost :: "cloud \<Rightarrow> decoders \<Rightarrow> ccall host" where
  "cloudHost C D = \<lparr>h_home = perform (SysR SysHome) (c_home C),
     h_whoami = perform (SysR (SysCmd [''whoami''])) (\<lambda>tr. c_cmd C tr [''whoami'']),
     h_exist = (\<lambda>f. perform (SysR (SysExist f)) (\<lambda>tr. c_exist C tr f)),
     h_read = (\<lambda>f. perform (SysR (SysReadFile f)) (\<lambda>tr. c_read_file C tr f)),
     h_yaml_context = d_yaml_context D, h_yaml_spec = d_yaml_spec D, h_decode = d_decode D,
     h_ess_client = d_ess_client D, h_ecs_client = d_ecs_client D\<rparr>"

interpretation cloud_host: quiet_host "cloudHost C D" queries for C D
  by unfold_locales (auto simp: cloudHost_def intro!: emits_intro)

section \<open>A concrete cloud\<close>

text \<open>
  A cloud for evaluating the definitions on examples: every change succeeds, one group \<open>g-1\<close> in the
  network \<open>vpc-1\<close> with one rule and no instances, every instance is stopped, no activity is in progress.
\<close>

definition group0 :: EssGroup where
  "group0 = \<lparr>eg_ScalingGroupId = ''g-1'', eg_VpcId = ''vpc-1''\<rparr>"

definition rule0 :: EssRule where
  "rule0 = \<lparr>er_ScalingRuleId = ''r-1'', er_ScalingRuleName = ''NodeScale'', er_ScalingGroupId = ''g-1'',
     er_ScalingRuleAri = ''ari:r-1''\<rparr>"

definition ecs0 :: "string \<Rightarrow> EcsInstance" where
  "ecs0 ident = \<lparr>ei_InstanceId = ident, ei_RegionId = ''cn'', ei_Status = ''Stopped'', ei_ImageId = ''img-1'',
     ei_KeyPairName = [], ei_CreationTime = ''2021-01-01T00:00Z'', ei_PrivateIpAddress = [''10.0.0.1''],
     ei_Tags = []\<rparr>"

definition invocation0 :: Invocation where
  "invocation0 = \<lparr>iv_InvokeId = ''t-1'', iv_CommandId = ''c-1'', iv_InvocationStatus = ''Finished'',
     iv_Results = [\<lparr>ir_InvokeRecordStatus = ''Finished'', ir_Output = []\<rparr>]\<rparr>"

definition rosStack0 :: RosStack where
  "rosStack0 = \<lparr>rs_StackId = ''stack-1'', rs_StackName = ''c1'', rs_Status = ''CREATE_COMPLETE'',
     rs_StatusReason = [], rs_Outputs = []\<rparr>"

definition cloud0 :: cloud where
  "cloud0 = \<lparr>c_err = (\<lambda>tr c. None), c_ticks = (\<lambda>tr. 3), c_now = (\<lambda>tr. ''2021-01-01T00:00:00''),
     c_perm = (\<lambda>tr n. [0..<n]), c_home = (\<lambda>tr. Inr ''/root''),
     c_cmd = (\<lambda>tr as. \<lparr>cmd_Exit = 0, cmd_Error = None, cmd_Stdout = [], cmd_Stderr = []\<rparr>),
     c_exist = (\<lambda>tr f. Inr False), c_read_file = (\<lambda>tr f. Inl not_found),
     c_groups = (\<lambda>tr ids nm. Inr [group0]), c_scaling_instances = (\<lambda>tr g. Inr []),
     c_activities = (\<lambda>tr g s. Inr []), c_rules = (\<lambda>tr ids g. Inr [rule0]),
     c_create_rule = (\<lambda>tr g. Inr rule0), c_configs = (\<lambda>tr g ns. Inr []),
     c_create_group = (\<lambda>tr r. Inr ''g-1''), c_create_config = (\<lambda>tr r. Inr ''cfg-1''),
     c_instances = (\<lambda>tr ids. Inr (map ecs0 ids)), c_attribute = (\<lambda>tr i. Inr ''Stopped''),
     c_vswitches = (\<lambda>tr v. Inr [''zone-a'']), c_invocations = (\<lambda>tr i. Inr (0, [])),
     c_run = (\<lambda>tr cmd ids. Inr ''t-1''), c_invocation_results = (\<lambda>tr i k. Inr invocation0),
     c_stacks = (\<lambda>tr ns. Inr [rosStack0]), c_stack = (\<lambda>tr i. Inr rosStack0),
     c_stack_resources = (\<lambda>tr i. Inr [(''k8s_vpc'', ''vpc-1''), (''k8s_master_sg'', ''g-1''),
       (''k8s_master_srule'', ''r-1''), (''k8s_master_sconfig'', ''cfg-1''), (''k8s_vswitch'', ''vsw-1''),
       (''k8s_sg'', ''sg-1'')]),
     c_create_stack = (\<lambda>tr n. Inr ''stack-1'')\<rparr>"

definition devel0 :: Devel where
  "devel0 = \<lparr>dv_Cfg = dev0\<rparr>"

definition stackOf :: "(string \<times> string) list \<Rightarrow> (string \<times> Value) list" where
  "stackOf kvs = map (\<lambda>(k, v). (k, \<lparr>val_Key = k, val_Val = VStr v\<rparr>)) kvs"

definition context0 :: Context where
  "context0 = \<lparr>ctx_BootCFG = Some (Some spec0), ctx_WdripOptions = Some (Some zeroOptions),
     ctx_Stack = Some (Some (stackOf [(''k8s_vpc'', ''vpc-1''), (''k8s_master_sg'', ''g-1''),
       (''k8s_master_srule'', ''r-1''), (''k8s_master_sconfig'', ''cfg-1''), (''k8s_vswitch'', ''vsw-1''),
       (''k8s_sg'', ''sg-1'')])), ctx_Provider = Some devel0\<rparr>"

section \<open>Lemmas\<close>

lemma emits_change [emits_intro]: "c \<in> A \<Longrightarrow> emits A (change C c)"
  by (simp add: change_def emits_perform)

lemma emits_sleep [emits_intro]: "SysR (SysSleep d) \<in> A \<Longrightarrow> emits A (sleep d)"
  by (simp add: sleep_def emits_perform)

lemma emits_range_of [emits_intro]: "SysR (SysRange (length xs)) \<in> A \<Longrightarrow> emits A (range_of C xs)"
  by (simp add: range_of_def emits_perform)

lemma emits_stackString [emits_intro]: "emits A (stackString stack k)"
  unfolding stackString_def by (rule assert_string_emits)

lemma emits_poll [emits_intro]: "SysR (SysTimer d) \<in> A \<Longrightarrow> emits A cond \<Longrightarrow> emits A (poll C d cond)"
  unfolding poll_def by (intro emits_intro emits_poll_ticks)

lemma emits_pollImmediate [emits_intro]:
  "SysR (SysTimer d) \<in> A \<Longrightarrow> emits A cond \<Longrightarrow> emits A (pollImmediate C d cond)"
  unfolding pollImmediate_def by (intro emits_intro)

lemma emits_pollTicksWith: "(\<And>s. emits A (cond s)) \<Longrightarrow> emits A (pollTicksWith n s cond)"
  by (induction n arbitrary: s) (auto intro!: emits_intro)

lemma emits_pollWith [emits_intro]:
  "SysR (SysTimer d) \<in> A \<Longrightarrow> (\<And>s. emits A (cond s)) \<Longrightarrow> emits A (pollWith C d s cond)"
  unfolding pollWith_def by (intro emits_intro emits_pollTicksWith)

lemma emits_pollImmediateWith [emits_intro]:
  "SysR (SysTimer d) \<in> A \<Longrightarrow> (\<And>s. emits A (cond s)) \<Longrightarrow> emits A (pollImmediateWith C d s cond)"
  unfolding pollImmediateWith_def by (intro emits_intro)

text \<open>A poll that succeeds ends with a successful try of its condition.\<close>

lemma pollImmediate_done:
  assumes "pollImmediate C d cond tr = (Ret None, tr')" and "emits A cond"
  shows "\<exists>t. prefix tr t \<and> cond t = (Ret (True, None), tr')"
proof -
  from assms(1) obtain fin err t where c: "cond tr = (Ret (fin, err), t)"
    and k: "(case err of Some e \<Rightarrow> ret (Some e)
              | None \<Rightarrow> if fin then ret None else poll C d cond) t = (Ret None, tr')"
    by (auto simp: pollImmediate_def andThen_Ret_iff)
  show ?thesis
  proof (cases "err = None \<and> fin")
    case True
    with c k show ?thesis by auto
  next
    case False
    with k have "poll_ticks (c_ticks C t) cond (t @ [SysR (SysTimer d)]) = (Ret None, tr')"
      by (auto simp: poll_def run_simps split: option.splits if_splits)
    from poll_ticks_done [OF this assms(2)] c assms(2) show ?thesis
      by (meson emits_prefix prefix_order.trans prefixI)
  qed
qed

text \<open>
  A poll with captured state that succeeds ends with a successful try, from a state with every property
  that holds at the start and that unsuccessful tries keep.
\<close>

lemma pollTicksWith_done:
  assumes "pollTicksWith n s cond tr = (Ret (s', None), tr')" and "\<And>s. emits A (cond s)" and "I s"
    and "\<forall>s tr s' t. I s \<longrightarrow> cond s tr = (Ret (s', False, None), t) \<longrightarrow> I s'"
  shows "\<exists>u t. I u \<and> prefix tr t \<and> cond u t = (Ret (s', True, None), tr')"
  using assms(1,3)
proof (induction n arbitrary: s tr)
  case 0
  then show ?case by simp
next
  case (Suc n)
  from Suc.prems(1) obtain s1 fin e1 t1 where c: "cond s tr = (Ret (s1, fin, e1), t1)"
    and k: "(case e1 of Some e \<Rightarrow> ret (s1, Some e)
              | None \<Rightarrow> if fin then ret (s1, None) else pollTicksWith n s1 cond) t1 = (Ret (s', None), tr')"
    by (auto simp: andThen_Ret_iff)
  from c assms(2) have pre: "prefix tr t1" by (auto dest: emits_prefix)
  show ?case
  proof (cases "e1 = None \<and> fin")
    case True
    with c k Suc.prems(2) show ?thesis by auto
  next
    case False
    with k have "e1 = None" "\<not> fin" and rest: "pollTicksWith n s1 cond t1 = (Ret (s', None), tr')"
      by (auto split: option.splits if_splits)
    with c have "cond s tr = (Ret (s1, False, None), t1)" by simp
    with Suc.prems(2) have "I s1" using assms(4) by blast
    from Suc.IH [OF rest this] pre show ?thesis by (meson prefix_order.trans)
  qed
qed

lemma pollImmediateWith_done:
  assumes "pollImmediateWith C d s cond tr = (Ret (s', None), tr')" and "\<And>s. emits A (cond s)" and "I s"
    and "\<forall>s tr s' t. I s \<longrightarrow> cond s tr = (Ret (s', False, None), t) \<longrightarrow> I s'"
  shows "\<exists>u t. I u \<and> prefix tr t \<and> cond u t = (Ret (s', True, None), tr')"
proof -
  from assms(1) obtain s1 fin err t where c: "cond s tr = (Ret (s1, fin, err), t)"
    and k: "(case err of Some e \<Rightarrow> ret (s1, Some e)
              | None \<Rightarrow> if fin then ret (s1, None) else pollWith C d s1 cond) t = (Ret (s', None), tr')"
    by (auto simp: pollImmediateWith_def andThen_Ret_iff)
  show ?thesis
  proof (cases "err = None \<and> fin")
    case True
    with c k assms(3) show ?thesis by auto
  next
    case False
    with k have "err = None" "\<not> fin"
      and rest: "pollTicksWith (c_ticks C t) s1 cond (t @ [SysR (SysTimer d)]) = (Ret (s', None), tr')"
      by (auto simp: pollWith_def run_simps split: option.splits if_splits)
    with c have "cond s tr = (Ret (s1, False, None), t)" by simp
    with assms(3) have "I s1" using assms(4) by blast
    from pollTicksWith_done [where I = I, OF rest assms(2) this assms(4)] obtain u v where
      v: "I u" "prefix (t @ [SysR (SysTimer d)]) v" "cond u v = (Ret (s', True, None), tr')" by blast
    from assms(2) c have "prefix tr t" by (rule emits_prefix)
    with v(2) have "prefix tr v" by (meson append_prefixD prefix_order.trans)
    with v show ?thesis by blast
  qed
qed

text \<open>Polls do not panic when their condition does not.\<close>

lemma no_panic_change [no_panic_intro]: "no_panic (change C c)"
  unfolding change_def by (intro no_panic_intro)

lemma no_panic_sleep [no_panic_intro]: "no_panic (sleep d)"
  unfolding sleep_def by (intro no_panic_intro)

lemma no_panic_poll_ticks: "no_panic cond \<Longrightarrow> no_panic (poll_ticks n cond)"
  by (induction n) (auto intro!: no_panic_intro)

lemma no_panic_pollImmediate [no_panic_intro]: "no_panic cond \<Longrightarrow> no_panic (pollImmediate C d cond)"
  unfolding pollImmediate_def poll_def by (intro no_panic_intro no_panic_poll_ticks)

lemma no_panic_pollTicksWith: "(\<And>s. no_panic (cond s)) \<Longrightarrow> no_panic (pollTicksWith n s cond)"
  by (induction n arbitrary: s) (auto intro!: no_panic_intro)

lemma no_panic_pollImmediateWith [no_panic_intro]:
  "(\<And>s. no_panic (cond s)) \<Longrightarrow> no_panic (pollImmediateWith C d s cond)"
  unfolding pollImmediateWith_def pollWith_def by (intro no_panic_intro no_panic_pollTicksWith)

end
