(* ===== verification/Base64.thy ===== *)
theory Base64
  imports Go_Prelude
begin

text \<open>
  \<^verbatim>\<open>base64.StdEncoding\<close> of the Go standard library on byte strings: \<^verbatim>\<open>EncodeToString\<close> and
  \<^verbatim>\<open>DecodeString\<close>, which skips line breaks and does not look at the unused bits of a padded group.
  The error of a malformed input is kept without the offset it reports.
\<close>

section \<open>The alphabet\<close>

definition sextet :: "nat \<Rightarrow> char" where
  "sextet n = char_of (if n < 26 then 65 + n else if n < 52 then 71 + n else if n < 62 then n - 4
     else if n = 62 then 43 else 47 :: nat)"

definition unsextet :: "char \<Rightarrow> nat option" where
  "unsextet c = (let n = of_char c :: nat in
     if 65 \<le> n \<and> n \<le> 90 then Some (n - 65) else if 97 \<le> n \<and> n \<le> 122 then Some (n - 71)
     else if 48 \<le> n \<and> n \<le> 57 then Some (n + 4) else if n = 43 then Some 62
     else if n = 47 then Some 63 else None)"

abbreviation byte :: "char \<Rightarrow> nat" where
  "byte c \<equiv> of_char c"

section \<open>Encoding and decoding\<close>

fun EncodeToString :: "string \<Rightarrow> string" where
  "EncodeToString [] = []"
| "EncodeToString [a] = [sextet (byte a div 4), sextet (byte a mod 4 * 16), CHR ''='', CHR ''='']"
| "EncodeToString [a, b] = [sextet (byte a div 4), sextet (byte a mod 4 * 16 + byte b div 16),
     sextet (byte b mod 16 * 4), CHR ''='']"
| "EncodeToString (a # b # c # s) = sextet (byte a div 4) # sextet (byte a mod 4 * 16 + byte b div 16) #
     sextet (byte b mod 16 * 4 + byte c div 64) # sextet (byte c mod 64) # EncodeToString s"

definition first_byte :: "nat \<Rightarrow> nat \<Rightarrow> char" where
  "first_byte w x = char_of (w * 4 + x div 16)"

definition second_byte :: "nat \<Rightarrow> nat \<Rightarrow> char" where
  "second_byte x y = char_of (x mod 16 * 16 + y div 4)"

definition third_byte :: "nat \<Rightarrow> nat \<Rightarrow> char" where
  "third_byte y z = char_of (y mod 4 * 64 + z)"

text \<open>One group of four characters; the padded ones end the input.\<close>

fun decode_groups :: "string \<Rightarrow> string option" where
  "decode_groups [] = Some []"
| "decode_groups (p # q # r # t # s) = (case (unsextet p, unsextet q) of
     (Some w, Some x) \<Rightarrow>
       (if r = CHR ''='' then (if t = CHR ''='' \<and> s = [] then Some [first_byte w x] else None)
        else (case unsextet r of
          None \<Rightarrow> None
        | Some y \<Rightarrow> if t = CHR ''='' then (if s = [] then Some [first_byte w x, second_byte x y] else None)
            else (case unsextet t of
              None \<Rightarrow> None
            | Some z \<Rightarrow> map_option (\<lambda>rest. first_byte w x # second_byte x y # third_byte y z # rest)
                (decode_groups s))))
   | _ \<Rightarrow> None)"
| "decode_groups _ = None"

definition DecodeString :: "string \<Rightarrow> gerr + string" where
  "DecodeString s = (case decode_groups (filter (\<lambda>c. c \<noteq> CHR 0x0A \<and> c \<noteq> CHR 0x0D) s) of
     None \<Rightarrow> Inl (Errorf ''illegal base64 data'')
   | Some d \<Rightarrow> Inr d)"

section \<open>Decoding inverts encoding\<close>

lemma byte_sextet: "n < 64 \<Longrightarrow> byte (sextet n) = (if n < 26 then 65 + n else if n < 52 then 71 + n
     else if n < 62 then n - 4 else if n = 62 then 43 else 47)"
  by (simp add: sextet_def)

lemma unsextet_sextet [simp]: "n < 64 \<Longrightarrow> unsextet (sextet n) = Some n"
  by (auto simp: unsextet_def byte_sextet Let_def)

lemma sextet_neq: "n < 64 \<Longrightarrow> byte c \<in> {10, 13, 61} \<Longrightarrow> sextet n \<noteq> c"
  using byte_sextet [of n] by (auto split: if_splits)

lemma sextet_plain [simp]: "n < 64 \<Longrightarrow> sextet n \<noteq> CHR ''=''" "n < 64 \<Longrightarrow> sextet n \<noteq> CHR 0x0A"
  "n < 64 \<Longrightarrow> sextet n \<noteq> CHR 0x0D"
  by (rule sextet_neq; simp)+

text \<open>Splitting three bytes into four groups of six bits and back.\<close>

lemma byte_bound [simp]: "byte a < 256"
  using of_char_mod_256 [of a, where ?'a = nat] by (metis mod_less_divisor zero_less_numeral)

lemma byte_parts: "byte a div 4 < 64" "byte a div 16 < 16" "byte a div 64 < 4" "byte a mod 4 < 4"
  "byte a mod 16 < 16" "byte a mod 64 < 64"
  using byte_bound [of a] by (simp_all add: less_mult_imp_div_less)

lemma sextet_bounds [simp]:
  "byte a div 4 < 64" "byte a mod 4 * 16 + byte b div 16 < 64" "byte b mod 16 * 4 + byte c div 64 < 64"
  "byte a mod 4 * 16 < 64" "byte b mod 16 * 4 < 64" "byte c mod 64 < 64"
  using byte_parts [of a] byte_parts [of b] byte_parts [of c] by linarith+

lemma high_low: "y < k \<Longrightarrow> (x * k + y) div k = x" "y < k \<Longrightarrow> (x * k + y) mod k = (y :: nat)"
  by simp_all

lemma first_byte_inv [simp]:
  "first_byte (byte a div 4) (byte a mod 4 * 16 + byte b div 16) = a"
  "first_byte (byte a div 4) (byte a mod 4 * 16) = a"
  by (simp_all only: first_byte_def high_low byte_parts div_mult_mod_eq char_of_char) simp

lemma second_byte_inv [simp]:
  "second_byte (byte a mod 4 * 16 + byte b div 16) (byte b mod 16 * 4 + byte c div 64) = b"
  "second_byte (byte a mod 4 * 16 + byte b div 16) (byte b mod 16 * 4) = b"
  by (simp_all only: second_byte_def high_low byte_parts div_mult_mod_eq char_of_char) simp

lemma third_byte_inv [simp]: "third_byte (byte b mod 16 * 4 + byte c div 64) (byte c mod 64) = c"
  by (simp only: third_byte_def high_low byte_parts div_mult_mod_eq char_of_char)

lemma filter_encoded: "filter (\<lambda>c. c \<noteq> CHR 0x0A \<and> c \<noteq> CHR 0x0D) (EncodeToString s) = EncodeToString s"
  by (induction s rule: EncodeToString.induct) simp_all

lemma decode_encoded: "decode_groups (EncodeToString s) = Some s"
  by (induction s rule: EncodeToString.induct) simp_all

lemma DecodeString_EncodeToString: "DecodeString (EncodeToString s) = Inr s"
  by (simp add: DecodeString_def filter_encoded decode_encoded)

end
