(* ===== verification/Scaling.thy ===== *)
theory Scaling
  imports Cloud Etcd Base64
begin

text \<open>
  \<^verbatim>\<open>pkg/iaas/provider/alibaba/scaling.go\<close> and \<^verbatim>\<open>instance.go\<close>: the scaling groups and the instances
  behind them. Scaling waits until no activity is in progress, sets a rule, executes it and waits
  again; the disk of an instance is replaced while the instance is stopped.
\<close>

section \<open>Scaling groups\<close>

record Option =
  opt_Action :: string
  opt_Value :: Value

record ScaleGroupDetail =
  sd_GroupId :: string
  sd_Instances :: "(string \<times> Instance) list"

definition ActionUserData :: string where "ActionUserData = ''UserData''"

fun modifyConfig :: "cloud \<Rightarrow> string \<Rightarrow> Option list \<Rightarrow> gerr option ali" where
  "modifyConfig C ident [] = panic ''implement me''"
| "modifyConfig C ident (opt # opts) =
     (let action = (if opt_Action opt \<noteq> [] then opt_Action opt else ActionUserData)
      in if action = ''UserData''
         then andThen (assert_string (val_Val (opt_Value opt))) (\<lambda>data.
           change C (EssW (ModifyScalingConfiguration ident data)))
         else modifyConfig C ident opts)"

definition ModifyScalingConfig :: "cloud \<Rightarrow> Context \<Rightarrow> string \<Rightarrow> Option list \<Rightarrow> gerr option ali" where
  "ModifyScalingConfig C ctx gid opts =
     andThen (stackString (Stack ctx) ''k8s_master_sconfig'') (\<lambda>ident. modifyConfig C ident opts)"

text \<open>ECS reports a creation time without seconds.\<close>

definition normalize :: "string \<Rightarrow> string" where
  "normalize t = replace_all t ''Z'' '':30Z''"

definition tagValues :: "(string \<times> string) list \<Rightarrow> Value list" where
  "tagValues tags = map (\<lambda>(k, v). \<lparr>val_Key = k, val_Val = VStr v\<rparr>) tags"

text \<open>The \<^verbatim>\<open>provider.Instance\<close> that the listings build from an answer of ECS.\<close>

definition instanceOf :: "string \<Rightarrow> Value list \<Rightarrow> EcsInstance \<Rightarrow> Instance" where
  "instanceOf region tags i = \<lparr>ins_Region = region, ins_Id = ei_InstanceId i,
     ins_Ip = join '','' (ei_PrivateIpAddress i), ins_Tags = tags,
     ins_CreatedAt = normalize (ei_CreationTime i), ins_UpdatedAt = [], ins_Status = ei_Status i\<rparr>"

definition addInstance :: "string \<Rightarrow> EcsInstance \<Rightarrow> ScaleGroupDetail \<Rightarrow> ScaleGroupDetail" where
  "addInstance region i d = d\<lparr>sd_Instances := put (sd_Instances d) (ei_InstanceId i)
     (instanceOf region (tagValues (ei_Tags i)) i)\<rparr>"

definition groupInstances :: "cloud \<Rightarrow> Devel \<Rightarrow> ScaleGroupDetail \<Rightarrow> (ScaleGroupDetail \<times> gerr option) ali" where
  "groupInstances C n d = andThen (perform (EssR (DescribeScalingInstances (Region n) (sd_GroupId d)))
       (\<lambda>tr. c_scaling_instances C tr (sd_GroupId d))) (\<lambda>r. case r of
     Inl e \<Rightarrow> ret (d, Some e)
   | Inr mins \<Rightarrow> if mins = [] then ret (d, None)
       else andThen (perform (EcsR (DescribeInstances (Region n) mins)) (\<lambda>tr. c_instances C tr mins)) (\<lambda>r. case r of
         Inl e \<Rightarrow> ret (d, Some (Errorf (''instance detail call: '' @ err_msg e)))
       | Inr is \<Rightarrow> ret (fold (addInstance (Region n)) is d, None)))"

definition ScalingGroupNotFound :: "string \<Rightarrow> gerr" where
  "ScalingGroupNotFound gid = Errorf (''sgroupid ['' @ gid @ ''] not found[ScalingGroupNotFound]'')"

definition InvalidVPC :: gerr where
  "InvalidVPC = Errorf ''InvalidVPC''"

definition groupDetail :: "cloud \<Rightarrow> Devel \<Rightarrow> string \<Rightarrow> string \<Rightarrow> string \<Rightarrow> (ScaleGroupDetail \<times> gerr option) ali" where
  "groupDetail C n vpcid action gid = (let d = \<lparr>sd_GroupId = gid, sd_Instances = []\<rparr> in
     andThen (perform (EssR (DescribeScalingGroups (Region n) [gid] [])) (\<lambda>tr. c_groups C tr [gid] [])) (\<lambda>r. case r of
       Inl e \<Rightarrow> ret (d, Some (Wrap e ''ess api:''))
     | Inr [] \<Rightarrow> ret (d, Some (ScalingGroupNotFound gid))
     | Inr (g # gs) \<Rightarrow> if eg_VpcId g \<noteq> vpcid then ret (d, Some InvalidVPC)
         else if action = ActionInstanceIDS then groupInstances C n d
         else ret (d, Some (Errorf (''[ScalingGroupDetail] unknown action: '' @ action)))))"

definition GroupDetail :: "cloud \<Rightarrow> Devel \<Rightarrow> Context \<Rightarrow> string \<Rightarrow> Option \<Rightarrow> (ScaleGroupDetail \<times> gerr option) ali" where
  "GroupDetail C n ctx gid opt = (case Stack ctx of
     None \<Rightarrow> ret (\<lparr>sd_GroupId = [], sd_Instances = []\<rparr>, Some (Errorf ''stack context must be exist''))
   | Some stack \<Rightarrow> andThen (stackString (Some stack) ''k8s_vpc'') (\<lambda>vpcid.
       let action = (if opt_Action opt \<noteq> [] then opt_Action opt else ActionInstanceIDS)
       in if gid = [] then andThen (stackString (Some stack) ''k8s_master_sg'') (groupDetail C n vpcid action)
          else groupDetail C n vpcid action gid))"

section \<open>Scaling\<close>

definition activityDone :: "cloud \<Rightarrow> string \<Rightarrow> string \<Rightarrow> (bool \<times> gerr option) ali" where
  "activityDone C ident region = andThen (perform (EssR (DescribeScalingActivities region ident ''InProgress''))
       (\<lambda>tr. c_activities C tr ident ''InProgress'')) (\<lambda>r. case r of
     Inl e \<Rightarrow> ret (False, None)
   | Inr activities \<Rightarrow> if length activities \<noteq> 0 then ret (False, None) else ret (True, None))"

definition WaitActivity :: "cloud \<Rightarrow> string \<Rightarrow> string \<Rightarrow> gerr option ali" where
  "WaitActivity C ident region = pollImmediate C (4 * Minute) (activityDone C ident region)"

text \<open>The common middle of both scaling functions: wait, execute the rule, decide on its error, wait again.\<close>

definition waitEnable :: "cloud \<Rightarrow> string \<Rightarrow> string \<Rightarrow> gerr option ali \<Rightarrow> gerr option ali" where
  "waitEnable C sgid region next = andThen (WaitActivity C sgid region) (\<lambda>err. case err of
     Some e \<Rightarrow> ret (Some (Errorf (''wait for activity enable: '' @ sgid)))
   | None \<Rightarrow> next)"

definition executeMaster :: "cloud \<Rightarrow> string \<Rightarrow> string \<Rightarrow> string \<Rightarrow> gerr option ali" where
  "executeMaster C sgid region ari = andThen (change C (EssW (ExecuteScalingRule ari))) (\<lambda>err. case err of
     Some e \<Rightarrow> if \<not> contains (err_msg e) ''IncorrectCapacity.NoChange''
       then ret (Some (Errorf (''execute scaling rule failed: '' @ err_msg e)))
       else WaitActivity C sgid region
   | None \<Rightarrow> WaitActivity C sgid region)"

definition setRule :: "cloud \<Rightarrow> string \<Rightarrow> string \<Rightarrow> int \<Rightarrow> gerr option ali \<Rightarrow> gerr option ali" where
  "setRule C region srid desired next =
     andThen (change C (EssW (ModifyScalingRule region srid ''TotalCapacity'' desired))) (\<lambda>err. case err of
       Some e \<Rightarrow> ret (Some (Errorf (''set scaling rule to '' @ itoa desired @ '' fail: '' @ err_msg e)))
     | None \<Rightarrow> next)"

definition findRule :: "cloud \<Rightarrow> string \<Rightarrow> string \<Rightarrow> (EssRule \<Rightarrow> gerr option ali) \<Rightarrow> gerr option ali" where
  "findRule C region srid next =
     andThen (perform (EssR (DescribeScalingRules region [srid] [])) (\<lambda>tr. c_rules C tr [srid] [])) (\<lambda>r. case r of
       Inl e \<Rightarrow> ret (Some (Errorf (''find scaling rule detail: '' @ err_msg e)))
     | Inr [rule] \<Rightarrow> next rule
     | Inr rules \<Rightarrow> ret (Some (Errorf (''multiple scaling rule found: '' @ itoa (int (length rules)) @
         '' by id '' @ srid))))"

definition ScaleMasterGroup :: "cloud \<Rightarrow> Devel \<Rightarrow> Context \<Rightarrow> string \<Rightarrow> int \<Rightarrow> gerr option ali" where
  "ScaleMasterGroup C n ctx gid desired =
     andThen (stackString (Stack ctx) ''k8s_master_sg'') (\<lambda>sgid.
     andThen (stackString (Stack ctx) ''k8s_master_srule'') (\<lambda>srid.
     setRule C (Region n) srid desired
       (findRule C (Region n) srid (\<lambda>rule.
         waitEnable C sgid (Region n) (executeMaster C sgid (Region n) (er_ScalingRuleAri rule))))))"

text \<open>
  \<^verbatim>\<open>ScaleNodeGroup\<close> looks for the rule \<open>NodeScale\<close> and creates it when it is missing; the rule it executes
  is the first of the listing it started from.
\<close>

definition executeFirst :: "cloud \<Rightarrow> string \<Rightarrow> string \<Rightarrow> EssRule list \<Rightarrow> gerr option ali" where
  "executeFirst C sgid region rules = (case rules of
     [] \<Rightarrow> panic out_of_range
   | rule # _ \<Rightarrow> andThen (change C (EssW (ExecuteScalingRule (er_ScalingRuleAri rule)))) (\<lambda>err. case err of
       Some e \<Rightarrow> ret (Some (Errorf (''execute node scaling rule failed: '' @ err_msg e)))
     | None \<Rightarrow> WaitActivity C sgid region))"

definition createRule :: "cloud \<Rightarrow> string \<Rightarrow> string \<Rightarrow> int \<Rightarrow> gerr option ali \<Rightarrow> gerr option ali" where
  "createRule C region gid desired next =
     andThen (perform (EssW (CreateScalingRule region gid ''NodeScale'' ''TotalCapacity'' desired))
       (\<lambda>tr. c_create_rule C tr gid)) (\<lambda>r. case r of
       Inl e \<Rightarrow> ret (Some (Errorf (''create scaling rule [NodeScale] error: '' @ err_msg e)))
     | Inr rule \<Rightarrow> next)"

definition nodeRule :: "string \<Rightarrow> EssRule \<Rightarrow> bool" where
  "nodeRule gid r \<longleftrightarrow> er_ScalingGroupId r = gid \<and> er_ScalingRuleName r = ''NodeScale''"

definition ScaleNodeGroup :: "cloud \<Rightarrow> Devel \<Rightarrow> Context \<Rightarrow> string \<Rightarrow> int \<Rightarrow> gerr option ali" where
  "ScaleNodeGroup C n ctx gid desired =
     andThen (perform (EssR (DescribeScalingRules (Region n) [] gid)) (\<lambda>tr. c_rules C tr [] gid)) (\<lambda>r. case r of
       Inl e \<Rightarrow> ret (Some (Errorf (''find node scaling rule detail: '' @ err_msg e)))
     | Inr rules \<Rightarrow>
         (let next = waitEnable C gid (Region n) (executeFirst C gid (Region n) rules)
          in case find (nodeRule gid) rules of
               None \<Rightarrow> createRule C (Region n) gid desired next
             | Some rule \<Rightarrow> setRule C (Region n) (er_ScalingRuleId rule) desired next))"

definition RemoveScalingGroupECS :: "cloud \<Rightarrow> Devel \<Rightarrow> Context \<Rightarrow> string \<Rightarrow> string \<Rightarrow> gerr option ali" where
  "RemoveScalingGroupECS C n ctx gid ecs =
     andThen (stackString (Stack ctx) ''k8s_master_sg'') (\<lambda>sgid.
     waitEnable C sgid (Region n)
       (andThen (change C (EssW (RemoveInstances [ecs] sgid))) (\<lambda>err. case err of
         Some e \<Rightarrow> ret (Some (Errorf (''remove sg instance: '' @ ecs @ '' '' @ err_msg e)))
       | None \<Rightarrow> WaitActivity C sgid (Region n))))"

section \<open>Instances\<close>

definition StopECSTimeout :: int where "StopECSTimeout = 240"
definition InstanceDefaultTimeout :: int where "InstanceDefaultTimeout = 120"
definition DefaultWaitForInterval :: int where "DefaultWaitForInterval = 5"

function waitStatus :: "cloud \<Rightarrow> string \<Rightarrow> string \<Rightarrow> int \<Rightarrow> gerr option ali" where
  "waitStatus C ident status timeout =
     andThen (perform (EcsR (DescribeInstanceAttribute ident)) (\<lambda>tr. c_attribute C tr ident)) (\<lambda>r. case r of
       Inl e \<Rightarrow> ret (Some e)
     | Inr st \<Rightarrow>
         if st = status then andThen (sleep (DefaultWaitForInterval * Second)) (\<lambda>_. ret None)
         else if timeout - DefaultWaitForInterval \<le> 0
         then ret (Some (Errorf (''timeout waiting '' @ ident @ '' '' @ status)))
         else andThen (sleep (DefaultWaitForInterval * Second))
           (\<lambda>_. waitStatus C ident status (timeout - DefaultWaitForInterval)))"
  by pat_completeness auto
termination
  by (relation "measure (\<lambda>(C, ident, status, timeout). nat timeout)") (auto simp: DefaultWaitForInterval_def)

declare waitStatus.simps [simp del]

definition WaitECS :: "cloud \<Rightarrow> string \<Rightarrow> string \<Rightarrow> int \<Rightarrow> gerr option ali" where
  "WaitECS C ident status timeout =
     waitStatus C ident status (if timeout \<le> 0 then InstanceDefaultTimeout else timeout)"

definition instanceStatus :: "cloud \<Rightarrow> string \<Rightarrow> (gerr + string) ali" where
  "instanceStatus C ident = perform (EcsR (DescribeInstanceAttribute ident)) (\<lambda>tr. c_attribute C tr ident)"

definition startInstance :: "cloud \<Rightarrow> string \<Rightarrow> gerr option ali" where
  "startInstance C ident = andThen (change C (EcsW (StartInstance ident))) (\<lambda>err. case err of
     Some e \<Rightarrow> ret (Some (Errorf (''start instance['' @ ident @ '']: '' @ err_msg e)))
   | None \<Rightarrow> WaitECS C ident ''Running'' 120)"

definition RestartECS :: "cloud \<Rightarrow> string \<Rightarrow> gerr option ali" where
  "RestartECS C ident = andThen (instanceStatus C ident) (\<lambda>r. case r of
     Inl e \<Rightarrow> ret (Some (Errorf (''get ecs status failed: '' @ err_msg e)))
   | Inr st \<Rightarrow> if st = ''Running''
       then andThen (change C (EcsW (StopInstance ident False))) (\<lambda>err. case err of
           Some e \<Rightarrow> ret (Some (Errorf (''stop instance['' @ ident @ ''] error: '' @ err_msg e @ '' '')))
         | None \<Rightarrow> andThen (WaitECS C ident ''Stopped'' 120) (\<lambda>err. case err of
             Some e \<Rightarrow> ret (Some (Errorf (''wait for instance stop: '' @ ident @ '', '' @ err_msg e)))
           | None \<Rightarrow> startInstance C ident))
       else startInstance C ident)"

text \<open>
  The steps of \<^verbatim>\<open>ReplaceSystemDisk\<close>, each with the rest of the function as its continuation.
\<close>

definition waitStopped :: "cloud \<Rightarrow> string \<Rightarrow> gerr option ali \<Rightarrow> gerr option ali" where
  "waitStopped C eid next = andThen (WaitECS C eid ''Stopped'' 120) (\<lambda>err. case err of
     Some e \<Rightarrow> ret (Some (Errorf (''wait '' @ eid @ '' stop: '' @ err_msg e)))
   | None \<Rightarrow> next)"

definition stopFirst :: "cloud \<Rightarrow> EcsInstance \<Rightarrow> string \<Rightarrow> gerr option ali \<Rightarrow> gerr option ali" where
  "stopFirst C inst eid next =
     (if ei_Status inst = ''Running''
      then andThen (change C (EcsW (StopInstance eid False))) (\<lambda>err. case err of
          Some e \<Rightarrow> ret (Some (Errorf (''stop instance error: '' @ err_msg e)))
        | None \<Rightarrow> waitStopped C eid next)
      else waitStopped C eid next)"

definition updateUserdata :: "cloud \<Rightarrow> string \<Rightarrow> string \<Rightarrow> gerr option ali \<Rightarrow> gerr option ali" where
  "updateUserdata C eid userdata next =
     (if length userdata \<noteq> 0
      then andThen (change C (EcsW (ModifyInstanceAttribute eid userdata))) (\<lambda>err. case err of
          Some e \<Rightarrow> ret (Some (Errorf (''replace instance userdata: '' @ err_msg e)))
        | None \<Rightarrow> next)
      else next)"

definition attachKey :: "cloud \<Rightarrow> EcsInstance \<Rightarrow> gerr option ali \<Rightarrow> gerr option ali" where
  "attachKey C inst next =
     (if ei_KeyPairName inst \<noteq> []
      then andThen (change C (EcsW (AttachKeyPair (ei_RegionId inst) (ei_KeyPairName inst) [ei_InstanceId inst])))
        (\<lambda>err. case err of
          Some e \<Rightarrow> ret (Some (Errorf (''attach instance keypair: '' @ err_msg e)))
        | None \<Rightarrow> next)
      else next)"

definition startAgain :: "cloud \<Rightarrow> string \<Rightarrow> gerr option ali" where
  "startAgain C eid = andThen (WaitECS C eid ''Stopped'' 120) (\<lambda>err. case err of
     Some e \<Rightarrow> ret (Some (Errorf (''wait instance stop timeout: '' @ err_msg e)))
   | None \<Rightarrow> andThen (change C (EcsW (StartInstance eid))) (\<lambda>err. case err of
       Some e \<Rightarrow> ret (Some (Errorf (''start instance: '' @ err_msg e)))
     | None \<Rightarrow> WaitECS C eid ''Running'' 120))"

definition replaceDisk :: "cloud \<Rightarrow> EcsInstance \<Rightarrow> string \<Rightarrow> gerr option ali" where
  "replaceDisk C inst eid = andThen (change C (EcsW (ReplaceDisk eid (ei_ImageId inst)))) (\<lambda>err. case err of
     Some e \<Rightarrow> ret (Some (Errorf (''replace system disk: '' @ err_msg e)))
   | None \<Rightarrow> attachKey C inst (startAgain C eid))"

definition ReplaceSystemDisk :: "cloud \<Rightarrow> string \<Rightarrow> string \<Rightarrow> gerr option ali" where
  "ReplaceSystemDisk C eid userdata =
     andThen (perform (EcsR (DescribeInstances [] [eid])) (\<lambda>tr. c_instances C tr [eid])) (\<lambda>r. case r of
       Inl e \<Rightarrow> ret (Some (Errorf (''describe instance: '' @ eid)))
     | Inr [] \<Rightarrow> ret (Wrapf None ''no instance find by id'')
     | Inr (inst # _) \<Rightarrow> stopFirst C inst eid (updateUserdata C eid userdata (replaceDisk C inst eid)))"

text \<open>\<^verbatim>\<open>TagECS\<close>: the keys are untagged first. An error that does not contain \<open>NotFound\<close> is ignored.\<close>

fun tagPairs :: "Value list \<Rightarrow> (string \<times> string) list ali" where
  "tagPairs [] = ret []"
| "tagPairs (v # vs) = andThen (assert_string (val_Val v)) (\<lambda>s.
     andThen (tagPairs vs) (\<lambda>ts. ret ((val_Key v, s) # ts)))"

definition TagECS :: "cloud \<Rightarrow> Devel \<Rightarrow> string \<Rightarrow> Value list \<Rightarrow> gerr option ali" where
  "TagECS C n ident vals =
     (if length vals = 0 then ret None
      else andThen (tagPairs vals) (\<lambda>atags. let rtags = map fst atags in
        andThen (change C (EcsW (UntagResources (Region n) ''instance'' [ident] rtags))) (\<lambda>err.
          let tag = change C (EcsW (TagResources (Region n) ''instance'' [ident] atags))
          in case err of
               Some e \<Rightarrow> if contains (err_msg e) ''NotFound''
                 then ret (Some (Errorf (''remove tag: '' @ err_msg e @ '', '' @ ident @ '', '' @ fmt_list rtags)))
                 else tag
             | None \<Rightarrow> tag)))"

definition InstanceDetail :: "cloud \<Rightarrow> Devel \<Rightarrow> string list \<Rightarrow> (gerr + Instance list) ali" where
  "InstanceDetail C n ids = andThen (perform (EcsR (DescribeInstances (Region n) ids)) (\<lambda>tr. c_instances C tr ids))
     (\<lambda>r. case r of
       Inl e \<Rightarrow> ret (Inl (Wrap e ''InstanceDetail''))
     | Inr is \<Rightarrow> ret (Inr (map (\<lambda>i. instanceOf [] (tagValues (ei_Tags i)) i) is)))"

text \<open>\<^verbatim>\<open>DeleteECS\<close> and \<^verbatim>\<open>StopECS\<close>; an instance that does not exist is a success.\<close>

definition statusOf :: "cloud \<Rightarrow> string \<Rightarrow> (string \<Rightarrow> gerr option ali) \<Rightarrow> gerr option ali" where
  "statusOf C ident next =
     (if ident = [] then ret (Some (Errorf ''instance id must be provided''))
      else andThen (instanceStatus C ident) (\<lambda>r. case r of
          Inl e \<Rightarrow> if contains (err_msg e) ''not exist'' then ret None
            else ret (Some (Errorf (''get ecs status failed: '' @ err_msg e)))
        | Inr st \<Rightarrow> next st))"

definition forceStop :: "cloud \<Rightarrow> string \<Rightarrow> gerr option ali \<Rightarrow> gerr option ali" where
  "forceStop C ident next = andThen (change C (EcsW (StopInstance ident True))) (\<lambda>err. case err of
     Some e \<Rightarrow> ret (Some (Errorf (''stop instance['' @ ident @ ''] error: '' @ err_msg e)))
   | None \<Rightarrow> next)"

definition DeleteECS :: "cloud \<Rightarrow> Devel \<Rightarrow> string \<Rightarrow> gerr option ali" where
  "DeleteECS C n ident = statusOf C ident (\<lambda>st.
     let delete = change C (EcsW (DeleteInstance (Region n) ident True))
     in if st = ''Running''
        then forceStop C ident (andThen (WaitECS C ident ''Stopped'' StopECSTimeout) (\<lambda>err. case err of
            Some e \<Rightarrow> ret (Some (Errorf (''wait for instance stop: '' @ ident @ '', '' @ err_msg e)))
          | None \<Rightarrow> delete))
        else delete)"

definition StopECS :: "cloud \<Rightarrow> string \<Rightarrow> gerr option ali" where
  "StopECS C ident = statusOf C ident (\<lambda>st.
     if st = ''Running'' then forceStop C ident (WaitECS C ident ''Stopped'' StopECSTimeout) else ret None)"

section \<open>Commands on an instance\<close>

record RunResult =
  rr_Status :: string
  rr_OutPut :: string

definition invocationsDone :: "cloud \<Rightarrow> Devel \<Rightarrow> string \<Rightarrow> (bool \<times> gerr option) ali" where
  "invocationsDone C n ident = andThen (perform (EcsR (DescribeInvocations (Region n) ident ''Running'' ''RunShellScript''))
       (\<lambda>tr. c_invocations C tr ident)) (\<lambda>r. case r of
     Inl e \<Rightarrow> ret (False, None)
   | Inr (cnt, invs) \<Rightarrow> if cnt = 0 then ret (True, None)
       else if length (filter (\<lambda>i. iv_InvocationStatus i = ''Running'') invs) = 0 then ret (True, None)
       else ret (False, None))"

definition resultDone :: "cloud \<Rightarrow> string \<Rightarrow> string \<Rightarrow> Invocation \<Rightarrow> (Invocation \<times> bool \<times> gerr option) ali" where
  "resultDone C ident invoke ivk = andThen (perform (EcsR (DescribeInvocationResults ident invoke))
       (\<lambda>tr. c_invocation_results C tr ident invoke)) (\<lambda>r. case r of
     Inl e \<Rightarrow> ret (ivk, False, None)
   | Inr found \<Rightarrow> (case iv_Results found of
       [] \<Rightarrow> ret (ivk, False, None)
     | res # _ \<Rightarrow> if ir_InvokeRecordStatus res \<noteq> ''Running'' then ret (found, True, None)
         else ret (ivk, False, None)))"

definition zeroInvocation :: Invocation where
  "zeroInvocation = \<lparr>iv_InvokeId = [], iv_CommandId = [], iv_InvocationStatus = [], iv_Results = []\<rparr>"

definition runResult :: "Invocation \<Rightarrow> gerr + RunResult" where
  "runResult ivk = (case iv_Results ivk of
     [] \<Rightarrow> Inr \<lparr>rr_Status = [], rr_OutPut = []\<rparr>
   | r # _ \<Rightarrow> (case DecodeString (ir_Output r) of
       Inl e \<Rightarrow> Inl e
     | Inr out \<Rightarrow> Inr \<lparr>rr_Status = iv_InvocationStatus ivk, rr_OutPut = out\<rparr>))"

definition RunShellCommand :: "cloud \<Rightarrow> Devel \<Rightarrow> string \<Rightarrow> string \<Rightarrow> (gerr + RunResult) ali" where
  "RunShellCommand C n ident cmd =
     andThen (pollImmediate C (4 * Minute) (invocationsDone C n ident)) (\<lambda>err. case err of
       Some e \<Rightarrow> ret (Inl (Wrap e ''wait invocation: ''))
     | None \<Rightarrow> let content = EncodeToString cmd in
         andThen (perform (EcsW (RunShell content ''Base64'' ''RunShellScript'' [ident]))
           (\<lambda>tr. c_run C tr content [ident])) (\<lambda>r. case r of
           Inl e \<Rightarrow> ret (Inl (Wrap e ''run command''))
         | Inr invoke \<Rightarrow>
             andThen (pollImmediateWith C (4 * Minute) zeroInvocation (resultDone C ident invoke)) (\<lambda>(ivk, err). case err of
               Some e \<Rightarrow> ret (Inl (Wrap e ''wait command result''))
             | None \<Rightarrow> ret (runResult ivk))))"

section \<open>A cloud whose instances start\<close>

text \<open>An instance is stopped until it is told to start.\<close>

definition booting :: cloud where
  "booting = cloud0\<lparr>c_attribute := (\<lambda>tr i. Inr (if list_ex (\<lambda>c. c = EcsW (StartInstance i)) tr
     then ''Running'' else ''Stopped''))\<rparr>"

section \<open>Lemmas\<close>

subsection \<open>Waiting for the status of an instance\<close>

abbreviation describe :: "string \<Rightarrow> ccall" where
  "describe ident \<equiv> EcsR (DescribeInstanceAttribute ident)"

abbreviation nap :: ccall where
  "nap \<equiv> SysR (SysSleep (DefaultWaitForInterval * Second))"

text \<open>The polls a time out allows: one per interval, rounded up.\<close>

definition polls :: "int \<Rightarrow> nat" where
  "polls timeout = nat ((timeout + 4) div 5)"

lemma polls_step: "5 < timeout \<Longrightarrow> polls timeout = Suc (polls (timeout - 5))"
proof -
  assume "5 < timeout"
  moreover have "(timeout + 4) div 5 = (timeout - 1) div 5 + 1" by presburger
  ultimately show ?thesis by (simp add: polls_def nat_add_distrib)
qed

lemma polls_pos: "0 < timeout \<Longrightarrow> 0 < polls timeout"
  by (simp add: polls_def)

text \<open>A run of the loop: how many calls it makes, and that nil means the status was just seen.\<close>

definition wait_run :: "cloud \<Rightarrow> string \<Rightarrow> string \<Rightarrow> nat \<Rightarrow> ccall list \<Rightarrow> gerr option \<Rightarrow> ccall list \<Rightarrow> bool" where
  "wait_run C ident st k tr r new \<longleftrightarrow> new \<noteq> [] \<and> length new \<le> 2 * k \<and> set new \<subseteq> {describe ident, nap} \<and>
     (r = None \<longleftrightarrow> (\<exists>t. new = t @ [describe ident, nap] \<and> c_attribute C (tr @ t) ident = Inr st))"

lemma wait_run_step:
  assumes "wait_run C ident st k (tr @ [describe ident, nap]) r new"
  shows "wait_run C ident st (Suc k) tr r ([describe ident, nap] @ new)"
proof -
  have "(\<exists>t. [describe ident, nap] @ new = t @ [describe ident, nap] \<and> c_attribute C (tr @ t) ident = Inr st) \<longleftrightarrow>
    (\<exists>t. new = t @ [describe ident, nap] \<and> c_attribute C (tr @ [describe ident, nap] @ t) ident = Inr st)"
    (is "?l \<longleftrightarrow> ?r")
  proof
    assume ?l
    then obtain t where t: "[describe ident, nap] @ new = t @ [describe ident, nap]"
      and a: "c_attribute C (tr @ t) ident = Inr st" by blast
    from assms have "new \<noteq> []" by (simp add: wait_run_def)
    with t obtain t' where "t = [describe ident, nap] @ t'" "new = t' @ [describe ident, nap]"
      by (cases t; cases "tl t") (auto simp: Cons_eq_append_conv)
    with a show ?r by auto
  next
    assume ?r
    then show ?l by force
  qed
  with assms show ?thesis by (simp add: wait_run_def)
qed

lemma waitStatus_run:
  "0 < timeout \<Longrightarrow> \<exists>r new. waitStatus C ident st timeout tr = (Ret r, tr @ new) \<and>
     wait_run C ident st (polls timeout) tr r new"
proof (induction "nat timeout" arbitrary: timeout tr rule: less_induct)
  case less
  note run = waitStatus.simps [of C ident st timeout]
  from less.prems have k: "1 \<le> polls timeout" using polls_pos by fastforce
  consider (err) e where "c_attribute C tr ident = Inl e" | (seen) "c_attribute C tr ident = Inr st"
    | (out) s where "c_attribute C tr ident = Inr s" "s \<noteq> st" "timeout \<le> 5"
    | (again) s where "c_attribute C tr ident = Inr s" "s \<noteq> st" "5 < timeout"
    by (cases "c_attribute C tr ident") force+
  then show ?case
  proof cases
    case (err e)
    then have "waitStatus C ident st timeout tr = (Ret (Some e), tr @ [describe ident])"
      by (simp add: run andThen_perform)
    with k show ?thesis by (intro exI conjI) (auto simp: wait_run_def)
  next
    case seen
    then have "waitStatus C ident st timeout tr = (Ret None, tr @ [describe ident, nap])"
      by (simp add: run andThen_perform sleep_def)
    with k seen show ?thesis by (intro exI conjI) (auto simp: wait_run_def)
  next
    case (out s)
    then have "waitStatus C ident st timeout tr =
        (Ret (Some (Errorf (''timeout waiting '' @ ident @ '' '' @ st))), tr @ [describe ident])"
      by (simp add: run andThen_perform DefaultWaitForInterval_def)
    with k show ?thesis by (intro exI conjI) (auto simp: wait_run_def)
  next
    case (again s)
    then have eq: "waitStatus C ident st timeout tr = waitStatus C ident st (timeout - 5) (tr @ [describe ident, nap])"
      by (subst run) (simp add: andThen_perform DefaultWaitForInterval_def sleep_def)
    from again less.hyps [of "timeout - 5" "tr @ [describe ident, nap]"] obtain r new where
      "waitStatus C ident st (timeout - 5) (tr @ [describe ident, nap]) = (Ret r, (tr @ [describe ident, nap]) @ new)"
      and w: "wait_run C ident st (polls (timeout - 5)) (tr @ [describe ident, nap]) r new" by auto
    with eq have "waitStatus C ident st timeout tr = (Ret r, tr @ [describe ident, nap] @ new)" by simp
    moreover have "wait_run C ident st (polls timeout) tr r ([describe ident, nap] @ new)"
      using wait_run_step [OF w] again(3) by (simp add: polls_step)
    ultimately show ?thesis by blast
  qed
qed

lemma WaitECS_run:
  "\<exists>r new. WaitECS C ident st timeout tr = (Ret r, tr @ new) \<and>
     wait_run C ident st (polls (if timeout \<le> 0 then 120 else timeout)) tr r new"
  using waitStatus_run [of "if timeout \<le> 0 then 120 else timeout" C ident st tr]
  by (auto simp: WaitECS_def InstanceDefaultTimeout_def)

lemma WaitECS_calls [emits_intro]:
  "describe ident \<in> A \<Longrightarrow> nap \<in> A \<Longrightarrow> emits A (WaitECS C ident st timeout)"
proof (rule emitsI)
  fix tr
  assume A: "describe ident \<in> A" "nap \<in> A"
  from WaitECS_run [of C ident st timeout tr] obtain r new where
    "WaitECS C ident st timeout tr = (Ret r, tr @ new)" "set new \<subseteq> {describe ident, nap}"
    by (auto simp: wait_run_def)
  with A show "\<exists>new. snd (WaitECS C ident st timeout tr) = tr @ new \<and> set new \<subseteq> A" by auto
qed

lemma WaitECS_seen:
  assumes "WaitECS C ident st timeout tr = (Ret None, t)"
  obtains t0 where "prefix tr t0" and "t = t0 @ [describe ident, nap]" and "c_attribute C t0 ident = Inr st"
proof -
  from WaitECS_run [of C ident st timeout tr] assms obtain new where "t = tr @ new"
    "wait_run C ident st (polls (if timeout \<le> 0 then 120 else timeout)) tr None new" by auto
  then obtain u where "new = u @ [describe ident, nap]" "c_attribute C (tr @ u) ident = Inr st"
    by (auto simp: wait_run_def)
  with \<open>t = tr @ new\<close> show ?thesis by (intro that [of "tr @ u"]) auto
qed

subsection \<open>Replacing a disk\<close>

lemma waitStopped_emits [emits_intro]:
  "describe eid \<in> A \<Longrightarrow> nap \<in> A \<Longrightarrow> emits A next \<Longrightarrow> emits A (waitStopped C eid next)"
  unfolding waitStopped_def by (intro emits_intro)

text \<open>What comes after the wait runs when the instance has just been seen stopped.\<close>

lemma waitStopped_late:
  assumes c: "c \<in> set (new_calls (waitStopped C eid next) tr)"
    and not: "c \<notin> {describe eid, nap}" and nx: "emits UNIV next"
  obtains t0 where "prefix tr t0" and "c_attribute C t0 eid = Inr ''Stopped''"
    and "c \<in> set (new_calls next (t0 @ [describe eid, nap]))"
    and "waitStopped C eid next tr = next (t0 @ [describe eid, nap])"
proof -
  define k where "k = (\<lambda>err. case err of
     Some e \<Rightarrow> ret (Some (Errorf (''wait '' @ eid @ '' stop: '' @ err_msg e))) | None \<Rightarrow> next)"
  have eq: "waitStopped C eid next = andThen (WaitECS C eid ''Stopped'' 120) k"
    unfolding waitStopped_def k_def by (rule refl)
  have k: "emits UNIV (k x)" for x unfolding k_def by (intro emits_intro nx)
  have w: "emits {describe eid, nap} (WaitECS C eid ''Stopped'' 120)" by (intro emits_intro) auto
  from late_call [OF w not k c [unfolded eq]] obtain x t where
    x: "WaitECS C eid ''Stopped'' 120 tr = (Ret x, t)" and late: "c \<in> set (new_calls (k x) t)"
    and run: "andThen (WaitECS C eid ''Stopped'' 120) k tr = k x t" .
  from late have "x = None" by (cases x) (auto simp: k_def new_calls_def)
  with x obtain t0 where "prefix tr t0" "t = t0 @ [describe eid, nap]" "c_attribute C t0 eid = Inr ''Stopped''"
    by (auto elim: WaitECS_seen)
  with late run eq \<open>x = None\<close> show thesis by (intro that [of t0]) (auto simp: k_def)
qed

lemma stopFirst_late:
  assumes c: "c \<in> set (new_calls (stopFirst C inst eid next) tr)"
    and not: "c \<notin> {describe eid, nap, EcsW (StopInstance eid False)}" and nx: "emits UNIV next"
  obtains t0 where "prefix tr t0" and "c_attribute C t0 eid = Inr ''Stopped''"
    and "c \<in> set (new_calls next (t0 @ [describe eid, nap]))"
    and "stopFirst C inst eid next tr = next (t0 @ [describe eid, nap])"
proof (cases "ei_Status inst = ''Running''")
  case False
  then have eq: "stopFirst C inst eid next = waitStopped C eid next" by (simp add: stopFirst_def)
  from not have "c \<notin> {describe eid, nap}" by simp
  from waitStopped_late [OF c [unfolded eq] this nx] eq show thesis by (metis that)
next
  case True
  let ?s = "EcsW (StopInstance eid False)"
  from True have run: "stopFirst C inst eid next tr = (case c_err C tr ?s of
      Some e \<Rightarrow> ret (Some (Errorf (''stop instance error: '' @ err_msg e)))
    | None \<Rightarrow> waitStopped C eid next) (tr @ [?s])"
    by (simp add: stopFirst_def change_def andThen_perform split: option.split)
  with c not have "c_err C tr ?s = None" by (cases "c_err C tr ?s") (auto simp: new_calls_def)
  with run have eq: "stopFirst C inst eid next tr = waitStopped C eid next (tr @ [?s])" by simp
  have "emits UNIV (waitStopped C eid next)" by (intro emits_intro nx) auto
  from emitsD [OF this, of "tr @ [?s]"] c not eq
  have "c \<in> set (new_calls (waitStopped C eid next) (tr @ [?s]))" by (auto simp: new_calls_def)
  moreover from not have "c \<notin> {describe eid, nap}" by simp
  ultimately obtain t0 where t0: "prefix (tr @ [?s]) t0" "c_attribute C t0 eid = Inr ''Stopped''"
    "c \<in> set (new_calls next (t0 @ [describe eid, nap]))"
    "waitStopped C eid next (tr @ [?s]) = next (t0 @ [describe eid, nap])"
    using nx by (rule waitStopped_late)
  from t0(1) have "prefix tr t0" by (rule append_prefixD)
  from that [OF this t0(2,3)] eq t0(4) show thesis by simp
qed

lemma updateUserdata_late:
  assumes c: "c \<in> set (new_calls (updateUserdata C eid userdata next) tr)"
    and not: "c \<noteq> EcsW (ModifyInstanceAttribute eid userdata)" and nx: "emits UNIV next"
  defines "u \<equiv> tr @ (if userdata = [] then [] else [EcsW (ModifyInstanceAttribute eid userdata)])"
  shows "c \<in> set (new_calls next u)" and "updateUserdata C eid userdata next tr = next u"
proof -
  have "c \<in> set (new_calls next u) \<and> updateUserdata C eid userdata next tr = next u"
  proof (cases "userdata = []")
    case True
    with c show ?thesis by (simp add: updateUserdata_def u_def)
  next
    case False
    let ?m = "EcsW (ModifyInstanceAttribute eid userdata)"
    from False have run: "updateUserdata C eid userdata next tr = (case c_err C tr ?m of
        Some e \<Rightarrow> ret (Some (Errorf (''replace instance userdata: '' @ err_msg e))) | None \<Rightarrow> next) (tr @ [?m])"
      by (simp add: updateUserdata_def change_def andThen_perform split: option.split)
    show ?thesis
    proof (cases "c_err C tr ?m")
      case None
      with run have eq: "updateUserdata C eid userdata next tr = next (tr @ [?m])" by simp
      from emitsD [OF nx, of "tr @ [?m]"] c not eq
      have "c \<in> set (new_calls next (tr @ [?m]))" by (auto simp: new_calls_def)
      with eq False show ?thesis by (simp add: u_def)
    next
      case (Some e)
      with run c not show ?thesis by (auto simp: new_calls_def)
    qed
  qed
  then show "c \<in> set (new_calls next u)" and "updateUserdata C eid userdata next tr = next u" by auto
qed

lemma startAgain_calls [emits_intro]:
  "describe eid \<in> A \<Longrightarrow> nap \<in> A \<Longrightarrow> EcsW (StartInstance eid) \<in> A \<Longrightarrow> emits A (startAgain C eid)"
  unfolding startAgain_def by (intro emits_intro)

lemma attachKey_calls [emits_intro]:
  "EcsW (AttachKeyPair (ei_RegionId inst) (ei_KeyPairName inst) [ei_InstanceId inst]) \<in> A \<Longrightarrow>
   emits A next \<Longrightarrow> emits A (attachKey C inst next)"
  unfolding attachKey_def by (intro emits_intro)

lemma replaceDisk_run:
  obtains new where "snd (replaceDisk C inst eid tr) = tr @ EcsW (ReplaceDisk eid (ei_ImageId inst)) # new"
    and "\<forall>i img. EcsW (ReplaceDisk i img) \<notin> set new"
proof -
  let ?c = "EcsW (ReplaceDisk eid (ei_ImageId inst))"
  let ?rest = "attachKey C inst (startAgain C eid)"
  have "emits {c. \<forall>i img. c \<noteq> EcsW (ReplaceDisk i img)} ?rest" by (intro emits_intro) auto
  from emitsD [OF this, of "tr @ [?c]"] obtain new where
    "snd (?rest (tr @ [?c])) = (tr @ [?c]) @ new" "\<forall>i img. EcsW (ReplaceDisk i img) \<notin> set new" by blast
  then show thesis
    by (cases "c_err C tr ?c") (auto simp: replaceDisk_def change_def andThen_perform intro: that)
qed

lemma replaceDisk_emits [emits_intro]: "emits UNIV (replaceDisk C inst eid)"
  unfolding replaceDisk_def by (intro emits_intro) auto

lemma updateUserdata_emits [emits_intro]: "emits UNIV next \<Longrightarrow> emits UNIV (updateUserdata C eid userdata next)"
  unfolding updateUserdata_def by (intro emits_intro) auto

lemma stopFirst_emits [emits_intro]: "emits UNIV next \<Longrightarrow> emits UNIV (stopFirst C inst eid next)"
  unfolding stopFirst_def by (intro emits_intro) auto

lemma WaitECS_emits: "emits UNIV (WaitECS C ident st timeout)"
  by (intro emits_intro) auto

lemma startAgain_nil:
  assumes "startAgain C eid tr = (Ret None, t)"
  obtains t0 t1 where "prefix tr t0" and "prefix (t0 @ [EcsW (StartInstance eid)]) t1"
    and "t = t1 @ [describe eid, nap]" and "c_attribute C t1 eid = Inr ''Running''"
proof -
  from assms obtain u where w: "WaitECS C eid ''Stopped'' 120 tr = (Ret None, u)"
    and r: "WaitECS C eid ''Running'' 120 (u @ [EcsW (StartInstance eid)]) = (Ret None, t)"
    unfolding startAgain_def andThen_nil_iff by (auto simp: change_def perform_apply)
  from WaitECS_emits w have "prefix tr u" by (rule emits_prefix)
  with WaitECS_seen [OF r] show thesis by (metis that)
qed

lemma attachKey_nil:
  assumes "attachKey C inst next tr = (Ret None, t)"
  obtains u where "prefix tr u" and "next u = (Ret None, t)"
  using assms that [OF prefix_order.order_refl] that [OF prefixI [OF refl]] unfolding attachKey_def
  by (auto simp: andThen_nil_iff change_def perform_apply split: if_splits)

lemma replaceDisk_nil:
  assumes "replaceDisk C inst eid tr = (Ret None, t)"
  shows "\<exists>t0 t1. prefix (tr @ [EcsW (ReplaceDisk eid (ei_ImageId inst))]) t0 \<and>
     prefix (t0 @ [EcsW (StartInstance eid)]) t1 \<and> t = t1 @ [describe eid, nap] \<and>
     c_attribute C t1 eid = Inr ''Running''"
proof -
  from assms have "attachKey C inst (startAgain C eid) (tr @ [EcsW (ReplaceDisk eid (ei_ImageId inst))]) = (Ret None, t)"
    by (auto simp: replaceDisk_def andThen_nil_iff change_def perform_apply)
  then obtain u where u: "prefix (tr @ [EcsW (ReplaceDisk eid (ei_ImageId inst))]) u" and "startAgain C eid u = (Ret None, t)"
    by (rule attachKey_nil)
  then obtain t0 t1 where "prefix u t0" "prefix (t0 @ [EcsW (StartInstance eid)]) t1"
    "t = t1 @ [describe eid, nap]" "c_attribute C t1 eid = Inr ''Running''"
    by (elim startAgain_nil)
  moreover from u \<open>prefix u t0\<close> have "prefix (tr @ [EcsW (ReplaceDisk eid (ei_ImageId inst))]) t0"
    by (rule prefix_order.trans)
  ultimately show ?thesis by blast
qed

lemma stopFirst_nil:
  assumes "stopFirst C inst eid next tr = (Ret None, t)"
  obtains u where "prefix tr u" and "next u = (Ret None, t)"
proof -
  have wait: "\<exists>u. prefix t0 u \<and> next u = (Ret None, t)" if "waitStopped C eid next t0 = (Ret None, t)" for t0
  proof -
    from that obtain u where "WaitECS C eid ''Stopped'' 120 t0 = (Ret None, u)" "next u = (Ret None, t)"
      unfolding waitStopped_def andThen_nil_iff by blast
    with emits_prefix [OF WaitECS_emits] show ?thesis by blast
  qed
  from assms consider "waitStopped C eid next tr = (Ret None, t)"
    | "waitStopped C eid next (tr @ [EcsW (StopInstance eid False)]) = (Ret None, t)"
    by (auto simp: stopFirst_def andThen_nil_iff change_def perform_apply split: if_splits)
  then obtain u where "prefix tr u" "next u = (Ret None, t)"
    by cases (use wait in \<open>blast dest: append_prefixD\<close>)+
  then show thesis by (rule that)
qed

lemma updateUserdata_nil:
  assumes "updateUserdata C eid userdata next tr = (Ret None, t)"
  obtains u where "prefix tr u" and "next u = (Ret None, t)"
  using assms that [OF prefix_order.order_refl] that [OF prefixI [OF refl]] unfolding updateUserdata_def
  by (auto simp: andThen_nil_iff change_def perform_apply split: if_splits)

subsection \<open>Waiting for scaling activities\<close>

abbreviation activities :: "string \<Rightarrow> string \<Rightarrow> ccall" where
  "activities region sgid \<equiv> EssR (DescribeScalingActivities region sgid ''InProgress'')"

abbreviation scaleTimer :: ccall where
  "scaleTimer \<equiv> SysR (SysTimer (4 * Minute))"

lemma activityDone_emits [emits_intro]: "activities region sgid \<in> A \<Longrightarrow> emits A (activityDone C sgid region)"
  unfolding activityDone_def by (intro emits_intro)

lemma WaitActivity_emits [emits_intro]:
  "activities region sgid \<in> A \<Longrightarrow> scaleTimer \<in> A \<Longrightarrow> emits A (WaitActivity C sgid region)"
  unfolding WaitActivity_def by (intro emits_intro)

lemma WaitActivity_seen:
  assumes "WaitActivity C sgid region tr = (Ret None, t)"
  obtains t0 where "prefix tr t0" and "t = t0 @ [activities region sgid]"
    and "c_activities C t0 sgid ''InProgress'' = Inr []"
proof -
  have "emits UNIV (activityDone C sgid region)" by (intro emits_intro) simp
  with assms obtain t0 where t0: "prefix tr t0" "activityDone C sgid region t0 = (Ret (True, None), t)"
    unfolding WaitActivity_def by (meson pollImmediate_done)
  from t0(2) have "t = t0 @ [activities region sgid]" "c_activities C t0 sgid ''InProgress'' = Inr []"
    by (auto simp: activityDone_def andThen_perform split: sum.splits if_splits)
  with t0(1) show thesis by (rule that)
qed

lemma waitEnable_emits [emits_intro]:
  "activities region sgid \<in> A \<Longrightarrow> scaleTimer \<in> A \<Longrightarrow> emits A next \<Longrightarrow> emits A (waitEnable C sgid region next)"
  unfolding waitEnable_def by (intro emits_intro)

text \<open>What comes after the wait runs when no activity has just been found in progress.\<close>

lemma waitEnable_late:
  assumes c: "c \<in> set (new_calls (waitEnable C sgid region next) tr)"
    and not: "c \<notin> {activities region sgid, scaleTimer}" and nx: "emits UNIV next"
  obtains t0 where "prefix tr t0" and "c_activities C t0 sgid ''InProgress'' = Inr []"
    and "c \<in> set (new_calls next (t0 @ [activities region sgid]))"
    and "waitEnable C sgid region next tr = next (t0 @ [activities region sgid])"
proof -
  define k where "k = (\<lambda>err. case err of
     Some (e :: gerr) \<Rightarrow> ret (Some (Errorf (''wait for activity enable: '' @ sgid))) | None \<Rightarrow> next)"
  have eq: "waitEnable C sgid region next = andThen (WaitActivity C sgid region) k"
    unfolding waitEnable_def k_def by (rule refl)
  have k: "emits UNIV (k x)" for x unfolding k_def by (intro emits_intro nx)
  have w: "emits {activities region sgid, scaleTimer} (WaitActivity C sgid region)" by (intro emits_intro) auto
  from late_call [OF w not k c [unfolded eq]] obtain x t where
    x: "WaitActivity C sgid region tr = (Ret x, t)" and late: "c \<in> set (new_calls (k x) t)"
    and run: "andThen (WaitActivity C sgid region) k tr = k x t" .
  from late have "x = None" by (cases x) (auto simp: k_def new_calls_def)
  with x obtain t0 where "prefix tr t0" "t = t0 @ [activities region sgid]"
    "c_activities C t0 sgid ''InProgress'' = Inr []"
    by (auto elim: WaitActivity_seen)
  with late run eq \<open>x = None\<close> show thesis by (intro that [of t0]) (auto simp: k_def)
qed

lemma executeMaster_run:
  obtains new where "snd (executeMaster C sgid region ari tr) = tr @ EssW (ExecuteScalingRule ari) # new"
    and "\<forall>c \<in> set new. \<not> changes c"
proof -
  let ?c = "EssW (ExecuteScalingRule ari)"
  have "emits queries (WaitActivity C sgid region)" by (intro emits_intro) auto
  from emitsD [OF this, of "tr @ [?c]"] obtain new where
    "snd (WaitActivity C sgid region (tr @ [?c])) = (tr @ [?c]) @ new" "\<forall>c \<in> set new. \<not> changes c" by (auto simp: subset_iff)
  moreover have "executeMaster C sgid region ari tr = WaitActivity C sgid region (tr @ [?c]) \<or>
      snd (executeMaster C sgid region ari tr) = tr @ [?c]"
    by (simp add: executeMaster_def change_def andThen_perform split: option.split)
  ultimately show thesis using that [of new] that [of "[]"] by auto
qed

lemma executeMaster_emits [emits_intro]: "emits UNIV (executeMaster C sgid region ari)"
  unfolding executeMaster_def by (intro emits_intro) auto

lemma stackString_run:
  assumes "stackString stack k tr = (Ret s, t)"
  shows "t = tr" and "stack_val (case stack of None \<Rightarrow> [] | Some m \<Rightarrow> m) k = VStr s"
  using assms by (auto simp: stackString_def assert_string_def split: goval.splits)

subsection \<open>Commands on an instance\<close>

lemma invocationsDone_emits [emits_intro]:
  "EcsR (DescribeInvocations (Region n) ident ''Running'' ''RunShellScript'') \<in> A \<Longrightarrow> emits A (invocationsDone C n ident)"
  unfolding invocationsDone_def by (intro emits_intro)

lemma resultDone_emits [emits_intro]:
  "EcsR (DescribeInvocationResults ident invoke) \<in> A \<Longrightarrow> emits A (resultDone C ident invoke ivk)"
  unfolding resultDone_def by (intro emits_intro)

lemma resultDone_done:
  assumes "resultDone C ident invoke ivk tr = (Ret (found, True, None), t)"
  shows "c_invocation_results C tr ident invoke = Inr found"
    and "\<exists>r rs. iv_Results found = r # rs \<and> ir_InvokeRecordStatus r \<noteq> ''Running''"
  using assms by (auto simp: resultDone_def andThen_perform split: sum.splits list.splits if_splits)

subsection \<open>Rules\<close>

text \<open>The trace after a rule was created for the group and no activity was found in progress.\<close>

abbreviation ruleCreated :: "Devel \<Rightarrow> string \<Rightarrow> int \<Rightarrow> ccall list \<Rightarrow> ccall list" where
  "ruleCreated n gid desired tr \<equiv> tr @ [EssR (DescribeScalingRules (Region n) [] gid),
     EssW (CreateScalingRule (Region n) gid ''NodeScale'' ''TotalCapacity'' desired), activities (Region n) gid]"

lemma WaitActivity_idle:
  assumes "c_activities C tr sgid ''InProgress'' = Inr []"
  shows "WaitActivity C sgid region tr = (Ret None, tr @ [activities region sgid])"
  using assms by (simp add: WaitActivity_def pollImmediate_def activityDone_def andThen_perform andThen_def perform_apply ret_apply)

section \<open>Properties\<close>

text \<open>
  C36: \<^verbatim>\<open>WaitECS\<close> always returns. It only asks for the status of the instance and sleeps five
  seconds between two questions, asks at most once per five seconds of its time out (of 120 seconds
  for a time out that is not positive), and answers nil exactly when its last question found the
  status it waits for.
\<close>

theorem WaitECS_bounded:
  "\<exists>r new. WaitECS C ident st timeout tr = (Ret r, tr @ new) \<and> set new \<subseteq> {describe ident, nap} \<and>
     int (length new) \<le> 2 * (((if timeout \<le> 0 then 120 else timeout) + 4) div 5) \<and>
     (r = None \<longleftrightarrow> (\<exists>t. new = t @ [describe ident, nap] \<and> c_attribute C (tr @ t) ident = Inr st))"
proof -
  from WaitECS_run [of C ident st timeout tr] obtain r new where
    run: "WaitECS C ident st timeout tr = (Ret r, tr @ new)"
    and w: "wait_run C ident st (polls (if timeout \<le> 0 then 120 else timeout)) tr r new" by blast
  from w have "length new \<le> 2 * polls (if timeout \<le> 0 then 120 else timeout)" by (simp add: wait_run_def)
  then have "int (length new) \<le> 2 * (((if timeout \<le> 0 then 120 else timeout) + 4) div 5)"
    by (auto simp: polls_def split: if_splits)
  with run w show ?thesis by (auto simp: wait_run_def)
qed

text \<open>
  C10: \<^verbatim>\<open>ReplaceSystemDisk\<close> replaces a disk only of the instance it is given, with the image that
  instance was listed with, at most once, and only right after the instance was seen stopped and its
  new user data, if any, was written.
\<close>

theorem ReplaceSystemDisk_only_stopped:
  assumes c: "EcsW (ReplaceDisk i img) \<in> set (new_calls (ReplaceSystemDisk C eid userdata) tr)"
  shows "\<exists>inst insts t0 new. i = eid \<and> c_instances C tr [eid] = Inr (inst # insts) \<and> img = ei_ImageId inst \<and>
     prefix tr t0 \<and> c_attribute C t0 eid = Inr ''Stopped'' \<and>
     snd (ReplaceSystemDisk C eid userdata tr) = t0 @ [describe eid, nap] @
       (if userdata = [] then [] else [EcsW (ModifyInstanceAttribute eid userdata)]) @ EcsW (ReplaceDisk eid img) # new \<and>
     (\<forall>j k. EcsW (ReplaceDisk j k) \<notin> set new)"
proof -
  let ?d = "EcsR (DescribeInstances [] [eid])"
  from c obtain inst insts where l: "c_instances C tr [eid] = Inr (inst # insts)"
    by (cases "c_instances C tr [eid]") (auto simp: ReplaceSystemDisk_def andThen_perform new_calls_def split: list.splits)
  define f where "f = replaceDisk C inst eid"
  define g where "g = updateUserdata C eid userdata f"
  from l have run: "ReplaceSystemDisk C eid userdata tr = stopFirst C inst eid g (tr @ [?d])"
    by (simp add: ReplaceSystemDisk_def andThen_perform f_def g_def)
  have f: "emits UNIV f" unfolding f_def by (rule replaceDisk_emits)
  have g: "emits UNIV g" unfolding g_def by (rule updateUserdata_emits [OF f])
  from emitsD [OF stopFirst_emits [OF g], of C inst eid "tr @ [?d]"] c run
  have c1: "EcsW (ReplaceDisk i img) \<in> set (new_calls (stopFirst C inst eid g) (tr @ [?d]))"
    by (auto simp: new_calls_def)
  obtain t0 where t0: "prefix (tr @ [?d]) t0" "c_attribute C t0 eid = Inr ''Stopped''"
    and c2: "EcsW (ReplaceDisk i img) \<in> set (new_calls g (t0 @ [describe eid, nap]))"
    and e1: "stopFirst C inst eid g (tr @ [?d]) = g (t0 @ [describe eid, nap])"
    by (rule stopFirst_late [OF c1 _ g]) auto
  note late = updateUserdata_late [OF c2 [unfolded g_def] _ f, simplified]
  define u where "u = (t0 @ [describe eid, nap]) @ (if userdata = [] then [] else [EcsW (ModifyInstanceAttribute eid userdata)])"
  from late have c3: "EcsW (ReplaceDisk i img) \<in> set (new_calls f u)"
    and e2: "g (t0 @ [describe eid, nap]) = f u" by (simp_all add: u_def g_def)
  obtain new where new: "snd (f u) = u @ EcsW (ReplaceDisk eid (ei_ImageId inst)) # new"
    and once: "\<forall>j k. EcsW (ReplaceDisk j k) \<notin> set new"
    unfolding f_def by (rule replaceDisk_run)
  from c3 new once have "i = eid" "img = ei_ImageId inst" by (auto simp: new_calls_def)
  with l t0 run e1 e2 new once show ?thesis
    by (intro exI [of _ inst] exI [of _ insts] exI [of _ t0] exI [of _ new]) (auto simp: u_def dest: append_prefixD)
qed

theorem ReplaceSystemDisk_only_stopped_witness:
  "\<exists>inst insts t0 new. ''i-1'' = ''i-1'' \<and> c_instances booting [] [''i-1''] = Inr (inst # insts) \<and>
     ''img-1'' = ei_ImageId inst \<and> prefix [] t0 \<and> c_attribute booting t0 ''i-1'' = Inr ''Stopped'' \<and>
     snd (ReplaceSystemDisk booting ''i-1'' ''ud'' []) = t0 @ [describe ''i-1'', nap] @
       (if ''ud'' = [] then [] else [EcsW (ModifyInstanceAttribute ''i-1'' ''ud'')]) @ EcsW (ReplaceDisk ''i-1'' ''img-1'') # new \<and>
     (\<forall>j k. EcsW (ReplaceDisk j k) \<notin> set new)"
proof -
  have "list_ex (\<lambda>c. c = EcsW (ReplaceDisk ''i-1'' ''img-1'')) (new_calls (ReplaceSystemDisk booting ''i-1'' ''ud'') [])"
    by code_simp
  then have "EcsW (ReplaceDisk ''i-1'' ''img-1'') \<in> set (new_calls (ReplaceSystemDisk booting ''i-1'' ''ud'') [])"
    by (auto simp: list_ex_iff)
  then show ?thesis by (rule ReplaceSystemDisk_only_stopped)
qed

text \<open>
  When \<^verbatim>\<open>ReplaceSystemDisk\<close> reports success, the disk was replaced, the instance was started
  afterwards and was seen running last, unless no instance was found: then nothing was done at all,
  because the error it wraps for that case is nil.
\<close>

lemma ReplaceSystemDisk_success:
  assumes run: "ReplaceSystemDisk C eid userdata tr = (Ret None, t)"
  shows "(c_instances C tr [eid] = Inr [] \<and> t = tr @ [EcsR (DescribeInstances [] [eid])]) \<or>
     (\<exists>inst insts u t0 t1. c_instances C tr [eid] = Inr (inst # insts) \<and> prefix tr u \<and>
        prefix (u @ [EcsW (ReplaceDisk eid (ei_ImageId inst))]) t0 \<and> prefix (t0 @ [EcsW (StartInstance eid)]) t1 \<and>
        t = t1 @ [describe eid, nap] \<and> c_attribute C t1 eid = Inr ''Running'')"
proof (cases "c_instances C tr [eid]")
  case (Inl e)
  with run show ?thesis by (simp add: ReplaceSystemDisk_def andThen_perform)
next
  case (Inr l)
  show ?thesis
  proof (cases l)
    case Nil
    with Inr run show ?thesis by (simp add: ReplaceSystemDisk_def andThen_perform)
  next
    case (Cons inst insts)
    let ?d = "EcsR (DescribeInstances [] [eid])"
    from Inr Cons run have "stopFirst C inst eid (updateUserdata C eid userdata (replaceDisk C inst eid)) (tr @ [?d]) = (Ret None, t)"
      by (simp add: ReplaceSystemDisk_def andThen_perform)
    then obtain v where v: "prefix (tr @ [?d]) v" "updateUserdata C eid userdata (replaceDisk C inst eid) v = (Ret None, t)"
      by (rule stopFirst_nil)
    from v(2) obtain u where u: "prefix v u" "replaceDisk C inst eid u = (Ret None, t)" by (rule updateUserdata_nil)
    from v(1) u(1) have "prefix tr u" by (meson append_prefixD prefix_order.trans)
    with replaceDisk_nil [OF u(2)] Inr Cons show ?thesis by blast
  qed
qed

text \<open>
  C18: \<^verbatim>\<open>ScaleMasterGroup\<close> executes only the rule of the control plane group, after setting it to the
  desired count, and only when it has just found no scaling activity of the group in progress; after
  that it changes nothing more.
\<close>

theorem ScaleMasterGroup_executes_when_idle:
  assumes c: "EssW (ExecuteScalingRule ari) \<in> set (new_calls (ScaleMasterGroup C n ctx gid desired) tr)"
  shows "\<exists>sgid srid rule t0 new.
     stack_val (case Stack ctx of None \<Rightarrow> [] | Some m \<Rightarrow> m) ''k8s_master_sg'' = VStr sgid \<and>
     stack_val (case Stack ctx of None \<Rightarrow> [] | Some m \<Rightarrow> m) ''k8s_master_srule'' = VStr srid \<and>
     prefix (tr @ [EssW (ModifyScalingRule (Region n) srid ''TotalCapacity'' desired),
       EssR (DescribeScalingRules (Region n) [srid] [])]) t0 \<and>
     c_rules C (tr @ [EssW (ModifyScalingRule (Region n) srid ''TotalCapacity'' desired)]) [srid] [] = Inr [rule] \<and>
     ari = er_ScalingRuleAri rule \<and> c_activities C t0 sgid ''InProgress'' = Inr [] \<and>
     snd (ScaleMasterGroup C n ctx gid desired tr) =
       t0 @ [activities (Region n) sgid, EssW (ExecuteScalingRule ari)] @ new \<and> (\<forall>c \<in> set new. \<not> changes c)"
proof -
  let ?stack = "case Stack ctx of None \<Rightarrow> [] | Some m \<Rightarrow> m"
  from c obtain sgid srid where sg: "stack_val ?stack ''k8s_master_sg'' = VStr sgid"
    and sr: "stack_val ?stack ''k8s_master_srule'' = VStr srid"
    by (auto simp: ScaleMasterGroup_def stackString_def assert_string_def new_calls_def split: goval.splits)
  let ?m = "EssW (ModifyScalingRule (Region n) srid ''TotalCapacity'' desired)"
  let ?q = "EssR (DescribeScalingRules (Region n) [srid] [])"
  define f where "f = (\<lambda>rule :: EssRule. waitEnable C sgid (Region n) (executeMaster C sgid (Region n) (er_ScalingRuleAri rule)))"
  have run: "ScaleMasterGroup C n ctx gid desired tr = setRule C (Region n) srid desired (findRule C (Region n) srid f) tr"
    using sg sr by (simp add: ScaleMasterGroup_def stackString_def assert_string_def f_def)
  from c run obtain rule where rule: "c_rules C (tr @ [?m]) [srid] [] = Inr [rule]"
    and run2: "ScaleMasterGroup C n ctx gid desired tr = f rule (tr @ [?m, ?q])"
    by (auto simp: setRule_def findRule_def change_def andThen_perform new_calls_def
        split: option.splits sum.splits list.splits)
  have "emits UNIV (f rule)" unfolding f_def by (intro emits_intro) auto
  from emitsD [OF this, of "tr @ [?m, ?q]"] c run2
  have late: "EssW (ExecuteScalingRule ari) \<in> set (new_calls (f rule) (tr @ [?m, ?q]))" by (auto simp: new_calls_def)
  obtain t0 where t0: "prefix (tr @ [?m, ?q]) t0" "c_activities C t0 sgid ''InProgress'' = Inr []"
    and c2: "EssW (ExecuteScalingRule ari) \<in> set (new_calls (executeMaster C sgid (Region n) (er_ScalingRuleAri rule))
      (t0 @ [activities (Region n) sgid]))"
    and run3: "f rule (tr @ [?m, ?q]) = executeMaster C sgid (Region n) (er_ScalingRuleAri rule) (t0 @ [activities (Region n) sgid])"
    unfolding f_def by (rule waitEnable_late [OF late [unfolded f_def] _ executeMaster_emits]) auto
  obtain new where new: "snd (executeMaster C sgid (Region n) (er_ScalingRuleAri rule) (t0 @ [activities (Region n) sgid])) =
      (t0 @ [activities (Region n) sgid]) @ EssW (ExecuteScalingRule (er_ScalingRuleAri rule)) # new"
    "\<forall>c \<in> set new. \<not> changes c" by (rule executeMaster_run)
  from c2 new have "ari = er_ScalingRuleAri rule" by (auto simp: new_calls_def)
  with sg sr rule t0 run2 run3 new show ?thesis
    by (intro exI [of _ sgid] exI [of _ srid] exI [of _ rule] exI [of _ t0] exI [of _ new]) simp
qed

theorem ScaleMasterGroup_executes_when_idle_witness:
  "\<exists>sgid srid rule t0 new.
     stack_val (case Stack context0 of None \<Rightarrow> [] | Some m \<Rightarrow> m) ''k8s_master_sg'' = VStr sgid \<and>
     stack_val (case Stack context0 of None \<Rightarrow> [] | Some m \<Rightarrow> m) ''k8s_master_srule'' = VStr srid \<and>
     prefix ([] @ [EssW (ModifyScalingRule (Region devel0) srid ''TotalCapacity'' 3),
       EssR (DescribeScalingRules (Region devel0) [srid] [])]) t0 \<and>
     c_rules cloud0 ([] @ [EssW (ModifyScalingRule (Region devel0) srid ''TotalCapacity'' 3)]) [srid] [] = Inr [rule] \<and>
     ''ari:r-1'' = er_ScalingRuleAri rule \<and> c_activities cloud0 t0 sgid ''InProgress'' = Inr [] \<and>
     snd (ScaleMasterGroup cloud0 devel0 context0 [] 3 []) =
       t0 @ [activities (Region devel0) sgid, EssW (ExecuteScalingRule ''ari:r-1'')] @ new \<and> (\<forall>c \<in> set new. \<not> changes c)"
proof -
  have "list_ex (\<lambda>c. c = EssW (ExecuteScalingRule ''ari:r-1'')) (new_calls (ScaleMasterGroup cloud0 devel0 context0 [] 3) [])"
    by code_simp
  then have "EssW (ExecuteScalingRule ''ari:r-1'') \<in> set (new_calls (ScaleMasterGroup cloud0 devel0 context0 [] 3) [])"
    by (auto simp: list_ex_iff)
  then show ?thesis by (rule ScaleMasterGroup_executes_when_idle)
qed

text \<open>
  When a node group has no rule named \<^verbatim>\<open>NodeScale\<close> yet, \<^verbatim>\<open>ScaleNodeGroup\<close> creates it and then
  executes the first rule of the listing made before, which is another one, or panics when that
  listing is empty: the rule it has just created is never the one it executes.
\<close>

lemma ScaleNodeGroup_misses_new_rule:
  assumes rules: "c_rules C tr [] gid = Inr rules" and none: "find (nodeRule gid) rules = None"
    and made: "c_create_rule C (tr @ [EssR (DescribeScalingRules (Region n) [] gid)]) gid = Inr rule"
    and idle: "\<And>t. c_activities C t gid ''InProgress'' = Inr []"
  shows "case rules of
     [] \<Rightarrow> ScaleNodeGroup C n ctx gid desired tr = (Panic out_of_range, ruleCreated n gid desired tr)
   | r # _ \<Rightarrow> prefix (ruleCreated n gid desired tr @ [EssW (ExecuteScalingRule (er_ScalingRuleAri r))]) (snd (ScaleNodeGroup C n ctx gid desired tr)) \<and>
       \<not> nodeRule gid r"
proof -
  define t1 where "t1 = ruleCreated n gid desired tr"
  from rules none made have run: "ScaleNodeGroup C n ctx gid desired tr = executeFirst C gid (Region n) rules t1"
    by (simp add: ScaleNodeGroup_def andThen_perform createRule_def waitEnable_def t1_def
        andThen_apply [of "WaitActivity C gid (Region n)", OF WaitActivity_idle [OF idle]])
  show ?thesis
  proof (cases rules)
    case Nil
    with run show ?thesis by (simp add: executeFirst_def panic_apply t1_def)
  next
    case (Cons r rs)
    with none have "\<not> nodeRule gid r" by (auto split: if_splits)
    let ?e = "EssW (ExecuteScalingRule (er_ScalingRuleAri r))"
    have "executeFirst C gid (Region n) rules t1 = (case c_err C t1 ?e of
        Some e \<Rightarrow> ret (Some (Errorf (''execute node scaling rule failed: '' @ err_msg e)))
      | None \<Rightarrow> WaitActivity C gid (Region n)) (t1 @ [?e])"
      using Cons by (simp add: executeFirst_def change_def andThen_perform split: option.split)
    with run have "prefix (t1 @ [?e]) (snd (ScaleNodeGroup C n ctx gid desired tr))"
      by (cases "c_err C t1 ?e") (simp_all add: WaitActivity_idle [OF idle])
    with Cons \<open>\<not> nodeRule gid r\<close> show ?thesis by (simp add: t1_def)
  qed
qed

text \<open>
  C35: A command run through \<^verbatim>\<open>RunCommand\<close> reaches the instance as it was given, and what is returned
  is what the instance answered: the content sent decodes to the command, and the output returned is
  the decoded output of a finished result of that very invocation, with its status.
\<close>

theorem RunShellCommand_roundtrip:
  assumes run: "RunShellCommand C n ident cmd tr = (Ret (Inr res), t)"
  shows "\<exists>content invoke found r rs t0 t1. DecodeString content = Inr cmd \<and> c_run C t0 content [ident] = Inr invoke \<and>
     prefix tr t0 \<and> prefix (t0 @ [EcsW (RunShell content ''Base64'' ''RunShellScript'' [ident])]) t1 \<and> prefix t1 t \<and>
     c_invocation_results C t1 ident invoke = Inr found \<and> iv_Results found = r # rs \<and>
     ir_InvokeRecordStatus r \<noteq> ''Running'' \<and> DecodeString (ir_Output r) = Inr (rr_OutPut res) \<and>
     rr_Status res = iv_InvocationStatus found"
proof -
  let ?c = "EncodeToString cmd"
  let ?r = "EcsW (RunShell ?c ''Base64'' ''RunShellScript'' [ident])"
  from run obtain t0 invoke ivk where p: "pollImmediate C (4 * Minute) (invocationsDone C n ident) tr = (Ret None, t0)"
    and r: "c_run C t0 ?c [ident] = Inr invoke"
    and w: "pollImmediateWith C (4 * Minute) zeroInvocation (resultDone C ident invoke) (t0 @ [?r]) = (Ret (ivk, None), t)"
    and res: "runResult ivk = Inr res"
    by (auto simp: RunShellCommand_def Let_def andThen_Ret_iff perform_apply split: option.split_asm sum.split_asm)
      (metis sum.exhaust)
  have "emits UNIV (pollImmediate C (4 * Minute) (invocationsDone C n ident))" by (intro emits_intro) auto
  with p have "prefix tr t0" by (auto dest: emits_prefix)
  have em: "emits UNIV (resultDone C ident invoke s)" for s by (intro emits_intro) simp
  from pollImmediateWith_done [OF w em, of "\<lambda>_. True"] obtain s t1 where t1: "prefix (t0 @ [?r]) t1"
    and d: "resultDone C ident invoke s t1 = (Ret (ivk, True, None), t)" by blast
  from d em have "prefix t1 t" by (auto dest: emits_prefix)
  from resultDone_done [OF d] obtain x rs where "c_invocation_results C t1 ident invoke = Inr ivk"
    "iv_Results ivk = x # rs" "ir_InvokeRecordStatus x \<noteq> ''Running''" by blast
  moreover from res this(2) have "DecodeString (ir_Output x) = Inr (rr_OutPut res)" "rr_Status res = iv_InvocationStatus ivk"
    by (auto simp: runResult_def split: sum.splits)
  ultimately show ?thesis using DecodeString_EncodeToString [of cmd] r \<open>prefix tr t0\<close> t1 \<open>prefix t1 t\<close> by blast
qed

theorem RunShellCommand_roundtrip_witness:
  "\<exists>res t content invoke found r rs t0 t1. RunShellCommand cloud0 devel0 ''i-1'' ''ls'' [] = (Ret (Inr res), t) \<and>
     DecodeString content = Inr ''ls'' \<and> c_run cloud0 t0 content [''i-1''] = Inr invoke \<and>
     prefix [] t0 \<and> prefix (t0 @ [EcsW (RunShell content ''Base64'' ''RunShellScript'' [''i-1''])]) t1 \<and> prefix t1 t \<and>
     c_invocation_results cloud0 t1 ''i-1'' invoke = Inr found \<and> iv_Results found = r # rs \<and>
     ir_InvokeRecordStatus r \<noteq> ''Running'' \<and> DecodeString (ir_Output r) = Inr (rr_OutPut res) \<and>
     rr_Status res = iv_InvocationStatus found"
proof -
  have "case fst (RunShellCommand cloud0 devel0 ''i-1'' ''ls'' []) of Ret (Inr r) \<Rightarrow> True | _ \<Rightarrow> False" by code_simp
  then obtain res t where "RunShellCommand cloud0 devel0 ''i-1'' ''ls'' [] = (Ret (Inr res), t)"
    by (cases "RunShellCommand cloud0 devel0 ''i-1'' ''ls'' []") (auto split: outcome.splits sum.splits)
  with RunShellCommand_roundtrip [OF this] show ?thesis by blast
qed

end
