(* ===== verification/User_Data.thy ===== *)
theory User_Data
  imports Cloud Base64
begin

text \<open>
  \<^verbatim>\<open>pkg/iaas/provider/alibaba/userdata.go\<close>: the scripts an instance runs when it boots. Each template
  is a function of the fields it uses, line by line; all but the one of the first master are sent
  base64-encoded. The YAML printer is a parameter. Executing these templates cannot fail: they
  only refer to fields of the struct they are given.
\<close>

section \<open>Templates\<close>

definition unlines :: "string list \<Rightarrow> string" where
  "unlines ls = concat (map (\<lambda>l. l @ [CHR 0x0A]) ls)"

definition bsl :: string where "bsl = [CHR 0x5C]"
definition tab :: string where "tab = [CHR 0x09]"

definition PrefixPart :: string where
  "PrefixPart = unlines [''#!/bin/sh'', ''set -x -e'']"

definition USER_DATA :: "string \<Rightarrow> string \<Rightarrow> string \<Rightarrow> string \<Rightarrow> string \<Rightarrow> string \<Rightarrow> string" where
  "USER_DATA a1 a2 a3 a4 a5 a6 = unlines [
     [],
     ''REGION=\"$(curl 100.100.100.200/latest/meta-data/region-id)\"'',
     ''export REGION'',
     ''export ROLE='' @ a1 @ '' OS=centos ARCH=amd64 '' @ bsl,
     ''       TOKEN='' @ a2 @ '' '' @ bsl,
     ''       CLOUD_TYPE='' @ a3 @ '' '' @ bsl,
     ''       NAMESPACE='' @ a4 @ '' '' @ bsl,
     ''       FILE_SERVER=\"http://host-wdrip-$REGION.oss-$REGION-internal.aliyuncs.com\"'',
     ''echo \"using beta version: [${NAMESPACE}]\"'',
     ''mkdir -p /etc/wdrip;'',
     ''echo \"'',
     a5,
     ''\" > /etc/wdrip/wdrip.cfg'',
     ''wget --tries 10 --no-check-certificate -q '' @ bsl,
     ''     -O run.replace.sh'' @ bsl,
     ''     ${FILE_SERVER}/wdrip/${NAMESPACE}/${CLOUD_TYPE}/run/2.0/${ARCH}/${OS}/run.'' @ a6 @ ''.sh'',
     ''time bash run.replace.sh |tee /var/log/init.log'']"

record ConfigTpl =
  ct_Namespace :: string
  ct_Token :: string
  ct_WdripVersion :: string
  ct_Endpoint :: string
  ct_Role :: string
  ct_RunVersion :: string
  ct_CloudType :: string
  ct_Arch :: string
  ct_OS :: string
  ct_Provider :: string

definition WorkUserData :: "ConfigTpl \<Rightarrow> string" where
  "WorkUserData cfg = unlines [
     ''#!/bin/sh'',
     ''set -x -e'',
     ''REGION=$(curl --retry 5 -sSL http://100.100.100.200/latest/meta-data/region-id)'',
     ''export REGION'',
     ''export NAMESPACE='' @ ct_Namespace cfg @ '' '' @ bsl,
     ''       TOKEN='' @ ct_Token cfg @ '' '' @ bsl,
     ''       WDRIP_VERSION='' @ ct_WdripVersion cfg @ '' '' @ bsl,
     ''       FILE_SERVER=http://host-wdrip-${REGION}.oss-${REGION}-internal.aliyuncs.com '' @ bsl,
     ''       ENDPOINT='' @ ct_Endpoint cfg @ '' '' @ bsl,
     ''       ROLE='' @ ct_Role cfg,
     ''wget --tries 10 --no-check-certificate -q '' @ bsl,
     ''     -O run.replace.sh'' @ bsl,
     ''     ${FILE_SERVER}/wdrip/${NAMESPACE}/'' @ ct_CloudType cfg @ ''/run/'' @ ct_RunVersion cfg @ ''/'' @ ct_Arch cfg @ ''/'' @ ct_OS cfg @ ''/run.'' @ ct_Provider cfg @ ''.sh'',
     ''time bash run.replace.sh |tee /var/log/init.log'',
     []]"

definition RecoverUserData :: "ConfigTpl \<Rightarrow> string \<Rightarrow> string \<Rightarrow> string \<Rightarrow> string \<Rightarrow> string" where
  "RecoverUserData cfg recoverFrom clusterName wdripConfig bucket = unlines [
     ''#!/bin/bash'',
     ''set -e -x'',
     ''REGION=\"$(curl 100.100.100.200/latest/meta-data/region-id)\"'',
     ''export REGION'',
     ''export ROLE='' @ ct_Role cfg @ '' OS='' @ ct_OS cfg @ '' ARCH='' @ ct_Arch cfg @ '' '' @ bsl,
     ''       TOKEN='' @ ct_Token cfg @ '' '' @ bsl,
     ''       CLOUD_TYPE='' @ ct_CloudType cfg @ '' '' @ bsl,
     ''       NAMESPACE='' @ ct_Namespace cfg @ '' '' @ bsl,
     ''       WDRIP_VERSION='' @ ct_WdripVersion cfg @ '' '' @ bsl,
     ''       FILE_SERVER=\"http://host-wdrip-$REGION.oss-$REGION-internal.aliyuncs.com\"'',
     ''# set wdrip operator endpoint'',
     ''export ENDPOINT='' @ ct_Endpoint cfg,
     ''echo \"using beta version: [${NAMESPACE}]\"'',
     [],
     ''echo \"using beta version: [${NAMESPACE}]\"'',
     ''wget --tries 10 --no-check-certificate -q '' @ bsl,
     tab @ ''-O /tmp/wdrip.${ARCH}'' @ bsl,
     tab @ ''\"${FILE_SERVER}\"/wdrip/${NAMESPACE}/${CLOUD_TYPE}/wdrip/${WDRIP_VERSION}/${ARCH}/${OS}/wdrip.${ARCH}'',
     ''chmod +x /tmp/wdrip.${ARCH} ; mv /tmp/wdrip.${ARCH} /usr/local/bin/wdrip; mkdir -p ~/.wdrip/'',
     ''cat > ~/.wdrip/config << EOF'',
     wdripConfig,
     ''EOF'',
     ''/usr/local/bin/wdrip recover --recover-mode node --name \"'' @ clusterName @ ''\" --recover-from-cluster \"'' @ recoverFrom @ ''\" '' @
       (if bucket \<noteq> [] then '' --bucket \"'' @ bucket @ ''\" '' else [])]"

definition USER_DATA_JOIN_MASTER :: "ConfigTpl \<Rightarrow> string" where
  "USER_DATA_JOIN_MASTER cfg = unlines [
     ''#!/bin/sh'',
     ''set -e -x'',
     ''REGION=\"$(curl 100.100.100.200/latest/meta-data/region-id)\"'',
     ''export REGION'',
     ''# make sure wdrip boot master from operator'',
     ''export BOOT_TYPE=operator'',
     ''export ROLE='' @ ct_Role cfg @ '' OS='' @ ct_OS cfg @ '' ARCH='' @ ct_Arch cfg @ '' '' @ bsl,
     ''       TOKEN='' @ ct_Token cfg @ '' '' @ bsl,
     ''       CLOUD_TYPE='' @ ct_CloudType cfg @ '' '' @ bsl,
     ''       NAMESPACE='' @ ct_Namespace cfg @ '' '' @ bsl,
     ''       FILE_SERVER=\"http://host-wdrip-$REGION.oss-$REGION-internal.aliyuncs.com\"'',
     ''# set wdrip operator endpoint'',
     ''export ENDPOINT='' @ ct_Endpoint cfg,
     ''echo \"using beta version: [${NAMESPACE}]\"'',
     ''mkdir -p /etc/wdrip;'',
     ''wget --tries 10 --no-check-certificate -q '' @ bsl,
     ''     -O run.sh'' @ bsl,
     ''     ${FILE_SERVER}/wdrip/${NAMESPACE}/${CLOUD_TYPE}/run/2.0/${ARCH}/${OS}/run.'' @ ct_Provider cfg @ ''.sh'',
     ''time bash run.sh |tee /var/log/init.log.wdrip'']"

section \<open>User data\<close>

text \<open>\<^verbatim>\<open>utils.PrettyYaml\<close> of a cluster spec and of a context.\<close>

record printers =
  y_spec :: "ClusterSpec \<Rightarrow> string"
  y_context :: "ContextCFG \<Rightarrow> string"

definition configTpl :: "string \<Rightarrow> ClusterSpec \<Rightarrow> ConfigTpl" where
  "configTpl role boot = \<lparr>ct_Namespace = cs_Namespace boot, ct_Token = k8s_KubeadmToken (cs_Kubernetes boot),
     ct_WdripVersion = ''0.1.1'', ct_Endpoint = ''http://'' @ ep_Intranet (cs_Endpoint boot) @ '':9443'',
     ct_Role = role, ct_RunVersion = ''2.0'', ct_CloudType = ''public'', ct_Arch = ''amd64'', ct_OS = ''centos'',
     ct_Provider = ''alibaba''\<rparr>"

text \<open>
  \<^verbatim>\<open>NewUserData\<close> fills in defaults of the cluster spec that the context holds, and answers the updated
  context. Without a spec in the context it works on a fresh one, which has no provider.
\<close>

definition defaultEndpoint :: "Endpoint \<Rightarrow> Endpoint" where
  "defaultEndpoint ep = \<lparr>ep_Intranet = if ep_Intranet ep = [] then ''${INTRANET_LB}'' else ep_Intranet ep,
     ep_Internet = if ep_Internet ep = [] then ''${INTERNET_LB}'' else ep_Internet ep\<rparr>"

definition defaultSpec :: "ClusterSpec \<Rightarrow> ClusterSpec" where
  "defaultSpec cfg = cfg\<lparr>cs_Namespace := ''default'',
     cs_Registry := ''registry-vpc.'' @ bi_Region (cs_Bind cfg) @ ''.aliyuncs.com/acs'',
     cs_Endpoint := defaultEndpoint (cs_Endpoint cfg)\<rparr>"

definition putSpec :: "ClusterSpec \<Rightarrow> Context \<Rightarrow> Context" where
  "putSpec cfg ctx = (case ctx_BootCFG ctx of Some (Some _) \<Rightarrow> ctx\<lparr>ctx_BootCFG := Some (Some cfg)\<rparr> | _ \<Rightarrow> ctx)"

definition NewUserData :: "printers \<Rightarrow> Context \<Rightarrow> (Context \<times> string) ali" where
  "NewUserData Y ctx = andThen (deref (BootCFG ctx)) (\<lambda>cfg. let cfg = defaultSpec cfg in
     andThen (deref (bi_Provider (cs_Bind cfg))) (\<lambda>p.
       ret (putSpec cfg ctx, USER_DATA ''Hybrid'' (k8s_KubeadmToken (cs_Kubernetes cfg)) (cs_CloudType cfg)
         (cs_Namespace cfg) (y_spec Y cfg) (prvd_Name p))))"

definition NewWorkerUserData :: "Context \<Rightarrow> string ali" where
  "NewWorkerUserData ctx = andThen (deref (BootCFG ctx)) (\<lambda>boot.
     ret (EncodeToString (WorkUserData (configTpl ''Worker'' boot))))"

definition NewRecoverUserData :: "cloud \<Rightarrow> decoders \<Rightarrow> printers \<Rightarrow> Context \<Rightarrow> string ali" where
  "NewRecoverUserData C D Y ctx = andThen (deref (BootCFG ctx)) (\<lambda>boot.
     andThen (BuildContexCFG (cloudHost C D) (Some boot)) (\<lambda>ctxCfg. andThen (deref (Options ctx)) (\<lambda>opts.
       ret (EncodeToString (RecoverUserData (configTpl ''Worker'' boot) (wo_RecoverFrom opts) (wo_ClusterName opts)
         (y_context Y ctxCfg) (wo_Bucket opts))))))"

definition NewJoinMasterUserData :: "Context \<Rightarrow> string ali" where
  "NewJoinMasterUserData ctx = andThen (deref (BootCFG ctx)) (\<lambda>boot.
     ret (EncodeToString (USER_DATA_JOIN_MASTER (configTpl ''Hybrid'' boot))))"

definition UserData :: "cloud \<Rightarrow> decoders \<Rightarrow> printers \<Rightarrow> Context \<Rightarrow> string \<Rightarrow> (Context \<times> (gerr + string)) ali" where
  "UserData C D Y ctx category =
     (if category = MasterUserdata then andThen (NewUserData Y ctx) (\<lambda>(ctx, s). ret (ctx, Inr s))
      else andThen (if category = JoinMasterUserdata then NewJoinMasterUserData ctx
        else if category = WorkerUserdata then NewWorkerUserData ctx
        else if category = RecoverUserdata then NewRecoverUserData C D Y ctx
        else NewWorkerUserData ctx) (\<lambda>s. ret (ctx, Inr s)))"

section \<open>Lemmas\<close>

lemma UserData_queries [emits_intro]: "queries \<subseteq> A \<Longrightarrow> emits A (UserData C D Y ctx category)"
  unfolding UserData_def NewUserData_def NewWorkerUserData_def NewRecoverUserData_def NewJoinMasterUserData_def
  by (intro emits_intro emits_mono [OF cloud_host.BuildContexCFG_quiet])

lemma unlines_contains: "l \<in> set ls \<Longrightarrow> contains l s \<Longrightarrow> contains (unlines ls) s"
proof (induction ls)
  case (Cons a ls)
  have "contains (unlines (a # ls)) a" "contains (unlines (a # ls)) (unlines ls)"
    using contains_mid [of "[]" a "[CHR 0x0A] @ unlines ls"] contains_suffix [of "a @ [CHR 0x0A]" "unlines ls"]
    by (simp_all add: unlines_def)
  with Cons show ?case by (auto intro: contains_trans)
qed simp

lemma unlines_hd: "prefix l (unlines (l # ls))"
  by (simp add: unlines_def)

text \<open>What every one of the encoded scripts exports.\<close>

definition credentials :: "ConfigTpl \<Rightarrow> string \<Rightarrow> bool" where
  "credentials cfg script \<longleftrightarrow> prefix ''#!/bin/'' script \<and> contains script (''TOKEN='' @ ct_Token cfg) \<and>
     contains script (''ENDPOINT='' @ ct_Endpoint cfg) \<and> contains script (''ROLE='' @ ct_Role cfg)"

lemma WorkUserData_credentials: "credentials cfg (WorkUserData cfg)"
proof -
  have "contains (WorkUserData cfg) (''TOKEN='' @ ct_Token cfg)"
    unfolding WorkUserData_def
    by (rule unlines_contains [of "''       TOKEN='' @ ct_Token cfg @ '' '' @ bsl"]) simp_all
  moreover have "contains (WorkUserData cfg) (''ENDPOINT='' @ ct_Endpoint cfg)"
    unfolding WorkUserData_def
    by (rule unlines_contains [of "''       ENDPOINT='' @ ct_Endpoint cfg @ '' '' @ bsl"]) simp_all
  moreover have "contains (WorkUserData cfg) (''ROLE='' @ ct_Role cfg)"
    unfolding WorkUserData_def by (rule unlines_contains [of "''       ROLE='' @ ct_Role cfg"]) simp_all
  moreover have "prefix ''#!/bin/'' (WorkUserData cfg)"
    unfolding WorkUserData_def by (rule prefix_order.trans [OF _ unlines_hd]) simp
  ultimately show ?thesis by (simp add: credentials_def)
qed

lemma RecoverUserData_credentials: "credentials cfg (RecoverUserData cfg src name yaml bucket)"
proof -
  let ?s = "RecoverUserData cfg src name yaml bucket"
  have "contains ?s (''TOKEN='' @ ct_Token cfg)"
    unfolding RecoverUserData_def
    by (rule unlines_contains [of "''       TOKEN='' @ ct_Token cfg @ '' '' @ bsl"]) simp_all
  moreover have "contains ?s (''ENDPOINT='' @ ct_Endpoint cfg)"
    unfolding RecoverUserData_def by (rule unlines_contains [of "''export ENDPOINT='' @ ct_Endpoint cfg"]) simp_all
  moreover have "contains ?s (''ROLE='' @ ct_Role cfg)"
    unfolding RecoverUserData_def
    by (rule unlines_contains [of "''export ROLE='' @ ct_Role cfg @ '' OS='' @ ct_OS cfg @ '' ARCH='' @ ct_Arch cfg @ '' '' @ bsl"]) simp_all
  moreover have "prefix ''#!/bin/'' ?s"
    unfolding RecoverUserData_def by (rule prefix_order.trans [OF _ unlines_hd]) simp
  ultimately show ?thesis by (simp add: credentials_def)
qed

lemma JoinMaster_credentials: "credentials cfg (USER_DATA_JOIN_MASTER cfg)"
proof -
  let ?s = "USER_DATA_JOIN_MASTER cfg"
  have "contains ?s (''TOKEN='' @ ct_Token cfg)"
    unfolding USER_DATA_JOIN_MASTER_def
    by (rule unlines_contains [of "''       TOKEN='' @ ct_Token cfg @ '' '' @ bsl"]) simp_all
  moreover have "contains ?s (''ENDPOINT='' @ ct_Endpoint cfg)"
    unfolding USER_DATA_JOIN_MASTER_def by (rule unlines_contains [of "''export ENDPOINT='' @ ct_Endpoint cfg"]) simp_all
  moreover have "contains ?s (''ROLE='' @ ct_Role cfg)"
    unfolding USER_DATA_JOIN_MASTER_def
    by (rule unlines_contains [of "''export ROLE='' @ ct_Role cfg @ '' OS='' @ ct_OS cfg @ '' ARCH='' @ ct_Arch cfg @ '' '' @ bsl"]) simp_all
  moreover have "prefix ''#!/bin/'' ?s"
    unfolding USER_DATA_JOIN_MASTER_def by (rule prefix_order.trans [OF _ unlines_hd]) simp
  ultimately show ?thesis by (simp add: credentials_def)
qed

definition roleOf :: "string \<Rightarrow> string" where
  "roleOf category = (if category = JoinMasterUserdata then ''Hybrid'' else ''Worker'')"

text \<open>
  Except for the first master, the user data an instance is given decodes to a shell script that exports
  the bootstrap token and the operator's endpoint of the cluster, and the role that fits its category:
  \<^verbatim>\<open>Hybrid\<close> for a joining master and \<^verbatim>\<open>Worker\<close> otherwise.
\<close>

lemma UserData_exports_credentials:
  assumes run: "UserData C D Y ctx category tr = (Ret (ctx', Inr s), t)" and cat: "category \<noteq> MasterUserdata"
  shows "\<exists>boot script. BootCFG ctx = Some boot \<and> DecodeString s = Inr script \<and>
     credentials (configTpl (roleOf category) boot) script"
proof -
  from run cat obtain boot script where "BootCFG ctx = Some boot" "s = EncodeToString script"
    "credentials (configTpl (roleOf category) boot) script"
    by (auto simp: UserData_def NewWorkerUserData_def NewRecoverUserData_def NewJoinMasterUserData_def andThen_Ret_iff
        deref_def roleOf_def RecoverUserdata_def JoinMasterUserdata_def WorkerUserdata_def
        split: if_splits option.splits
        intro!: WorkUserData_credentials RecoverUserData_credentials JoinMaster_credentials)
  with DecodeString_EncodeToString [of script] show ?thesis by auto
qed

end
