(* ===== verification/Node_Group.thy ===== *)
theory Node_Group
  imports User_Data
begin

text \<open>
  \<^verbatim>\<open>pkg/iaas/provider/alibaba/nodepool.go\<close>: a node pool is a scaling group with one scaling
  configuration. The group and the configuration are looked up by names that are derived from the
  pool and created when they are missing; then the group is enabled with the configuration.
\<close>

section \<open>Names\<close>

definition stackEntry :: "(string \<times> Value) list option \<Rightarrow> string \<Rightarrow> string ali" where
  "stackEntry stack k = (case map_of (case stack of None \<Rightarrow> [] | Some m \<Rightarrow> m) k of
     None \<Rightarrow> ret []
   | Some v \<Rightarrow> assert_string (val_Val v))"

definition SecrityGroup :: "(string \<times> Value) list option \<Rightarrow> string ali" where
  "SecrityGroup stack = stackEntry stack ''k8s_sg''"

definition Vswitchs :: "(string \<times> Value) list option \<Rightarrow> string ali" where
  "Vswitchs stack = stackEntry stack ''k8s_vswitch''"

definition ScalingGroupName :: "NodePool \<Rightarrow> string \<Rightarrow> string" where
  "ScalingGroupName np vpcid =
     (let name = ''nodepool.'' @ vpcid @ ''.'' @ replace_all (om_UID (np_Meta np)) ''-'' []
      in if length name > 64 then take 63 name else name)"

definition ScalingGroupCfgName :: "NodePool \<Rightarrow> string" where
  "ScalingGroupCfgName np = ''scaling-configuration-'' @ replace_all (om_UID (np_Meta np)) ''-'' []"

definition DefaultImage :: "string \<Rightarrow> string" where
  "DefaultImage ident = (if ident \<noteq> [] then ident else [])"

definition VSwitchs :: "cloud \<Rightarrow> Context \<Rightarrow> (string \<times> gerr option) ali" where
  "VSwitchs C ctx = (case BootCFG ctx of
     None \<Rightarrow> ret ([], Some (Errorf ''create nodegroup: miss cluster spec''))
   | Some boot \<Rightarrow> andThen (Vswitchs (Stack ctx)) (\<lambda>vsw.
       andThen (perform (EcsR (DescribeVSwitches (bi_Region (cs_Bind boot)) vsw)) (\<lambda>tr. c_vswitches C tr vsw)) (\<lambda>r. case r of
         Inl e \<Rightarrow> ret (vsw, Some (Wrap e ''describe vswitch''))
       | Inr [zone] \<Rightarrow> ret (''{ \"'' @ zone @ ''\": [\"'' @ vsw @ ''\"]}'', None)
       | Inr v \<Rightarrow> ret (vsw, Some (Errorf (''not exact one vswitch matched: '' @ itoa (int (length v)) @ '' by name '' @ vsw))))))"

section \<open>Creating a group\<close>

definition groupRequest :: "string \<Rightarrow> string \<Rightarrow> string \<Rightarrow> int \<Rightarrow> GroupRequest" where
  "groupRequest region gname vsw desired = \<lparr>gr_RegionId = region, gr_ScalingGroupName = gname,
     gr_MultiAZPolicy = ''COST_OPTIMIZED'', gr_VSwitchIds = [vsw], gr_MinSize = 0, gr_MaxSize = 1000,
     gr_DesiredCapacity = desired\<rparr>"

definition ensureGroup :: "cloud \<Rightarrow> Context \<Rightarrow> string \<Rightarrow> string \<Rightarrow> NodePool \<Rightarrow> (gerr + string) ali" where
  "ensureGroup C ctx region gname np =
     andThen (perform (EssR (DescribeScalingGroups region [] gname)) (\<lambda>tr. c_groups C tr [] gname)) (\<lambda>r. case r of
       Inl e \<Rightarrow> ret (Inl (Wrap e (''find scaling group '' @ gname)))
     | Inr (g # _) \<Rightarrow> ret (Inr (eg_ScalingGroupId g))
     | Inr [] \<Rightarrow> andThen (Vswitchs (Stack ctx)) (\<lambda>vsw.
         let req = groupRequest region gname vsw (inf_DesiredCapacity (nps_Infra (np_Spec np)))
         in andThen (perform (EssW (CreateScalingGroup req)) (\<lambda>tr. c_create_group C tr req)) (\<lambda>r. case r of
              Inl e \<Rightarrow> ret (Inl (Wrap e (''create scaling group, '' @ np_Name np)))
            | Inr ident \<Rightarrow> ret (Inr ident))))"

definition configRequest :: "string \<Rightarrow> string \<Rightarrow> string \<Rightarrow> ClusterSpec \<Rightarrow> string \<Rightarrow> string \<Rightarrow> NodePool \<Rightarrow> ConfigRequest" where
  "configRequest region sgrpid sg boot scfgName data np = \<lparr>cr_RegionId = region, cr_ScalingGroupId = sgrpid,
     cr_SecurityGroupId = sg, cr_RamRoleName = ''KubernetesWorkerRole-'' @ bi_ResourceId (cs_Bind boot),
     cr_SystemDiskCategory = ''cloud_essd'', cr_SystemDiskSize = 40, cr_ScalingConfigurationName = scfgName,
     cr_ImageId = DefaultImage (inf_ImageId (nps_Infra (np_Spec np))), cr_UserData = data,
     cr_Cpu = inf_CPU (nps_Infra (np_Spec np)), cr_Memory = inf_Mem (nps_Infra (np_Spec np)),
     cr_Tags = [(''wdrip.com'', np_Name np)], cr_KeyPairName = []\<rparr>"

definition ensureConfig :: "cloud \<Rightarrow> decoders \<Rightarrow> printers \<Rightarrow> Context \<Rightarrow> ClusterSpec \<Rightarrow> string \<Rightarrow> string \<Rightarrow> NodePool \<Rightarrow> (gerr + string) ali" where
  "ensureConfig C D Y ctx boot region sgrpid np = (let scfgName = ScalingGroupCfgName np in
     andThen (perform (EssR (DescribeScalingConfigurations region sgrpid [scfgName])) (\<lambda>tr. c_configs C tr sgrpid [scfgName])) (\<lambda>r. case r of
       Inl e \<Rightarrow> ret (Inl (Wrap e (''find scaling configuration, '' @ scfgName)))
     | Inr (c # _) \<Rightarrow> ret (Inr c)
     | Inr [] \<Rightarrow> andThen (SecrityGroup (Stack ctx)) (\<lambda>sg. andThen (UserData C D Y ctx WorkerUserdata) (\<lambda>(ctx, r). case r of
         Inl e \<Rightarrow> ret (Inl (Wrap e ''build work userdata''))
       | Inr data \<Rightarrow> (let req = configRequest region sgrpid sg boot scfgName data np
           in andThen (perform (EssW (CreateScalingConfiguration req)) (\<lambda>tr. c_create_config C tr req)) (\<lambda>r. case r of
                Inl e \<Rightarrow> ret (Inl (Wrap e (''create scaling configuration,'' @ sgrpid)))
              | Inr ident \<Rightarrow> ret (Inr ident)))))))"

definition enableGroup :: "cloud \<Rightarrow> BindID option \<Rightarrow> string \<Rightarrow> string \<Rightarrow> (BindID option \<times> gerr option) ali" where
  "enableGroup C bind sgrpid scfgid = andThen (change C (EssW (EnableScalingGroup sgrpid scfgid))) (\<lambda>err.
     let done = (Some \<lparr>bind_VswitchIDS = [], bind_ScalingGroupId = sgrpid, bind_ConfigurationId = scfgid\<rparr>, None)
     in case err of
          None \<Rightarrow> ret done
        | Some e \<Rightarrow> if \<not> contains (err_msg e) ''IncorrectScalingGroupStatus''
            then ret (bind, Some (Wrap e (''enable scaling group, '' @ sgrpid))) else ret done)"

definition CreateNodeGroup :: "cloud \<Rightarrow> decoders \<Rightarrow> printers \<Rightarrow> Context \<Rightarrow> NodePool \<Rightarrow> (BindID option \<times> gerr option) ali" where
  "CreateNodeGroup C D Y ctx np = (case BootCFG ctx of
     None \<Rightarrow> ret (None, Some (Errorf ''create nodegroup: miss cluster spec''))
   | Some boot \<Rightarrow> (case Stack ctx of
       None \<Rightarrow> ret (None, Some (Errorf ''stack context must be exist''))
     | Some stack \<Rightarrow> andThen (stackString (Some stack) ''k8s_vpc'') (\<lambda>vpcid.
        let bind = inf_Bind (nps_Infra (np_Spec np)); region = bi_Region (cs_Bind boot)
        in andThen (ensureGroup C ctx region (ScalingGroupName np vpcid) np) (\<lambda>r. case r of
             Inl e \<Rightarrow> ret (bind, Some e)
           | Inr sgrpid \<Rightarrow> andThen (ensureConfig C D Y ctx boot region sgrpid np) (\<lambda>r. case r of
               Inl e \<Rightarrow> ret (bind, Some e)
             | Inr scfgid \<Rightarrow> enableGroup C bind sgrpid scfgid)))))"

text \<open>
  \<^verbatim>\<open>DeleteNodeGroup\<close>: the only error it passes on is one that contains \<open>not found\<close>.
\<close>

definition DeleteNodeGroup :: "cloud \<Rightarrow> NodePool \<Rightarrow> gerr option ali" where
  "DeleteNodeGroup C np = (case inf_Bind (nps_Infra (np_Spec np)) of
     None \<Rightarrow> ret None
   | Some bind \<Rightarrow> if bind_ScalingGroupId bind \<noteq> []
       then andThen (change C (EssW (DeleteScalingGroup [] True (bind_ScalingGroupId bind)))) (\<lambda>err. case err of
           Some e \<Rightarrow> if contains (err_msg e) ''not found''
             then ret (Some (Wrap e (''delete scaling group, '' @ bind_ScalingGroupId bind))) else ret None
         | None \<Rightarrow> ret None)
       else ret None)"

definition ModifyNodeGroup :: "cloud \<Rightarrow> NodePool \<Rightarrow> gerr option ali" where
  "ModifyNodeGroup C np = (case inf_Bind (nps_Infra (np_Spec np)) of
     None \<Rightarrow> ret (Some (Errorf (''modify node group: bind empty infra, '' @ np_Name np)))
   | Some bind \<Rightarrow> change C (EssW (ModifyScalingGroup (bind_ScalingGroupId bind)
       (inf_DesiredCapacity (nps_Infra (np_Spec np))))))"

section \<open>Lemmas\<close>

lemma ScalingGroupName_length: "length (ScalingGroupName np vpcid) \<le> 64"
  by (auto simp: ScalingGroupName_def Let_def min_def)

lemma emits_stackEntry [emits_intro]: "emits A (stackEntry stack k)"
  unfolding stackEntry_def by (intro emits_intro)

text \<open>The calls that change something while a group is looked up or created.\<close>

definition createGroups :: "string \<Rightarrow> ccall set" where
  "createGroups gname = queries \<union> {EssW (CreateScalingGroup req) | req. gr_ScalingGroupName req = gname}"

definition createConfigs :: "string \<Rightarrow> string \<Rightarrow> ccall set" where
  "createConfigs sgrpid scfgName = queries \<union>
     {EssW (CreateScalingConfiguration req) | req. cr_ScalingGroupId req = sgrpid \<and> cr_ScalingConfigurationName req = scfgName}"

lemma ensureGroup_calls: "emits (createGroups gname) (ensureGroup C ctx region gname np)"
  unfolding ensureGroup_def Vswitchs_def
  by (intro emits_intro) (auto simp: createGroups_def groupRequest_def)

lemma ensureGroup_found:
  assumes "ensureGroup C ctx region gname np tr = (Ret (Inr sgrpid), t)" and "c_groups C tr [] gname = Inr (g # gs)"
  shows "sgrpid = eg_ScalingGroupId g" and "t = tr @ [EssR (DescribeScalingGroups region [] gname)]"
  using assms by (auto simp: ensureGroup_def andThen_perform)

lemma ensureConfig_calls: "emits (createConfigs sgrpid (ScalingGroupCfgName np)) (ensureConfig C D Y ctx boot region sgrpid np)"
  unfolding ensureConfig_def SecrityGroup_def Let_def
  by (intro emits_intro) (auto simp: createConfigs_def configRequest_def)

lemma enableGroup_nil:
  assumes "enableGroup C bind sgrpid scfgid tr = (Ret (b, None), t)"
  shows "t = tr @ [EssW (EnableScalingGroup sgrpid scfgid)]"
    and "b = Some \<lparr>bind_VswitchIDS = [], bind_ScalingGroupId = sgrpid, bind_ConfigurationId = scfgid\<rparr>"
  using assms by (auto simp: enableGroup_def change_def andThen_perform Let_def split: option.splits if_splits)

section \<open>Properties\<close>


definition printers0 :: printers where
  "printers0 = \<lparr>y_spec = (\<lambda>s. []), y_context = (\<lambda>c. [])\<rparr>"

definition pooled :: cloud where
  "pooled = cloud0\<lparr>c_configs := (\<lambda>tr g ns. Inr [''cfg-1''])\<rparr>"


text \<open>
  \<^verbatim>\<open>DeleteNodeGroup\<close> has its error test the wrong way round. When deleting the scaling group fails for
  any reason other than that it is gone, it reports success; when the group is already gone, it reports
  an error.
\<close>

lemma DeleteNodeGroup_inverts_error:
  assumes "inf_Bind (nps_Infra (np_Spec np)) = Some bind" and "bind_ScalingGroupId bind \<noteq> []"
    and "c_err C tr (EssW (DeleteScalingGroup [] True (bind_ScalingGroupId bind))) = Some e"
  shows "DeleteNodeGroup C np tr = (Ret (if contains (err_msg e) ''not found''
       then Some (Wrap e (''delete scaling group, '' @ bind_ScalingGroupId bind)) else None),
     tr @ [EssW (DeleteScalingGroup [] True (bind_ScalingGroupId bind))])"
  using assms by (simp add: DeleteNodeGroup_def change_def andThen_perform)

end
