(* ===== verification/Unstructured.thy ===== *)
theory Unstructured
  imports Api_Types
begin

text \<open>
  \<^verbatim>\<open>pkg/utils/unstructed/unstructed.go\<close>: reading and writing a JSON document by a path such as
  \<^verbatim>\<open>spec.containers[name:etcd].image\<close>. A step of the path names a field of an object, a string of a
  list by its prefix, or an object of a list by one of its fields. The maps of the source are mutated
  in place; here a walk answers the document it leaves behind. The parser and the printer of JSON are
  parameters, and the document is an object (\<^verbatim>\<open>null\<close>, which decodes to a nil map, is not considered).
  Values are JSON already, so that \<^verbatim>\<open>nvalue\<close>, which prints and parses a value, is the identity.
\<close>

section \<open>Documents and paths\<close>

datatype json = JNull | JBool bool | JNum string | JStr string | JList "json list"
  | JObj "(string \<times> json) list"

record field =
  fd_field :: string
  fd_name :: string
  fd_key :: string
  fd_value :: string

definition is_word :: "char \<Rightarrow> bool" where
  "is_word c \<longleftrightarrow> (let n = of_char c :: nat in
     (48 \<le> n \<and> n \<le> 57) \<or> (65 \<le> n \<and> n \<le> 90) \<or> (97 \<le> n \<and> n \<le> 122) \<or> n = 95)"

definition is_key :: "char \<Rightarrow> bool" where
  "is_key c \<longleftrightarrow> is_word c \<or> c \<in> {CHR ''-'', CHR ''='', CHR ''+'', CHR ''/'', CHR ''.''}"

definition is_blank_char :: "char \<Rightarrow> bool" where
  "is_blank_char c \<longleftrightarrow> (of_char c :: nat) \<in> {9, 10, 12, 13, 32}"

text \<open>
  The regular expression \<^verbatim>\<open>(\w*)\[(key*)\s*:*\s*(key*)\]\<close> at the front of a string. What may follow a
  repetition is never a character of the repetition itself, except that the third group has the
  characters of the second one, which has then taken all of them: no backtracking is needed.
\<close>

definition matchAt :: "string \<Rightarrow> (string \<times> string \<times> string) option" where
  "matchAt s = (let name = takeWhile is_word s; s1 = dropWhile is_word s in
     if s1 = [] \<or> hd s1 \<noteq> CHR ''['' then None
     else let key = takeWhile is_key (tl s1);
              s2 = dropWhile is_blank_char (dropWhile is_key (tl s1));
              s3 = dropWhile is_blank_char (dropWhile (\<lambda>c. c = CHR '':'') s2);
              val = takeWhile is_key s3; s4 = dropWhile is_key s3
          in if s4 \<noteq> [] \<and> hd s4 = CHR '']'' then Some (name, key, val) else None)"

text \<open>\<^verbatim>\<open>FindStringSubmatch\<close>: the leftmost match.\<close>

fun findMatch :: "string \<Rightarrow> (string \<times> string \<times> string) option" where
  "findMatch [] = None"
| "findMatch (c # s) = (case matchAt (c # s) of Some m \<Rightarrow> Some m | None \<Rightarrow> findMatch s)"

definition loadField :: "string \<Rightarrow> field" where
  "loadField subp = (case findMatch subp of
     None \<Rightarrow> \<lparr>fd_field = subp, fd_name = subp, fd_key = [], fd_value = []\<rparr>
   | Some (name, key, val) \<Rightarrow> \<lparr>fd_field = subp, fd_name = name, fd_key = key, fd_value = val\<rparr>)"

definition loadPath :: "string \<Rightarrow> field list" where
  "loadPath ppath = map loadField (split_on ppath ''.'')"

datatype value_type = MAP_VALUE | SIMPLE_SLICE | COMPLEX_SLICE

definition ValueType :: "field \<Rightarrow> value_type" where
  "ValueType f = (if fd_key f = [] \<and> fd_value f = [] then MAP_VALUE
     else if fd_key f \<noteq> [] \<and> fd_value f = [] then SIMPLE_SLICE
     else if fd_key f \<noteq> [] \<and> fd_value f \<noteq> [] then COMPLEX_SLICE else MAP_VALUE)"

section \<open>Walking a path\<close>

definition NOT_FOUND :: gerr where
  "NOT_FOUND = Errorf ''NotFound ''"

text \<open>The loop over a list of strings: a read stops at the first match, a write replaces every match.\<close>

fun simpleRead :: "string \<Rightarrow> json list \<Rightarrow> gerr + json" where
  "simpleRead key [] = Inl NOT_FOUND"
| "simpleRead key (JStr x # s) = (if prefix key x then Inr (JStr x) else simpleRead key s)"
| "simpleRead key (v # s) = Inl (Errorf ''not string slice '')"

fun simpleWrite :: "string \<Rightarrow> json \<Rightarrow> json list \<Rightarrow> gerr + (bool \<times> json list)" where
  "simpleWrite key value [] = Inr (False, [])"
| "simpleWrite key value (JStr x # s) = (case simpleWrite key value s of
     Inl e \<Rightarrow> Inl e
   | Inr (found, newv) \<Rightarrow> if prefix key x then Inr (True, value # newv) else Inr (found, JStr x # newv))"
| "simpleWrite key value (v # s) = Inl (Errorf ''not string slice '')"

definition simpleSlice :: "bool \<Rightarrow> string \<Rightarrow> json \<Rightarrow> json list \<Rightarrow> json list \<times> (gerr + json)" where
  "simpleSlice write key value s =
     (if write then (case simpleWrite key value s of
          Inl e \<Rightarrow> (s, Inl e)
        | Inr (found, newv) \<Rightarrow> (if found then newv else newv @ [value], Inr value))
      else (s, simpleRead key s))"

text \<open>
  The loop over a list of objects. Only a read in the middle of a path stops at the first match; every
  other walk goes on to the last one, replacing the matches it passes in a new list, which is stored
  only by a write at the end of the path.
\<close>

definition matchesObj :: "string \<Rightarrow> string \<Rightarrow> json \<Rightarrow> bool" where
  "matchesObj key val v = (case v of JObj x \<Rightarrow> map_of x key = Some (JStr val) | _ \<Rightarrow> False)"

definition is_obj :: "json \<Rightarrow> bool" where
  "is_obj v = (case v of JObj _ \<Rightarrow> True | _ \<Rightarrow> False)"

fun firstObj :: "string \<Rightarrow> string \<Rightarrow> json list \<Rightarrow> nat \<Rightarrow> gerr + nat option" where
  "firstObj key val [] i = Inr None"
| "firstObj key val (v # s) i = (if \<not> is_obj v then Inl (Errorf ''not string slice '')
     else if matchesObj key val v then Inr (Some i) else firstObj key val s (Suc i))"

fun lastObj :: "string \<Rightarrow> string \<Rightarrow> json list \<Rightarrow> nat \<Rightarrow> nat option \<Rightarrow> gerr + nat option" where
  "lastObj key val [] i found = Inr found"
| "lastObj key val (v # s) i found = (if \<not> is_obj v then Inl (Errorf ''not string slice '')
     else lastObj key val s (Suc i) (if matchesObj key val v then Some i else found))"

definition findObj :: "bool \<Rightarrow> bool \<Rightarrow> string \<Rightarrow> string \<Rightarrow> json list \<Rightarrow> gerr + nat option" where
  "findObj write isLast key val s =
     (if \<not> write \<and> \<not> isLast then firstObj key val s 0 else lastObj key val s 0 None)"

definition complexWrite :: "string \<Rightarrow> string \<Rightarrow> json \<Rightarrow> json list \<Rightarrow> json list" where
  "complexWrite key val value s = (let newv = map (\<lambda>v. if matchesObj key val v then value else v) s
     in if list_ex (matchesObj key val) s then newv else newv @ [value])"

text \<open>\<open>walk value write path node\<close> answers the node it leaves behind and the value at the end of the path.\<close>

fun walk :: "json \<Rightarrow> bool \<Rightarrow> field list \<Rightarrow> json \<Rightarrow> json \<times> (gerr + json)" where
  "walk value write [] val = (val, Inr val)"
| "walk value write (f # fs) val = (case ValueType f of
     MAP_VALUE \<Rightarrow> (case val of
         JObj m \<Rightarrow>
           (let m = (if fs = [] \<and> write then put m (fd_name f) value else m);
                x = (case map_of m (fd_name f) of Some x \<Rightarrow> x | None \<Rightarrow> JObj []);
                (x', r) = walk value write fs x
            in (JObj (put m (fd_name f) x'), r))
       | _ \<Rightarrow> (val, Inl (Errorf ''field not a map. '')))
   | SIMPLE_SLICE \<Rightarrow> if fs \<noteq> [] then (val, Inl (Errorf ''midle path should not be a simple slice''))
       else (case val of
           JObj m \<Rightarrow> (case map_of m (fd_name f) of
               None \<Rightarrow> (val, Inl NOT_FOUND)
             | Some (JList s) \<Rightarrow> (let (s', r) = simpleSlice write (fd_key f) value s
                 in (JObj (put m (fd_name f) (JList s')), r))
             | Some x \<Rightarrow> (val, Inl (Errorf ''not slice. '')))
         | _ \<Rightarrow> (val, Inl NOT_FOUND))
   | COMPLEX_SLICE \<Rightarrow> (case val of
         JObj m \<Rightarrow> (case map_of m (fd_name f) of
             None \<Rightarrow> (val, Inl NOT_FOUND)
           | Some (JList s) \<Rightarrow> (case findObj write (fs = []) (fd_key f) (fd_value f) s of
               Inl e \<Rightarrow> (val, Inl e)
             | Inr found \<Rightarrow> if write \<and> fs = []
                 then (JObj (put m (fd_name f) (JList (complexWrite (fd_key f) (fd_value f) value s))), Inr (JList s))
                 else (case found of
                     None \<Rightarrow> (val, Inl NOT_FOUND)
                   | Some i \<Rightarrow> (let (x', r) = walk value write fs (s ! i)
                       in (JObj (put m (fd_name f) (JList (s[i := x']))), r))))
           | Some x \<Rightarrow> (val, Inl (Errorf ''field not an complex map interface. '')))
       | _ \<Rightarrow> (val, Inl NOT_FOUND)))"

definition WalkPath :: "json \<Rightarrow> string \<Rightarrow> json \<Rightarrow> bool \<Rightarrow> json \<times> (gerr + json)" where
  "WalkPath u ppath value write = walk value write (loadPath ppath) u"

definition GetValue :: "json \<Rightarrow> string \<Rightarrow> json \<times> (json \<times> bool)" where
  "GetValue u ppath = (case WalkPath u ppath JNull False of
     (u, Inl e) \<Rightarrow> (u, (JNull, False))
   | (u, Inr v) \<Rightarrow> (u, (v, True)))"

definition SetValue :: "json \<Rightarrow> string \<Rightarrow> json \<Rightarrow> json \<times> gerr option" where
  "SetValue u ppath value = (case WalkPath u ppath value True of
     (u, Inl e) \<Rightarrow> (u, Some e)
   | (u, Inr v) \<Rightarrow> (u, None))"

definition ToUnstructured :: "(string \<Rightarrow> gerr + (string \<times> json) list) \<Rightarrow> string \<Rightarrow> gerr + json" where
  "ToUnstructured parse tpl = (case parse tpl of
     Inl e \<Rightarrow> Inl (Errorf (''not json: '' @ err_msg e))
   | Inr m \<Rightarrow> Inr (JObj m))"

definition ToJson :: "(json \<Rightarrow> gerr + string) \<Rightarrow> json \<Rightarrow> gerr + string" where
  "ToJson print u = (case print u of Inl e \<Rightarrow> Inl (Errorf (''marshal json: '' @ err_msg e)) | Inr s \<Rightarrow> Inr s)"

section \<open>Lemmas\<close>

lemma walk_map_obj:
  "ValueType f = MAP_VALUE \<Longrightarrow> walk value write (f # fs) u = (u', Inr r) \<Longrightarrow> \<exists>m. u = JObj m"
  by (cases u) auto

text \<open>
  After a successful write along fields of objects, a read along the same path finds the value and leaves
  the document as it is.
\<close>

lemma put_put: "put (put m k v) k w = put m k w"
  by (induction m) auto

lemma walk_set_get:
  assumes "list_all (\<lambda>f. ValueType f = MAP_VALUE) fs" and "fs \<noteq> []" and "walk value True fs u = (u', Inr r)"
  shows "walk JNull False fs u' = (u', Inr value)"
  using assms
proof (induction fs arbitrary: u u' r)
  case Nil
  then show ?case by simp
next
  case (Cons f fs)
  from Cons.prems(1) have f: "ValueType f = MAP_VALUE" by simp
  from walk_map_obj [OF f Cons.prems(3)] obtain m where u: "u = JObj m" by blast
  show ?case
  proof (cases "fs = []")
    case True
    with Cons.prems(3) u have "u' = JObj (put m (fd_name f) value)"
      by (auto simp: f Let_def put_put)
    with True show ?thesis by (simp add: f Let_def put_put)
  next
    case False
    define x where "x = (case map_of m (fd_name f) of Some x \<Rightarrow> x | None \<Rightarrow> JObj [])"
    obtain x' r' where w: "walk value True fs x = (x', r')" by fastforce
    from Cons.prems(3) u False w have u': "u' = JObj (put m (fd_name f) x')" and "r' = Inr r"
      by (auto simp: f Let_def x_def split: prod.splits)
    from Cons.IH [OF _ False w [unfolded \<open>r' = Inr r\<close>]] Cons.prems(1)
    have "walk JNull False fs x' = (x', Inr value)" by simp
    with False u' show ?thesis by (simp add: f Let_def put_put)
  qed
qed

lemma loadPath_not_Nil: "loadPath p \<noteq> []"
  by (simp add: loadPath_def split_on_def split_acc_not_Nil)

section \<open>Properties\<close>


definition template0 :: json where
  "template0 = JObj [(''Resources'', JObj [(''k8s_master_sconfig'', JObj [])])]"


text \<open>
  \<^verbatim>\<open>GetValue\<close> cannot tell that a field is missing: it creates it as an empty object and reports it as
  found, leaving the document changed.
\<close>

lemma GetValue_creates_missing:
  assumes "loadPath p = [f]" and "ValueType f = MAP_VALUE" and "map_of m (fd_name f) = None"
  shows "GetValue (JObj m) p = (JObj (put m (fd_name f) (JObj [])), (JObj [], True))"
  using assms by (simp add: GetValue_def WalkPath_def Let_def)

end
