(* ===== verification/Ros.thy ===== *)
theory Ros
  imports Scaling Node_Group Unstructured
begin

text \<open>
  \<^verbatim>\<open>pkg/iaas/provider/alibaba/ros.go\<close> and \<^verbatim>\<open>resource.go\<close>: the resource stack of a cluster. A stack is
  created from a template into which the user data of the masters is rendered, its resources are what
  the other operations of the provider look up by name, and a cluster is recovered by scaling its
  control plane to one instance and replacing the disk of that instance. The JSON parser and printer
  are parameters, as is the text of the built-in template. The values of a stack's outputs were decoded
  from JSON by the SDK, so that printing and parsing them again, as \<^verbatim>\<open>toMap\<close> and \<^verbatim>\<open>toActionMap\<close> do,
  gives them back.
\<close>

section \<open>Resources of a stack\<close>

definition toActionMap :: "(string \<times> goval) list \<Rightarrow> (string \<times> Value) list" where
  "toActionMap out = fold (\<lambda>(k, v) m. put m k \<lparr>val_Key = k, val_Val = v\<rparr>) out []"

definition setResourceId :: "string \<Rightarrow> ClusterId \<Rightarrow> ClusterId" where
  "setResourceId i ident = ident\<lparr>cid_Spec := (cid_Spec ident)\<lparr>cis_ResourceId := i\<rparr>\<rparr>"

text \<open>
  The stack of a cluster by name. More than one answer is narrowed to an exact match of the name; a
  single answer is taken as it is.
\<close>

definition findStack :: "cloud \<Rightarrow> Devel \<Rightarrow> string \<Rightarrow> (gerr + string) ali" where
  "findStack C n name = andThen (perform (RosR (ListStacks (Region n) [name])) (\<lambda>tr. c_stacks C tr [name])) (\<lambda>r. case r of
     Inl e \<Rightarrow> ret (Inl (Errorf (''list rsource get stack: '' @ err_msg e)))
   | Inr [] \<Rightarrow> ret (Inl (Errorf (''no stacks found by name: '' @ name)))
   | Inr [s] \<Rightarrow> ret (Inr (rs_StackId s))
   | Inr stacks \<Rightarrow> (case find (\<lambda>s. rs_StackName s = name) stacks of
       Some s \<Rightarrow> ret (Inr (rs_StackId s))
     | None \<Rightarrow> ret (Inl (Errorf (''multiple ros stacks by name: '' @ name @ '', count='' @ itoa (int (length stacks)))))))"

definition stackOutputs :: "cloud \<Rightarrow> Devel \<Rightarrow> ClusterId \<Rightarrow> (ClusterId \<times> (gerr + (string \<times> Value) list)) ali" where
  "stackOutputs C n ident = (let i = cis_ResourceId (cid_Spec ident) in
     andThen (perform (RosR (GetStack (Region n) i)) (\<lambda>tr. c_stack C tr i)) (\<lambda>r. case r of
       Inl e \<Rightarrow> ret (ident, Inl (Errorf (''list rsource get stack: '' @ err_msg e)))
     | Inr s \<Rightarrow> ret (ident, Inr (toActionMap (rs_Outputs s @ [(StackID, VStr i)])))))"

definition GetStackOutPuts :: "cloud \<Rightarrow> Devel \<Rightarrow> ClusterId \<Rightarrow> (ClusterId \<times> (gerr + (string \<times> Value) list)) ali" where
  "GetStackOutPuts C n ident =
     (if cis_ResourceId (cid_Spec ident) = []
      then if om_Name (cid_Meta ident) \<noteq> []
        then andThen (findStack C n (om_Name (cid_Meta ident))) (\<lambda>r. case r of
            Inl e \<Rightarrow> ret (ident, Inl e)
          | Inr i \<Rightarrow> stackOutputs C n (setResourceId i ident))
        else ret (ident, Inl (Errorf ''id or name must be provided.''))
      else stackOutputs C n ident)"

definition resourceMap :: "(string \<times> string) list \<Rightarrow> (string \<times> Value) list" where
  "resourceMap rs = fold (\<lambda>(k, v) m. put m k \<lparr>val_Key = k, val_Val = VStr v\<rparr>) rs []"

definition GetInfraStack :: "cloud \<Rightarrow> Devel \<Rightarrow> ClusterId \<Rightarrow> (gerr + (string \<times> Value) list) ali" where
  "GetInfraStack C n ident = (let i = cis_ResourceId (cid_Spec ident) in
     if i = [] then ret (Inl (Errorf ''EmptyStackID''))
     else andThen (perform (RosR (ListStackResources i (Region n))) (\<lambda>tr. c_stack_resources C tr i)) (\<lambda>r. case r of
       Inl e \<Rightarrow> ret (Inl (Errorf (''find resource k8s_nodes_scaling_rule fail, '' @ err_msg e)))
     | Inr rs \<Rightarrow> ret (Inr (resourceMap rs))))"

section \<open>Recovery\<close>

text \<open>
  \<^verbatim>\<open>WaitDesiredCnt\<close>: the condition appends the instances of every try to a variable of the enclosing
  function, which is never reset.
\<close>

definition desiredCond :: "cloud \<Rightarrow> Devel \<Rightarrow> string \<Rightarrow> int \<Rightarrow> Instance list \<Rightarrow> (Instance list \<times> bool \<times> gerr option) ali" where
  "desiredCond C n gid desired instances =
     andThen (perform (EssR (DescribeScalingInstances (Region n) gid)) (\<lambda>tr. c_scaling_instances C tr gid)) (\<lambda>r. case r of
       Inl e \<Rightarrow> ret (instances, False, Some e)
     | Inr mins \<Rightarrow> if mins = [] then ret (instances, False, None)
         else andThen (perform (EcsR (DescribeInstances (Region n) mins)) (\<lambda>tr. c_instances C tr mins)) (\<lambda>r. case r of
           Inl e \<Rightarrow> ret (instances, False, Some (Errorf (''instance detail call: '' @ err_msg e)))
         | Inr is \<Rightarrow> (let instances = instances @ map (instanceOf [] []) is
             in if int (length instances) \<noteq> desired then ret (instances, False, None)
                else ret (instances, True, None))))"

definition waitDesired :: "cloud \<Rightarrow> Devel \<Rightarrow> string \<Rightarrow> int \<Rightarrow> (gerr + Instance list) ali" where
  "waitDesired C n gid desired =
     andThen (pollImmediateWith C (4 * Minute) [] (desiredCond C n gid desired)) (\<lambda>(instances, err). case err of
       Some e \<Rightarrow> ret (Inl (Wrap e ''[WaitDesiredMasterCount] timeouted''))
     | None \<Rightarrow> ret (Inr instances))"

definition WaitDesiredCnt :: "cloud \<Rightarrow> Devel \<Rightarrow> Context \<Rightarrow> string \<Rightarrow> int \<Rightarrow> (gerr + Instance list) ali" where
  "WaitDesiredCnt C n ctx gid desired =
     (if gid = [] then andThen (stackString (Stack ctx) ''k8s_master_sg'') (\<lambda>gid. waitDesired C n gid desired)
      else waitDesired C n gid desired)"

text \<open>\<^verbatim>\<open>Recover\<close> answers the id it was given, or nil when waiting for the instance fails.\<close>

definition reinstallFirst :: "cloud \<Rightarrow> decoders \<Rightarrow> printers \<Rightarrow> Context \<Rightarrow> ClusterId \<Rightarrow> string \<Rightarrow> (ClusterId option \<times> gerr option) ali" where
  "reinstallFirst C D Y ctx ident eid = andThen (UserData C D Y ctx RecoverUserdata) (\<lambda>(ctx, r). case r of
     Inl e \<Rightarrow> ret (Some ident, Some (Wrap e (''build recover userdata: '' @ eid)))
   | Inr data \<Rightarrow> andThen (ReplaceSystemDisk C eid data) (\<lambda>err. case err of
       Some e \<Rightarrow> ret (Some ident, Some (Wrap e (''replace system disk: '' @ eid)))
     | None \<Rightarrow> andThen (sleep (120 * Second)) (\<lambda>_. ret (Some ident, None))))"

definition recoverOne :: "cloud \<Rightarrow> Devel \<Rightarrow> decoders \<Rightarrow> printers \<Rightarrow> Context \<Rightarrow> ClusterId \<Rightarrow> (ClusterId option \<times> gerr option) ali" where
  "recoverOne C n D Y ctx ident = andThen (WaitDesiredCnt C n ctx [] 1) (\<lambda>r. case r of
     Inl e \<Rightarrow> ret (None, Some (Wrap e ''wait desired master cnt''))
   | Inr [i] \<Rightarrow> reinstallFirst C D Y ctx ident (ins_Id i)
   | Inr is \<Rightarrow> ret (Some ident, Some (Errorf (''master ess not equal 1, actually '' @ itoa (int (length is))))))"

definition Recover :: "cloud \<Rightarrow> Devel \<Rightarrow> decoders \<Rightarrow> printers \<Rightarrow> Context \<Rightarrow> ClusterId \<Rightarrow> (ClusterId option \<times> gerr option) ali" where
  "Recover C n D Y ctx ident = andThen (GetInfraStack C n ident) (\<lambda>r. case r of
     Inl e \<Rightarrow> ret (Some ident, Some (Wrap e (''get stack infra: '' @ om_Name (cid_Meta ident))))
   | Inr stack \<Rightarrow> (let ctx = WithStack ctx (Some stack) in
       andThen (ScaleMasterGroup C n ctx [] 1) (\<lambda>err. case err of
         Some e \<Rightarrow> if \<not> contains (err_msg e) ''IncorrectCapacity.NoChange''
           then ret (Some ident, Some (Wrap e ''scaling master ess to 1''))
           else recoverOne C n D Y ctx ident
       | None \<Rightarrow> recoverOne C n D Y ctx ident)))"

section \<open>Creating and deleting a stack\<close>

record json_codec =
  j_parse :: "string \<Rightarrow> gerr + (string \<times> json) list"
  j_print :: "json \<Rightarrow> gerr + string"

definition getNotifierPart :: "json list" where
  "getNotifierPart = [JObj [(''Fn::GetAtt'', JList [JStr ''k8s_master_waiter_handle'', JStr ''CurlCli''])],
     JStr [CHR 0x0A]]"

definition getLoadBalancerPart :: "json list" where
  "getLoadBalancerPart =
     [JStr ''export INTRANET_LB='', JObj [(''Fn::GetAtt'', JList [JStr ''k8s_master_slb'', JStr ''IpAddress''])],
      JStr [CHR 0x0A], JStr ''export INTERNET_LB='',
      JObj [(''Fn::If'', JList [JStr ''create_public_slb'',
        JObj [(''Fn::GetAtt'', JList [JStr ''k8s_master_slb_internet'', JStr ''IpAddress''])], JStr []])],
      JStr [CHR 0x0A]]"

definition userDataPath :: string where
  "userDataPath = ''Resources.k8s_master_sconfig.Properties.UserData''"

text \<open>
  \<^verbatim>\<open>RenderUserData\<close>. In the branch with notification \<^verbatim>\<open>err\<close> is a variable of the branch, so that the error of
  \<^verbatim>\<open>SetValue\<close> is not the one that is looked at after it.
\<close>

definition RenderUserData :: "cloud \<Rightarrow> decoders \<Rightarrow> printers \<Rightarrow> json_codec \<Rightarrow> Context \<Rightarrow> string \<Rightarrow> bool \<Rightarrow>
    (Context \<times> (gerr + string)) ali" where
  "RenderUserData C D Y J ctx tpl withNotify = (case ToUnstructured (j_parse J) tpl of
     Inl e \<Rightarrow> ret (ctx, Inl (Errorf (''unstruct template: '' @ err_msg e)))
   | Inr uns \<Rightarrow> andThen (UserData C D Y ctx MasterUserdata) (\<lambda>(ctx, r). case r of
       Inl e \<Rightarrow> ret (ctx, Inl (Wrap e ''render master userdata''))
     | Inr data \<Rightarrow>
         (let (uns, err) = (if withNotify
            then (fst (SetValue uns (userDataPath @ ''.Fn::Join'')
              (JList [JStr [], JList ([JStr PrefixPart] @ getLoadBalancerPart @ [JStr data] @ getNotifierPart)])), None)
            else SetValue uns userDataPath (JStr (join [CHR 0x0A] [PrefixPart, data])))
          in case err of
               Some e \<Rightarrow> ret (ctx, Inl (Errorf (''set userdata: '' @ err_msg e)))
             | None \<Rightarrow> ret (ctx, ToJson (j_print J) uns))))"

definition stackParameters :: "ClusterSpec \<Rightarrow> (string \<times> string) list" where
  "stackParameters boot = [(''MasterImageId'', bi_Image (cs_Bind boot)), (''SSHFlags'', ''true''),
     (''ZoneId'', bi_ZoneId (cs_Bind boot)), (''KubernetesVersion'', unit_Version (k8s_Unit (cs_Kubernetes boot))),
     (''DockerVersion'', unit_Version (cs_Runtime boot)), (''EtcdVersion'', unit_Version (etcd_Unit (cs_Etcd boot))),
     (''MasterLoginPassword'', ''Just4Test''), (''MasterInstanceType'', bi_Instance (cs_Bind boot)),
     (''ProxyMode'', net_Mode (cs_Network boot)), (''PublicSLB'', ''true'')]"

definition Transform :: "cloud \<Rightarrow> (string \<times> string) list \<Rightarrow> (string \<times> string) list ali" where
  "Transform C para = range_of C para"

definition zeroClusterId :: ClusterId where
  "zeroClusterId = \<lparr>cid_Meta = zeroMeta, cid_Spec = \<lparr>cis_ResourceId = [], cis_ExtraRIDs = [], cis_CreatedAt = [],
     cis_UpdatedAt = [], cis_Options = None, cis_Cluster = zeroClusterSpec\<rparr>\<rparr>"

definition nowString :: "cloud \<Rightarrow> string ali" where
  "nowString C = perform (SysR SysNow) (c_now C)"

definition readTemplate :: "cloud \<Rightarrow> Devel \<Rightarrow> string \<Rightarrow> (gerr + string) ali" where
  "readTemplate C n builtin =
     (if ad_TemplateFile (dv_Cfg n) \<noteq> []
      then andThen (perform (SysR (SysReadFile (ad_TemplateFile (dv_Cfg n)))) (\<lambda>tr. c_read_file C tr (ad_TemplateFile (dv_Cfg n))))
        (\<lambda>r. case r of
          Inl e \<Rightarrow> ret (Inl (Errorf (''read Ros template file: '' @ err_msg e)))
        | Inr data \<Rightarrow> ret (Inr data))
      else ret (Inr builtin))"

text \<open>
  \<^verbatim>\<open>Create\<close>; \<open>tpl\<close> is the built-in template. The boot configuration is a pointer that rendering the user
  data updates, and the parameters are read from it before that.
\<close>

definition createStack :: "cloud \<Rightarrow> Devel \<Rightarrow> Context \<Rightarrow> (string \<times> string) list \<Rightarrow> string \<Rightarrow> (gerr + ClusterId) ali" where
  "createStack C n ctx paras rtpl = andThen (deref (BootCFG ctx)) (\<lambda>boot. andThen (Transform C paras) (\<lambda>ps.
     andThen (perform (RosW (CreateStack (Region n) (cs_ClusterID boot) rtpl ps)) (\<lambda>tr. c_create_stack C tr (cs_ClusterID boot)))
       (\<lambda>r. case r of
         Inl e \<Rightarrow> ret (Inl (Errorf (''create Ros stack: '' @ err_msg e)))
       | Inr stackId \<Rightarrow> andThen (nowString C) (\<lambda>created. andThen (nowString C) (\<lambda>updated.
           ret (Inr (zeroClusterId\<lparr>cid_Meta := zeroMeta\<lparr>om_Name := cs_ClusterID boot\<rparr>,
             cid_Spec := \<lparr>cis_ResourceId = stackId, cis_ExtraRIDs = [], cis_CreatedAt = created, cis_UpdatedAt = updated,
               cis_Options = Options ctx, cis_Cluster = boot\<rparr>\<rparr>)))))))"

definition Create :: "cloud \<Rightarrow> Devel \<Rightarrow> decoders \<Rightarrow> printers \<Rightarrow> json_codec \<Rightarrow> string \<Rightarrow> Context \<Rightarrow> (gerr + ClusterId) ali" where
  "Create C n D Y J tpl ctx = andThen (readTemplate C n tpl) (\<lambda>r. case r of
     Inl e \<Rightarrow> ret (Inl e)
   | Inr tpl \<Rightarrow> andThen (deref (BootCFG ctx)) (\<lambda>boot.
       andThen (RenderUserData C D Y J ctx tpl True) (\<lambda>(ctx, r). case r of
         Inl e \<Rightarrow> ret (Inl (Errorf (''render userdata: '' @ err_msg e)))
       | Inr rtpl \<Rightarrow> createStack C n ctx (stackParameters boot) rtpl)))"

text \<open>\<^verbatim>\<open>WaitStack\<close>: the last answer of the service is kept, also when it was an error (then it is nil).\<close>

definition stackCond :: "cloud \<Rightarrow> Devel \<Rightarrow> string \<Rightarrow> RosStack option \<Rightarrow> (RosStack option \<times> bool \<times> gerr option) ali" where
  "stackCond C n i out = andThen (perform (RosR (GetStack (Region n) i)) (\<lambda>tr. c_stack C tr i)) (\<lambda>r. case r of
     Inl e \<Rightarrow> ret (None, False, None)
   | Inr s \<Rightarrow>
       if rs_Status s \<in> {''CREATE_IN_PROGRESS'', ''CREATE_ROLLBACK_IN_PROGRESS''} then ret (Some s, False, None)
       else if rs_Status s \<in> {''CREATE_FAILED'', ''CREATE_ROLLBACK_FAILED''}
       then ret (Some s, True, Some (Errorf (''stack create failed: '' @ rs_Status s @ '', '' @ rs_StatusReason s)))
       else if rs_Status s \<in> {''CREATE_ROLLBACK_COMPLETE'', ''CREATE_COMPLETE''} then ret (Some s, True, None)
       else ret (Some s, False, None))"

definition WaitStack :: "cloud \<Rightarrow> Devel \<Rightarrow> ClusterId \<Rightarrow> (RosStack option \<times> gerr option) ali" where
  "WaitStack C n ident = pollWith C (10 * Minute) None (stackCond C n (cis_ResourceId (cid_Spec ident)))"

text \<open>
  \<^verbatim>\<open>%s\<close> of an output value; the text of a value that is not a string is the printer's \<open>show\<close>.
\<close>

definition findEndpoint :: "(goval \<Rightarrow> string) \<Rightarrow> (string \<times> goval) list \<Rightarrow> string \<Rightarrow> gerr + string" where
  "findEndpoint show out ident = (case map_of (toActionMap out) ident of
     None \<Rightarrow> Inl (Errorf ''NotFound'')
   | Some v \<Rightarrow> Inr (case val_Val v of VStr s \<Rightarrow> s | x \<Rightarrow> show x))"

definition endpointOr :: "gerr + string \<Rightarrow> string \<Rightarrow> gerr + string" where
  "endpointOr r what = (case r of
     Inr s \<Rightarrow> Inr s
   | Inl e \<Rightarrow> if \<not> contains (err_msg e) ''NotFound'' then Inl (Errorf (''find apiserver '' @ what @ '': '' @ err_msg e))
       else Inr [])"

definition SetEndpoint :: "(goval \<Rightarrow> string) \<Rightarrow> ClusterSpec \<Rightarrow> RosStack \<Rightarrow> ClusterSpec \<times> gerr option" where
  "SetEndpoint show cfg out = (case endpointOr (findEndpoint show (rs_Outputs out) ''APIServerIntranet'') ''intranet'' of
     Inl e \<Rightarrow> (cfg, Some e)
   | Inr intra \<Rightarrow> (case endpointOr (findEndpoint show (rs_Outputs out) ''APIServerInternet'') ''internet'' of
       Inl e \<Rightarrow> (cfg, Some e)
     | Inr extra \<Rightarrow> (cfg\<lparr>cs_Endpoint := \<lparr>ep_Intranet = intra, ep_Internet = extra\<rparr>\<rparr>, None)))"

definition PrintStack :: "cloud \<Rightarrow> (goval \<Rightarrow> string) \<Rightarrow> ClusterId \<Rightarrow> ClusterId ali" where
  "PrintStack C show ident = (let i = cis_ResourceId (cid_Spec ident) in
     andThen (perform (RosR (GetStack [] i)) (\<lambda>tr. c_stack C tr i)) (\<lambda>r. case r of
       Inl e \<Rightarrow> ret ident
     | Inr s \<Rightarrow> ret (ident\<lparr>cid_Spec := (cid_Spec ident)\<lparr>cis_Cluster := fst (SetEndpoint show (cis_Cluster (cid_Spec ident)) s)\<rparr>\<rparr>)))"

definition Delete :: "cloud \<Rightarrow> ClusterId \<Rightarrow> gerr option ali" where
  "Delete C ident = (let i = cis_ResourceId (cid_Spec ident) in
     if i = [] then ret (Some (Errorf ''resourceid empty, delete operation failed''))
     else andThen (change C (RosW (DeleteStack i))) (\<lambda>err. case err of
         Some e \<Rightarrow> if contains (err_msg e) ''NotFound'' then ret None
           else ret (Some (Errorf (''delete Ros stack: '' @ err_msg e)))
       | None \<Rightarrow> ret None))"

section \<open>Types of stack values\<close>

text \<open>
  The operations read the stack by type assertions, which panic unless the key is there and its value is a
  string. A stack whose values are all strings passes the assertion at every key it has.
\<close>

definition string_stack :: "(string \<times> Value) list \<Rightarrow> bool" where
  "string_stack m \<longleftrightarrow> (\<forall>(k, v) \<in> set m. \<exists>s. val_Val v = VStr s)"

lemma string_stack_put [simp]:
  "string_stack m \<Longrightarrow> string_stack (put m k \<lparr>val_Key = k', val_Val = VStr s\<rparr>)"
proof (induction m)
  case (Cons a m)
  then show ?case by (cases a) (auto simp: string_stack_def)
qed (simp add: string_stack_def)

lemma resourceMap_string_aux:
  "string_stack m \<Longrightarrow> string_stack (fold (\<lambda>(k, v) m. put m k \<lparr>val_Key = k, val_Val = VStr v\<rparr>) rs m)"
  by (induction rs arbitrary: m) auto

lemma resourceMap_string: "string_stack (resourceMap rs)"
  unfolding resourceMap_def by (rule resourceMap_string_aux) (simp add: string_stack_def)

lemma string_stack_val: "string_stack m \<Longrightarrow> k \<in> set (map fst m) \<Longrightarrow> \<exists>s. stack_val m k = VStr s"
proof -
  assume str: "string_stack m" and "k \<in> set (map fst m)"
  then obtain v where v: "map_of m k = Some v" by (cases "map_of m k") (auto simp: map_of_eq_None_iff)
  then have "(k, v) \<in> set m" by (rule map_of_SomeD)
  with str v show ?thesis by (auto simp: string_stack_def stack_val_def)
qed

lemma no_panic_stackString:
  "string_stack m \<Longrightarrow> k \<in> set (map fst m) \<Longrightarrow> no_panic (stackString (Some m) k)"
  using string_stack_val [of m k] by (auto simp: stackString_def assert_string_def intro: no_panic_intro)

lemma no_panic_stackEntry: "string_stack m \<Longrightarrow> no_panic (stackEntry (Some m) k)"
  by (auto simp: stackEntry_def string_stack_def assert_string_def intro!: no_panic_intro
      split: option.split goval.split dest!: map_of_SomeD)

lemma Stack_WithStack [simp]: "Stack (WithStack ctx s) = s"
  by (simp add: Stack_def WithStack_def)

lemma BootCFG_WithStack [simp]: "BootCFG (WithStack ctx s) = BootCFG ctx"
  by (simp add: BootCFG_def WithStack_def)

lemma no_panic_WaitActivity [no_panic_intro]: "no_panic (WaitActivity C sgid region)"
  unfolding WaitActivity_def activityDone_def by (intro no_panic_intro)

lemmas typed_intro = no_panic_intro no_panic_stackString no_panic_stackEntry

lemma no_panic_ScaleMasterGroup:
  assumes "string_stack m" and "{''k8s_master_sg'', ''k8s_master_srule''} \<subseteq> set (map fst m)"
  shows "no_panic (ScaleMasterGroup C n (WithStack ctx (Some m)) gid desired)"
  unfolding ScaleMasterGroup_def setRule_def findRule_def waitEnable_def executeMaster_def Stack_WithStack
  using assms by (intro typed_intro) auto

lemma no_panic_RemoveScalingGroupECS:
  assumes "string_stack m" and "''k8s_master_sg'' \<in> set (map fst m)"
  shows "no_panic (RemoveScalingGroupECS C n (WithStack ctx (Some m)) gid ecs)"
  unfolding RemoveScalingGroupECS_def waitEnable_def Stack_WithStack
  using assms by (intro typed_intro) auto

lemma no_panic_groupDetail [no_panic_intro]: "no_panic (groupDetail C n vpcid action gid)"
  unfolding groupDetail_def groupInstances_def by (intro no_panic_intro)

lemma no_panic_GroupDetail:
  assumes "string_stack m" and "{''k8s_vpc'', ''k8s_master_sg''} \<subseteq> set (map fst m)"
  shows "no_panic (GroupDetail C n (WithStack ctx (Some m)) gid opt)"
  unfolding GroupDetail_def Stack_WithStack option.case
  using assms by (intro typed_intro no_panic_groupDetail) auto

lemma no_panic_waitDesired [no_panic_intro]: "no_panic (waitDesired C n gid desired)"
  unfolding waitDesired_def desiredCond_def by (intro no_panic_intro)

lemma no_panic_WaitDesiredCnt:
  assumes "string_stack m" and "''k8s_master_sg'' \<in> set (map fst m)"
  shows "no_panic (WaitDesiredCnt C n (WithStack ctx (Some m)) gid desired)"
  unfolding WaitDesiredCnt_def Stack_WithStack using assms by (intro typed_intro no_panic_waitDesired) auto

lemma no_panic_WorkerUserData:
  "BootCFG ctx = Some boot \<Longrightarrow> no_panic (UserData C D Y ctx WorkerUserdata)"
  by (simp add: UserData_def NewWorkerUserData_def deref_def WorkerUserdata_def MasterUserdata_def
      JoinMasterUserdata_def no_panic_ret)

lemma no_panic_CreateNodeGroup:
  assumes "string_stack m" and "''k8s_vpc'' \<in> set (map fst m)"
  shows "no_panic (CreateNodeGroup C D Y (WithStack ctx (Some m)) np)"
proof (cases "BootCFG ctx")
  case None
  then show ?thesis by (simp add: CreateNodeGroup_def no_panic_ret)
next
  case (Some boot)
  then have "no_panic (UserData C D Y (WithStack ctx (Some m)) WorkerUserdata)"
    by (intro no_panic_WorkerUserData) simp
  with Some assms show ?thesis
    unfolding CreateNodeGroup_def ensureGroup_def ensureConfig_def enableGroup_def Vswitchs_def SecrityGroup_def
      Stack_WithStack BootCFG_WithStack option.case
    by (auto simp flip: set_map intro!: typed_intro)
qed

section \<open>Instances\<close>

text \<open>The calls that replace no disk, or only that of one instance.\<close>

definition keeps_disks :: "ccall set" where
  "keeps_disks = {c. \<forall>i img. c \<noteq> EcsW (ReplaceDisk i img)}"

definition disk_of :: "string \<Rightarrow> ccall set" where
  "disk_of eid = {c. \<forall>i img. c = EcsW (ReplaceDisk i img) \<longrightarrow> i = eid}"

lemma ReplaceSystemDisk_disk_of: "emits (disk_of eid) (ReplaceSystemDisk C eid userdata)"
  unfolding ReplaceSystemDisk_def stopFirst_def waitStopped_def updateUserdata_def replaceDisk_def attachKey_def startAgain_def
  by (intro emits_intro) (auto simp: disk_of_def)

lemma reinstallFirst_disk_of: "emits (disk_of eid) (reinstallFirst C D Y ctx ident eid)"
  unfolding reinstallFirst_def
  by (intro emits_intro ReplaceSystemDisk_disk_of) (auto simp: disk_of_def)

lemma desiredCond_queries: "emits queries (desiredCond C n gid desired s)"
  unfolding desiredCond_def by (intro emits_intro) auto

lemma WaitDesiredCnt_queries: "emits queries (WaitDesiredCnt C n ctx gid desired)"
  unfolding WaitDesiredCnt_def waitDesired_def by (intro emits_intro desiredCond_queries) auto

lemma ScaleMasterGroup_keeps_disks: "emits keeps_disks (ScaleMasterGroup C n ctx gid desired)"
  unfolding ScaleMasterGroup_def setRule_def findRule_def waitEnable_def executeMaster_def
  by (intro emits_intro) (auto simp: keeps_disks_def)

lemma GetInfraStack_queries: "emits queries (GetInfraStack C n ident)"
  unfolding GetInfraStack_def by (intro emits_intro) auto

lemma desiredCond_grows:
  "desiredCond C n gid desired s tr = (Ret (s', fin, err), t) \<Longrightarrow> length s \<le> length s'"
  by (auto simp: desiredCond_def andThen_perform Let_def split: sum.splits if_splits)

lemma desiredCond_done:
  assumes "desiredCond C n gid desired s tr = (Ret (s', True, None), t)"
  obtains mins ins where "c_scaling_instances C tr gid = Inr mins"
    and "c_instances C (tr @ [EssR (DescribeScalingInstances (Region n) gid)]) mins = Inr ins"
    and "s' = s @ map (instanceOf [] []) ins" and "int (length s') = desired"
  using assms by (auto simp: desiredCond_def andThen_perform Let_def split: sum.splits if_splits)

lemma desiredCond_again:
  "desiredCond C n gid desired s tr = (Ret (s', False, None), t) \<Longrightarrow> s' = s \<or> int (length s') \<noteq> desired"
  by (auto simp: desiredCond_def andThen_perform Let_def split: sum.splits if_splits)

text \<open>When one instance is waited for and found, it is the only one of the last listing.\<close>

lemma waitDesired_one:
  assumes "waitDesired C n gid 1 tr = (Ret (Inr [x]), t)"
  obtains t0 mins i where "prefix tr t0" and "c_scaling_instances C t0 gid = Inr mins"
    and "c_instances C (t0 @ [EssR (DescribeScalingInstances (Region n) gid)]) mins = Inr [i]" and "x = instanceOf [] [] i"
proof -
  from assms have "pollImmediateWith C (4 * Minute) [] (desiredCond C n gid 1) tr = (Ret ([x], None), t)"
    by (auto simp: waitDesired_def andThen_Ret_iff split: option.splits)
  from pollImmediateWith_done [where I = "\<lambda>s. length s \<noteq> 1", OF this desiredCond_queries] obtain s t0 where
    s: "length s \<noteq> 1" and t0: "prefix tr t0" "desiredCond C n gid 1 s t0 = (Ret ([x], True, None), t)"
    using desiredCond_again [of C n gid 1] by fastforce
  from t0(2) obtain mins ins where l: "c_scaling_instances C t0 gid = Inr mins"
    "c_instances C (t0 @ [EssR (DescribeScalingInstances (Region n) gid)]) mins = Inr ins"
    "[x] = s @ map (instanceOf [] []) ins" by (rule desiredCond_done) auto
  from l(3) s obtain i where "ins = [i]" "x = instanceOf [] [] i"
    by (cases s) auto
  with t0(1) l show thesis by (intro that) auto
qed

lemma recoverOne_single:
  assumes c: "EcsW (ReplaceDisk i img) \<in> set (new_calls (recoverOne C n D Y (WithStack ctx (Some stack)) ident) tr)"
  obtains gid t0 mins ins where "stack_val stack ''k8s_master_sg'' = VStr gid" and "prefix tr t0"
    and "c_scaling_instances C t0 gid = Inr mins"
    and "c_instances C (t0 @ [EssR (DescribeScalingInstances (Region n) gid)]) mins = Inr [ins]"
    and "i = ei_InstanceId ins"
proof -
  let ?ctx = "WithStack ctx (Some stack)" and ?c = "EcsW (ReplaceDisk i img)"
  have reinstall: "emits UNIV (reinstallFirst C D Y ?ctx ident eid)" for eid
    by (rule emits_mono [OF reinstallFirst_disk_of]) simp
  obtain r t where wait: "WaitDesiredCnt C n ?ctx [] 1 tr = (Ret r, t)"
    and late: "?c \<in> set (new_calls (case r of
         Inl e \<Rightarrow> ret (None, Some (Wrap e ''wait desired master cnt''))
       | Inr [i] \<Rightarrow> reinstallFirst C D Y ?ctx ident (ins_Id i)
       | Inr is \<Rightarrow> ret (Some ident, Some (Errorf (''master ess not equal 1, actually '' @ itoa (int (length is)))))) t)"
    by (rule late_call [OF WaitDesiredCnt_queries _ _ c [unfolded recoverOne_def]])
      (auto intro!: emits_intro reinstall)
  from late obtain x where r: "r = Inr [x]" and disk: "?c \<in> set (new_calls (reinstallFirst C D Y ?ctx ident (ins_Id x)) t)"
    by (auto simp: new_calls_ret split: sum.splits list.splits)
  from emits_new_calls [OF reinstallFirst_disk_of] disk have i: "i = ins_Id x" by (fastforce simp: disk_of_def)
  from wait obtain gid t' where s: "stackString (Some stack) ''k8s_master_sg'' tr = (Ret gid, t')"
    and w: "waitDesired C n gid 1 t' = (Ret (Inr [x]), t)"
    by (auto simp: WaitDesiredCnt_def andThen_Ret_iff r)
  from stackString_run [OF s] have gid: "t' = tr" "stack_val stack ''k8s_master_sg'' = VStr gid" by auto
  from w [unfolded gid] show thesis by (rule waitDesired_one) (use gid i that in \<open>auto simp: instanceOf_def\<close>)
qed

lemma recoverOne_emits [emits_intro]: "emits UNIV (recoverOne C n D Y ctx ident)"
  unfolding recoverOne_def
  by (intro emits_intro emits_mono [OF reinstallFirst_disk_of] emits_mono [OF WaitDesiredCnt_queries]) auto

lemma ScaleMasterGroup_emits: "emits UNIV (ScaleMasterGroup C n ctx gid desired)"
  by (rule emits_mono [OF ScaleMasterGroup_keeps_disks]) simp

lemma GetInfraStack_Ret:
  assumes "GetInfraStack C n ident tr = (Ret (Inr stack), t)"
  obtains rs where "c_stack_resources C tr (cis_ResourceId (cid_Spec ident)) = Inr rs" and "stack = resourceMap rs"
  using assms by (auto simp: GetInfraStack_def Let_def andThen_perform split: sum.splits if_splits)

definition recoverExample :: ClusterId where
  "recoverExample = setResourceId ''stack-1'' zeroClusterId"

definition oneMaster :: cloud where
  "oneMaster = cloud0\<lparr>c_scaling_instances := (\<lambda>tr g. Inr [''i-1''])\<rparr>"

definition threeMasters :: cloud where
  "threeMasters = cloud0\<lparr>c_scaling_instances := (\<lambda>tr g. Inr [''i-1'', ''i-2'', ''i-3''])\<rparr>"

text \<open>An example run of the recovery, in which the disk of the only master is replaced.\<close>

lemma ReplaceSystemDisk_oneMaster:
  "EcsW (ReplaceDisk ''i-1'' ''img-1'') \<in> set (snd (ReplaceSystemDisk oneMaster ''i-1'' userdata tr))"
proof -
  have "\<exists>t. ReplaceSystemDisk oneMaster ''i-1'' userdata tr = replaceDisk oneMaster (ecs0 ''i-1'') ''i-1'' t"
    by (auto simp: ReplaceSystemDisk_def stopFirst_def waitStopped_def updateUserdata_def WaitECS_def waitStatus.simps
        sleep_def change_def oneMaster_def cloud0_def run_simps ecs0_def)
  then obtain t where t: "ReplaceSystemDisk oneMaster ''i-1'' userdata tr = replaceDisk oneMaster (ecs0 ''i-1'') ''i-1'' t" ..
  obtain new where "snd (replaceDisk oneMaster (ecs0 ''i-1'') ''i-1'' t) = t @ EcsW (ReplaceDisk ''i-1'' (ei_ImageId (ecs0 ''i-1''))) # new"
    by (rule replaceDisk_run)
  with t show ?thesis by (simp add: ecs0_def)
qed

lemma reinstallFirst_oneMaster:
  "EcsW (ReplaceDisk ''i-1'' ''img-1'')
     \<in> set (snd (reinstallFirst oneMaster (decoders0 dev0) printers0 (WithStack context0 s) ident ''i-1'' tr))"
proof -
  have "\<exists>userdata t. UserData oneMaster (decoders0 dev0) printers0 (WithStack context0 s) RecoverUserdata tr =
      (Ret (WithStack context0 s, Inr userdata), t)"
    by (simp add: UserData_def NewRecoverUserData_def MasterUserdata_def JoinMasterUserdata_def WorkerUserdata_def
        RecoverUserdata_def context0_def WithStack_def BootCFG_def Options_def deref_def BuildContexCFG_def run_simps
        HomeDir_def fileContext_def cloudHost_def oneMaster_def cloud0_def)
  then obtain userdata t where ud: "UserData oneMaster (decoders0 dev0) printers0 (WithStack context0 s) RecoverUserdata tr =
      (Ret (WithStack context0 s, Inr userdata), t)" by blast
  let ?f = "\<lambda>err. case err of Some e \<Rightarrow> ret (Some ident, Some (Wrap e ''replace system disk: i-1''))
     | None \<Rightarrow> andThen (sleep (120 * Second)) (\<lambda>_. ret (Some ident, None))"
  have "emits UNIV (?f err)" for err by (intro emits_intro) simp
  then have "prefix (snd (ReplaceSystemDisk oneMaster ''i-1'' userdata t))
      (snd (andThen (ReplaceSystemDisk oneMaster ''i-1'' userdata) ?f t))" by (rule prefix_andThen)
  with ReplaceSystemDisk_oneMaster ud show ?thesis
    by (auto simp: reinstallFirst_def andThen_apply dest: set_mono_prefix)
qed

lemma Recover_oneMaster:
  "EcsW (ReplaceDisk ''i-1'' ''img-1'')
     \<in> set (new_calls (Recover oneMaster devel0 (decoders0 dev0) printers0 context0 recoverExample) [])"
proof -
  have "case GetInfraStack oneMaster devel0 recoverExample [] of
      (Ret (Inr stack), t) \<Rightarrow> (case ScaleMasterGroup oneMaster devel0 (WithStack context0 (Some stack)) [] 1 t of
        (Ret None, t1) \<Rightarrow> (case WaitDesiredCnt oneMaster devel0 (WithStack context0 (Some stack)) [] 1 t1 of
          (Ret (Inr [x]), t2) \<Rightarrow> ins_Id x = ''i-1'' | _ \<Rightarrow> False) | _ \<Rightarrow> False) | _ \<Rightarrow> False"
    by code_simp
  then obtain stack t where s: "GetInfraStack oneMaster devel0 recoverExample [] = (Ret (Inr stack), t)"
    and k: "case ScaleMasterGroup oneMaster devel0 (WithStack context0 (Some stack)) [] 1 t of
        (Ret None, t1) \<Rightarrow> (case WaitDesiredCnt oneMaster devel0 (WithStack context0 (Some stack)) [] 1 t1 of
          (Ret (Inr [x]), t2) \<Rightarrow> ins_Id x = ''i-1'' | _ \<Rightarrow> False) | _ \<Rightarrow> False"
    by (cases "GetInfraStack oneMaster devel0 recoverExample []") (simp split: outcome.splits sum.splits)
  from k obtain t1 where s1: "ScaleMasterGroup oneMaster devel0 (WithStack context0 (Some stack)) [] 1 t = (Ret None, t1)"
    and k1: "case WaitDesiredCnt oneMaster devel0 (WithStack context0 (Some stack)) [] 1 t1 of
          (Ret (Inr [x]), t2) \<Rightarrow> ins_Id x = ''i-1'' | _ \<Rightarrow> False"
    by (cases "ScaleMasterGroup oneMaster devel0 (WithStack context0 (Some stack)) [] 1 t")
      (simp split: outcome.splits option.splits)
  from k1 obtain x t2 where
    "WaitDesiredCnt oneMaster devel0 (WithStack context0 (Some stack)) [] 1 t1 = (Ret (Inr [x]), t2)" "ins_Id x = ''i-1''"
    by (cases "WaitDesiredCnt oneMaster devel0 (WithStack context0 (Some stack)) [] 1 t1")
      (simp split: outcome.splits sum.splits list.splits)
  with s s1 have "Recover oneMaster devel0 (decoders0 dev0) printers0 context0 recoverExample [] =
      reinstallFirst oneMaster (decoders0 dev0) printers0 (WithStack context0 (Some stack)) recoverExample ''i-1'' t2"
    by (simp add: Recover_def recoverOne_def andThen_apply Let_def)
  then show ?thesis using reinstallFirst_oneMaster by (simp add: new_calls_def)
qed

section \<open>Properties\<close>

text \<open>
  C13: type safety of the stack. The operations on scaling groups read entries of the cluster's stack by
  type assertions to string, which panic on a missing entry or a value of another type. On the stack that
  GetInfraStack returns every value is a string, so that when the entries of the VPC, the control-plane
  group and its rule are there, none of ScaleMasterGroup, RemoveScalingGroupECS, ScalingGroupDetail,
  WaitDesiredCnt and CreateNodeGroup panics, whatever their arguments and the cloud's answers are.
\<close>
theorem GetInfraStack_type_safe:
  assumes "GetInfraStack C n ident tr = (Ret (Inr stack), t)"
    and "{''k8s_vpc'', ''k8s_master_sg'', ''k8s_master_srule''} \<subseteq> set (map fst stack)"
  shows "no_panic (ScaleMasterGroup C' n' (WithStack ctx (Some stack)) gid desired) \<and>
    no_panic (RemoveScalingGroupECS C' n' (WithStack ctx (Some stack)) gid ecs) \<and>
    no_panic (GroupDetail C' n' (WithStack ctx (Some stack)) gid opt) \<and>
    no_panic (WaitDesiredCnt C' n' (WithStack ctx (Some stack)) gid desired) \<and>
    no_panic (CreateNodeGroup C' D Y (WithStack ctx (Some stack)) np)"
proof -
  from assms(1) obtain rs where "stack = resourceMap rs" by (rule GetInfraStack_Ret)
  then have "string_stack stack" by (simp add: resourceMap_string)
  with assms(2) show ?thesis
    by (intro conjI no_panic_ScaleMasterGroup no_panic_RemoveScalingGroupECS no_panic_GroupDetail
        no_panic_WaitDesiredCnt no_panic_CreateNodeGroup) auto
qed

theorem GetInfraStack_type_safe_witness:
  "\<exists>stack t. GetInfraStack cloud0 devel0 recoverExample [] = (Ret (Inr stack), t) \<and>
    no_panic (ScaleMasterGroup cloud0 devel0 (WithStack context0 (Some stack)) [] 3)"
proof -
  have run: "GetInfraStack cloud0 devel0 recoverExample [] = (Ret (Inr (resourceMap [(''k8s_vpc'', ''vpc-1''),
      (''k8s_master_sg'', ''g-1''), (''k8s_master_srule'', ''r-1''), (''k8s_master_sconfig'', ''cfg-1''),
      (''k8s_vswitch'', ''vsw-1''), (''k8s_sg'', ''sg-1'')])), [RosR (ListStackResources ''stack-1'' (Region devel0))])"
    by (simp add: GetInfraStack_def recoverExample_def setResourceId_def cloud0_def zeroClusterId_def run_simps andThen_perform)
  have "{''k8s_vpc'', ''k8s_master_sg'', ''k8s_master_srule''} \<subseteq> set (map fst (resourceMap [(''k8s_vpc'', ''vpc-1''),
      (''k8s_master_sg'', ''g-1''), (''k8s_master_srule'', ''r-1''), (''k8s_master_sconfig'', ''cfg-1''),
      (''k8s_vswitch'', ''vsw-1''), (''k8s_sg'', ''sg-1'')]))"
    by code_simp
  from GetInfraStack_type_safe [OF run this, of cloud0 devel0 context0 "[]" 3] run show ?thesis by blast
qed

text \<open>
  C5: recovering a cluster reinstalls at most its only master. Whenever Recover replaces the system disk of
  an instance, that instance was the single member of the last listing of the control-plane group named by
  the cluster's own stack: the other members had been scaled away before, and no disk of a group with
  more members, or of another group, is replaced.
\<close>
theorem Recover_single_master:
  assumes c: "EcsW (ReplaceDisk i img) \<in> set (new_calls (Recover C n D Y ctx ident) tr)"
  shows "\<exists>rs gid t0 mins ins. c_stack_resources C tr (cis_ResourceId (cid_Spec ident)) = Inr rs \<and>
    stack_val (resourceMap rs) ''k8s_master_sg'' = VStr gid \<and> prefix tr t0 \<and>
    c_scaling_instances C t0 gid = Inr mins \<and>
    c_instances C (t0 @ [EssR (DescribeScalingInstances (Region n) gid)]) mins = Inr [ins] \<and>
    i = ei_InstanceId ins"
proof -
  let ?c = "EcsW (ReplaceDisk i img)"
  have notin: "?c \<notin> queries" "?c \<notin> keeps_disks" by (auto simp: keeps_disks_def)
  obtain r t where infra: "GetInfraStack C n ident tr = (Ret r, t)" "prefix tr t"
    and c1: "?c \<in> set (new_calls (case r of
         Inl e \<Rightarrow> ret (Some ident, Some (Wrap e (''get stack infra: '' @ om_Name (cid_Meta ident))))
       | Inr stack \<Rightarrow> (let ctx = WithStack ctx (Some stack) in
           andThen (ScaleMasterGroup C n ctx [] 1) (\<lambda>err. case err of
             Some e \<Rightarrow> if \<not> contains (err_msg e) ''IncorrectCapacity.NoChange''
               then ret (Some ident, Some (Wrap e ''scaling master ess to 1''))
               else recoverOne C n D Y ctx ident
           | None \<Rightarrow> recoverOne C n D Y ctx ident))) t)"
    by (rule late_call [OF GetInfraStack_queries _ _ c [unfolded Recover_def]])
      (auto intro!: emits_intro ScaleMasterGroup_emits)
  from c1 obtain stack where r: "r = Inr stack" by (cases r) (auto simp: new_calls_ret)
  from infra(1) [unfolded r] obtain rs where rs: "c_stack_resources C tr (cis_ResourceId (cid_Spec ident)) = Inr rs"
    "stack = resourceMap rs" by (rule GetInfraStack_Ret)
  obtain err t1 where t1: "prefix t t1"
    and c2: "?c \<in> set (new_calls (case err of
             Some e \<Rightarrow> if \<not> contains (err_msg e) ''IncorrectCapacity.NoChange''
               then ret (Some ident, Some (Wrap e ''scaling master ess to 1''))
               else recoverOne C n D Y (WithStack ctx (Some stack)) ident
           | None \<Rightarrow> recoverOne C n D Y (WithStack ctx (Some stack)) ident) t1)"
    by (rule late_call [OF ScaleMasterGroup_keeps_disks notin(2) _ c1 [unfolded r sum.case Let_def]])
      (auto intro!: emits_intro)
  then have "?c \<in> set (new_calls (recoverOne C n D Y (WithStack ctx (Some stack)) ident) t1)"
    by (auto simp: new_calls_ret split: option.splits if_splits)
  then obtain gid t0 mins ins where "stack_val stack ''k8s_master_sg'' = VStr gid" "prefix t1 t0"
    "c_scaling_instances C t0 gid = Inr mins"
    "c_instances C (t0 @ [EssR (DescribeScalingInstances (Region n) gid)]) mins = Inr [ins]"
    "i = ei_InstanceId ins" by (rule recoverOne_single)
  moreover from infra(2) t1 this(2) have "prefix tr t0" by (meson prefix_order.trans)
  ultimately show ?thesis using rs by blast
qed

theorem Recover_single_master_witness:
  "\<exists>rs gid t0 mins ins. c_stack_resources oneMaster [] ''stack-1'' = Inr rs \<and>
    stack_val (resourceMap rs) ''k8s_master_sg'' = VStr gid \<and> prefix [] t0 \<and>
    c_scaling_instances oneMaster t0 gid = Inr mins \<and>
    c_instances oneMaster (t0 @ [EssR (DescribeScalingInstances (Region devel0) gid)]) mins = Inr [ins] \<and>
    ''i-1'' = ei_InstanceId ins"
  using Recover_single_master [OF Recover_oneMaster] by (simp add: recoverExample_def setResourceId_def)

text \<open>
  C39: waiting for a number of instances cannot succeed once a listing had too many. WaitDesiredCnt appends
  every listing to the instances found before, so that when the first listing has more instances than
  desired the call ends with an error, even if the group shrinks to the desired number later.
\<close>
theorem WaitDesiredCnt_overshoot:
  assumes "gid \<noteq> []" and "c_scaling_instances C tr gid = Inr mins" and "mins \<noteq> []"
    and "c_instances C (tr @ [EssR (DescribeScalingInstances (Region n) gid)]) mins = Inr ins"
    and "desired < int (length ins)"
  shows "\<exists>e t. WaitDesiredCnt C n ctx gid desired tr = (Ret (Inl e), t)"
proof -
  let ?s = "map (instanceOf [] []) ins" and ?I = "\<lambda>s. desired < int (length s)"
  let ?t = "tr @ [EssR (DescribeScalingInstances (Region n) gid), EcsR (DescribeInstances (Region n) mins)]"
  have first: "desiredCond C n gid desired [] tr = (Ret (?s, False, None), ?t)"
    using assms(2-5) by (simp add: desiredCond_def andThen_perform Let_def)
  have keep: "\<forall>s tr s' t. ?I s \<longrightarrow> desiredCond C n gid desired s tr = (Ret (s', False, None), t) \<longrightarrow> ?I s'"
    by (auto dest: desiredCond_grows)
  have never: False if "waitDesired C n gid desired tr = (Ret (Inr l), t)" for l t
  proof -
    note ok = that
    from ok have "pollImmediateWith C (4 * Minute) [] (desiredCond C n gid desired) tr = (Ret (l, None), t)"
      by (auto simp: waitDesired_def andThen_Ret_iff split: option.splits)
    with first have "pollTicksWith (c_ticks C ?t) ?s (desiredCond C n gid desired) (?t @ [SysR (SysTimer (4 * Minute))])
        = (Ret (l, None), t)"
      by (simp add: pollImmediateWith_def pollWith_def andThen_apply run_simps)
    from pollTicksWith_done [where I = ?I, OF this desiredCond_queries _ keep] assms(5) obtain u t0 where
      "?I u" "desiredCond C n gid desired u t0 = (Ret (l, True, None), t)" by auto
    then show False by (metis desiredCond_done desiredCond_grows leD of_nat_le_iff)
  qed
  from no_panic_waitDesired obtain r t where r: "waitDesired C n gid desired tr = (Ret r, t)"
    unfolding no_panic_def by (metis prod.exhaust_sel)
  with never assms(1) show ?thesis by (cases r) (auto simp: WaitDesiredCnt_def)
qed

theorem WaitDesiredCnt_overshoot_witness:
  "\<exists>e t. WaitDesiredCnt threeMasters devel0 context0 ''g-1'' 1 [] = (Ret (Inl e), t)"
  by (rule WaitDesiredCnt_overshoot [where mins = "[''i-1'', ''i-2'', ''i-3'']"
        and ins = "map ecs0 [''i-1'', ''i-2'', ''i-3'']"])
    (simp_all add: threeMasters_def cloud0_def)

end
