(* ===== verification/Iaas.thy ===== *)
theory Iaas
  imports Ros Index Triple
begin

text \<open>
  \<^verbatim>\<open>pkg/iaas/iaas.go\<close>: what the command line does to a cluster. Every operation initialises a provider
  context, finds the record of the cluster in the object storage and calls the provider. The provider is
  the interface \<^verbatim>\<open>provider.Interface\<close> of the calls of \<open>World\<close>, its object storage that of \<open>Storage\<close> with the
  bucket of the provider's configuration. The editor that \<^verbatim>\<open>Edit\<close> starts is a parameter. The checks for a nil
  provider after \<^verbatim>\<open>ctx.Provider()\<close> are left out: that method panics before they are reached.
\<close>

section \<open>Operations\<close>

record CommandLineArgs =
  cl_ForceDelete :: bool
  cl_InstanceID :: string
  cl_Command :: string
  cl_NodePoolID :: string

definition storeOf :: "env \<Rightarrow> Devel \<Rightarrow> ObjectStorage" where
  "storeOf E pvd = ossStore E (ad_BucketName (dv_Cfg pvd))"

text \<open>The first lines of every operation, up to the provider; the options are shared with the context.\<close>

definition withContext :: "env \<Rightarrow> decoders \<Rightarrow> string \<Rightarrow> (gerr \<Rightarrow> 'a) \<Rightarrow> WdripOptions \<Rightarrow>
    (Context \<Rightarrow> WdripOptions \<Rightarrow> Devel \<Rightarrow> 'a eff) \<Rightarrow> 'a eff" where
  "withContext E D msg fail opts k = andThen (NewContext (envHost E D) opts None) (\<lambda>(ctx, opts, err). case err of
     Some e \<Rightarrow> ret (fail (Wrap e msg))
   | None \<Rightarrow> andThen (Provider_of ctx) (k ctx opts))"

definition initMsg :: string where "initMsg = ''initialize wdrip context''"

definition onCluster :: "(ClusterSpec \<Rightarrow> ClusterSpec) \<Rightarrow> ClusterId \<Rightarrow> ClusterId" where
  "onCluster f ident = ident\<lparr>cid_Spec := (cid_Spec ident)\<lparr>cis_Cluster := f (cis_Cluster (cid_Spec ident))\<rparr>\<rparr>"

definition touch :: "string \<Rightarrow> ClusterId \<Rightarrow> ClusterId" where
  "touch t ident = ident\<lparr>cid_Spec := (cid_Spec ident)\<lparr>cis_UpdatedAt := t\<rparr>\<rparr>"

text \<open>
  \<^verbatim>\<open>time.Now().Format("2006-01-02T15:04:05")\<close>: the layout of \<^verbatim>\<open>help.Now\<close> without its last character, a literal Z.
\<close>

definition timeNow :: "env \<Rightarrow> string eff" where
  "timeNow E = andThen (now E) (\<lambda>n. ret (butlast (e_format_time E n)))"

text \<open>\<^verbatim>\<open>Recover\<close>: what the cluster takes over from another one, and what it keeps.\<close>

definition recoverSpec :: "ClusterSpec \<Rightarrow> ClusterSpec \<Rightarrow> ClusterSpec" where
  "recoverSpec source own = source\<lparr>cs_Endpoint := cs_Endpoint own, cs_ClusterID := cs_ClusterID own,
     cs_Bind := (cs_Bind source)\<lparr>bi_Provider := bi_Provider (cs_Bind own), bi_Region := bi_Region (cs_Bind own),
       bi_ResourceId := bi_ResourceId (cs_Bind own)\<rparr>\<rparr>"

definition recoverFrom :: "env \<Rightarrow> codec \<Rightarrow> Devel \<Rightarrow> WdripOptions \<Rightarrow> ClusterId \<Rightarrow> (gerr + ClusterId) eff" where
  "recoverFrom E K pvd cfg ident =
     (if wo_RecoverFrom cfg \<noteq> wo_ClusterName cfg
      then andThen (GetCluster K (NewClusterIndex (wo_RecoverFrom cfg) (storeOf E pvd)) (wo_RecoverFrom cfg)) (\<lambda>r. case r of
          Inl e \<Rightarrow> ret (Inl (Wrap e (''no cluster found by name '' @ wo_ClusterName cfg)))
        | Inr source \<Rightarrow> ret (Inr (onCluster (recoverSpec (cis_Cluster (cid_Spec source))) ident)))
      else ret (Inr ident))"

definition RecoverCluster :: "env \<Rightarrow> decoders \<Rightarrow> codec \<Rightarrow> WdripOptions \<Rightarrow> gerr option eff" where
  "RecoverCluster E D K cfg = withContext E D initMsg Some cfg (\<lambda>ctx cfg pvd.
     andThen (GetCluster K (NewClusterIndex (wo_ClusterName cfg) (storeOf E pvd)) (wo_ClusterName cfg)) (\<lambda>r. case r of
       Inl e \<Rightarrow> ret (Some (Wrap e (''no cluster found by name '' @ wo_ClusterName cfg)))
     | Inr ident \<Rightarrow> andThen (recoverFrom E K pvd cfg ident) (\<lambda>r. case r of
         Inl e \<Rightarrow> ret (Some e)
       | Inr ident \<Rightarrow> do_call E (PRecover ident))))"

definition SetDefaultCA :: "env \<Rightarrow> ClusterSpec \<Rightarrow> ClusterSpec eff" where
  "SetDefaultCA E spec = (case k8s_RootCA (cs_Kubernetes spec) of
     Some _ \<Rightarrow> ret spec
   | None \<Rightarrow> andThen (signCert E ''SelfSignedPair'' []) (\<lambda>r. case r of
       Inl e \<Rightarrow> panic ''new self signed cert pair fail''
     | Inr root \<Rightarrow> ret (spec\<lparr>cs_Kubernetes := (cs_Kubernetes spec)\<lparr>k8s_RootCA := Some root\<rparr>\<rparr>)))"

definition newCluster :: "WdripOptions \<Rightarrow> ClusterSpec \<Rightarrow> string \<Rightarrow> string \<Rightarrow> ClusterId" where
  "newCluster cfg bootcfg created updated = \<lparr>cid_Meta = zeroMeta\<lparr>om_Name := cs_ClusterID bootcfg\<rparr>,
     cid_Spec = \<lparr>cis_ResourceId = [], cis_ExtraRIDs = [], cis_CreatedAt = created, cis_UpdatedAt = updated,
       cis_Options = Some cfg, cis_Cluster = bootcfg\<rparr>\<rparr>"

text \<open>
  \<^verbatim>\<open>Create\<close> after the record is known to be missing. The second save, of the id the provider answers, may
  fail without consequence.
\<close>

definition createNew :: "env \<Rightarrow> codec \<Rightarrow> ClusterIndex \<Rightarrow> ClusterSpec \<Rightarrow> ClusterId \<Rightarrow> gerr option eff" where
  "createNew E K indexer bootcfg ident = andThen (SaveCluster K indexer ident) (\<lambda>err. case err of
     Some e \<Rightarrow> ret (Some (Wrap e (''create cluster: '' @ om_Name (cid_Meta ident))))
   | None \<Rightarrow> andThen (perform (PCreate bootcfg) (\<lambda>tr. e_create_cluster E tr bootcfg)) (\<lambda>r. case r of
       Inl e \<Rightarrow> andThen (deref (bi_Provider (cs_Bind bootcfg))) (\<lambda>p.
         ret (Some (Errorf (''call provider ['' @ prvd_Name p @ ''] create: '' @ err_msg e))))
     | Inr nid \<Rightarrow> andThen (SaveCluster K indexer nid) (\<lambda>_. ret None)))"

definition createWith :: "env \<Rightarrow> codec \<Rightarrow> WdripOptions \<Rightarrow> Devel \<Rightarrow> ClusterSpec \<Rightarrow> gerr option eff" where
  "createWith E K cfg pvd bootcfg = andThen (SetDefaultCA E bootcfg) (\<lambda>bootcfg.
     andThen (timeNow E) (\<lambda>created. andThen (timeNow E) (\<lambda>updated.
       let ident = newCluster cfg bootcfg created updated;
           indexer = NewClusterIndex (cs_ClusterID bootcfg) (storeOf E pvd)
       in andThen (GetCluster K indexer (cs_ClusterID bootcfg)) (\<lambda>r. case r of
            Inr _ \<Rightarrow> ret (Wrapf None (''cluster ['' @ cs_ClusterID bootcfg @ ''] already exists''))
          | Inl e \<Rightarrow> if \<not> contains (err_msg e) ''NoSuchKey'' then ret (Some (Wrap e ''create cluster''))
              else createNew E K indexer bootcfg ident))))"

definition CreateCluster :: "env \<Rightarrow> decoders \<Rightarrow> codec \<Rightarrow> WdripOptions \<Rightarrow> gerr option eff" where
  "CreateCluster E D K cfg = withContext E D initMsg Some cfg (\<lambda>ctx cfg pvd.
     andThen (deref (BootCFG ctx)) (createWith E K cfg pvd))"

definition deletePools :: "env \<Rightarrow> NodePool list \<Rightarrow> gerr option eff" where
  "deletePools E nodepools = forM nodepools (\<lambda>np. andThen (do_call E (PDeleteNodeGroup np)) (\<lambda>err. case err of
     Some e \<Rightarrow> ret (Some (Wrap e (''delete nodegroup '' @ np_Name np @ '' failed'')))
   | None \<Rightarrow> ret None))"

definition deleteFound :: "env \<Rightarrow> codec \<Rightarrow> ObjectStorage \<Rightarrow> string \<Rightarrow> bool \<Rightarrow> ClusterId \<Rightarrow> gerr option eff" where
  "deleteFound E K store name force ident =
     andThen (ListNodePools K (NewNodePoolIndex name store) []) (\<lambda>r. case r of
       Inl e \<Rightarrow> ret (Some (Wrap e ''get nodepool oss backups''))
     | Inr nodepools \<Rightarrow> andThen (deletePools E nodepools) (\<lambda>err. case err of
         Some e \<Rightarrow> ret (Some e)
       | None \<Rightarrow> andThen (do_call E (PDelete ident)) (\<lambda>err. case err of
           Some e \<Rightarrow> if force then RemoveCluster (NewClusterIndex name store) name
             else ret (Some (Errorf (''delete cluster: '' @ err_msg e)))
         | None \<Rightarrow> RemoveCluster (NewClusterIndex name store) name)))"

definition DeleteCluster :: "env \<Rightarrow> decoders \<Rightarrow> codec \<Rightarrow> WdripOptions \<Rightarrow> CommandLineArgs \<Rightarrow> gerr option eff" where
  "DeleteCluster E D K options cmdLine =
     (if wo_ClusterName options = [] then ret (Some (Errorf ''cluster name must be provided with --name''))
      else withContext E D initMsg Some options (\<lambda>ctx options pvd. let name = wo_ClusterName options; store = storeOf E pvd in
        andThen (GetCluster K (NewClusterIndex name store) name) (\<lambda>r. case r of
          Inl e \<Rightarrow> if contains (err_msg e) ''NoSuchKey'' then ret None
            else ret (Some (Wrap e (''delete cluster: '' @ name)))
        | Inr ident \<Rightarrow> deleteFound E K store name (cl_ForceDelete cmdLine) ident)))"

definition ScaleCluster :: "env \<Rightarrow> decoders \<Rightarrow> codec \<Rightarrow> WdripOptions \<Rightarrow> string \<Rightarrow> int \<Rightarrow> gerr option eff" where
  "ScaleCluster E D K options name cnt = withContext E D initMsg Some options (\<lambda>ctx options pvd.
     let idx = NewClusterIndex name (storeOf E pvd) in
     andThen (GetCluster K idx name) (\<lambda>r. case r of
       Inl e \<Rightarrow> ret (Some (Wrap e (''scale cluster: '' @ name)))
     | Inr ident \<Rightarrow> andThen (do_call E (PScaleMasterGroup [] cnt)) (\<lambda>err. case err of
         Some e \<Rightarrow> ret (Some (Errorf (''scale cluster: '' @ err_msg e)))
       | None \<Rightarrow> andThen (timeNow E) (\<lambda>t. SaveCluster K idx (touch t ident)))))"

definition RunCommandOn :: "env \<Rightarrow> decoders \<Rightarrow> WdripOptions \<Rightarrow> CommandLineArgs \<Rightarrow> gerr option eff" where
  "RunCommandOn E D options cmdline = withContext E D initMsg Some options (\<lambda>ctx options pvd.
     if cl_InstanceID cmdline = [] \<or> cl_Command cmdline = [] then ret (Wrapf None ''empty instance id or command'')
     else andThen (do_call E (PRunCommand (cl_InstanceID cmdline) (cl_Command cmdline))) (\<lambda>err. case err of
       Some e \<Rightarrow> ret (Some (Wrap e (''run command fail: '' @ err_msg e)))
     | None \<Rightarrow> ret None))"

definition EditCluster :: "env \<Rightarrow> decoders \<Rightarrow> codec \<Rightarrow> printers \<Rightarrow> (string \<Rightarrow> gerr + string) \<Rightarrow> WdripOptions \<Rightarrow> gerr option eff" where
  "EditCluster E D K Y editor options =
     (if wo_ClusterName options = [] then ret (Some (Errorf ''unexpected empty cluster name, specify with --name''))
      else withContext E D ''edit: initialize wdrip context'' Some options (\<lambda>ctx options pvd.
        let idx = NewClusterIndex (wo_ClusterName options) (storeOf E pvd) in
        andThen (GetCluster K idx (wo_ClusterName options)) (\<lambda>r. case r of
          Inl e \<Rightarrow> ret (Some (Wrap e (''find cluster by name '' @ wo_ClusterName options)))
        | Inr ident \<Rightarrow> (case editor (y_spec Y (cis_Cluster (cid_Spec ident))) of
            Inl e \<Rightarrow> ret (Some (Wrap e ''edit with local editor''))
          | Inr edited \<Rightarrow> (case d_yaml_spec D edited of
              Inl e \<Rightarrow> ret (Some (Wrap e ''unrecognized field or value''))
            | Inr cspec \<Rightarrow> SaveCluster K idx (onCluster (\<lambda>_. cspec) ident))))))"

definition WatchResult :: "env \<Rightarrow> decoders \<Rightarrow> codec \<Rightarrow> WdripOptions \<Rightarrow> string \<Rightarrow> gerr option eff" where
  "WatchResult E D K options name = withContext E D initMsg Some options (\<lambda>ctx options pvd.
     let idx = NewClusterIndex (wo_ClusterName options) (storeOf E pvd) in
     andThen (GetCluster K idx name) (\<lambda>r. case r of
       Inl e \<Rightarrow> ret (Some (Wrap e (''scale cluster: '' @ name)))
     | Inr ident \<Rightarrow> andThen (perform (PWatchResult ident) (\<lambda>tr. e_watch E tr ident)) (\<lambda>(ident, err). case err of
         Some e \<Rightarrow> ret (Some (Errorf (''watch error: '' @ err_msg e)))
       | None \<Rightarrow> SaveCluster K idx ident)))"

text \<open>
  \<^verbatim>\<open>NodePoolOeration\<close> prints a table; the rows are the answer. An error of \<^verbatim>\<open>ScalingGroupDetail\<close> is not looked
  at, the details are then empty.
\<close>

definition poolRow :: "NodePool \<Rightarrow> string list" where
  "poolRow np = (let bind = (case inf_Bind (nps_Infra (np_Spec np)) of
         None \<Rightarrow> \<lparr>bind_VswitchIDS = [], bind_ScalingGroupId = [], bind_ConfigurationId = []\<rparr> | Some b \<Rightarrow> b)
     in [np_Name np, nps_NodePoolID (np_Spec np), bind_ScalingGroupId bind, fmt_list (bind_VswitchIDS bind)])"

definition instanceRow :: "NodePool \<Rightarrow> Instance \<Rightarrow> string list" where
  "instanceRow np d = [np_Name np, nps_NodePoolID (np_Spec np), ins_Id d, ins_Ip d, ins_Status d]"

definition poolInstances :: "env \<Rightarrow> NodePool \<Rightarrow> string list list eff" where
  "poolInstances E np = (case inf_Bind (nps_Infra (np_Spec np)) of
     None \<Rightarrow> ret [[np_Name np, nps_NodePoolID (np_Spec np), [], [], []]]
   | Some bind \<Rightarrow> andThen (ScalingGroupDetail E (bind_ScalingGroupId bind)) (\<lambda>r.
       andThen (range_map E (case r of Inl e \<Rightarrow> [] | Inr detail \<Rightarrow> detail)) (\<lambda>ds.
         ret (map (instanceRow np \<circ> snd) ds))))"

definition poolTable :: "env \<Rightarrow> codec \<Rightarrow> NodePoolIndex \<Rightarrow> string \<Rightarrow> (string list list \<times> gerr option) eff" where
  "poolTable E K idx ident =
     (if ident = []
      then andThen (ListNodePools K idx []) (\<lambda>r. case r of
          Inl e \<Rightarrow> ret ([], Some (Wrap e ''list nodepool from oss backup''))
        | Inr nodepools \<Rightarrow> ret (map poolRow nodepools, None))
      else andThen (GetNodePool K idx ident) (\<lambda>r. case r of
          Inl e \<Rightarrow> ret ([], Some (Wrap e ''get nodepool from oss backup''))
        | Inr np \<Rightarrow> andThen (poolInstances E np) (\<lambda>rows. ret (rows, None))))"

definition NodePoolOeration :: "env \<Rightarrow> decoders \<Rightarrow> codec \<Rightarrow> WdripOptions \<Rightarrow> CommandLineArgs \<Rightarrow>
    (string list list \<times> gerr option) eff" where
  "NodePoolOeration E D K options cmdline = withContext E D initMsg (\<lambda>e. ([], Some e)) options (\<lambda>ctx options pvd.
     let name = wo_ClusterName options; store = storeOf E pvd in
     if name = [] then ret ([], Some (Errorf ''empty cluster name''))
     else andThen (GetCluster K (NewClusterIndex name store) name) (\<lambda>r. case r of
       Inl e \<Rightarrow> ret ([], Some (Wrap e ''get cluster from oss backup''))
     | Inr spec \<Rightarrow> andThen (LoadStackFromSpec E (cis_Cluster (cid_Spec spec))) (\<lambda>(_, r). case r of
         Inl e \<Rightarrow> ret ([], Some (Wrap e ''load stack''))
       | Inr stack \<Rightarrow> poolTable E K (NewNodePoolIndex name store) (cl_NodePoolID cmdline))))"

section \<open>Lemmas\<close>

definition contextCalls :: "call set" where
  "contextCalls = reads \<union> {XCmd [''whoami'']}"

lemma withContext_late:
  assumes c: "c \<in> set (new_calls (withContext E D msg fail opts k) tr)" and "c \<notin> contextCalls"
    and k: "\<And>ctx opts pvd. emits UNIV (k ctx opts pvd)"
  obtains ctx opts' pvd t where "NewContext (envHost E D) opts None tr = (Ret (ctx, opts', None), t)" and "prefix tr t"
    and "ctx_Provider ctx = Some pvd" and "c \<in> set (new_calls (k ctx opts' pvd) t)"
    and "withContext E D msg fail opts k tr = k ctx opts' pvd t"
proof -
  define f where "f = (\<lambda>(ctx, opts, err). case err of
     Some e \<Rightarrow> ret (fail (Wrap e msg)) | None \<Rightarrow> andThen (Provider_of ctx) (k ctx opts))"
  have eq: "withContext E D msg fail opts k = andThen (NewContext (envHost E D) opts None) f"
    unfolding withContext_def f_def ..
  have prov: "emits UNIV (Provider_of ctx)" for ctx :: Context
    by (auto simp: Provider_of_def intro!: emits_intro split: option.split)
  have f: "emits UNIV (f x)" for x
    unfolding f_def by (cases x) (auto intro!: emits_intro prov k split: option.split)
  obtain x t where x: "NewContext (envHost E D) opts None tr = (Ret x, t)" "prefix tr t"
    "c \<in> set (new_calls (f x) t)" "andThen (NewContext (envHost E D) opts None) f tr = f x t"
    using late_call [OF env_host.NewContext_quiet assms(2) [unfolded contextCalls_def] f c [unfolded eq]] by blast
  obtain ctx opts' err where "x = (ctx, opts', err)" by (cases x)
  with x eq that show thesis
    by (cases err; cases "ctx_Provider ctx") (auto simp: f_def new_calls_ret new_calls_def Provider_of_def andThen_apply)
qed

lemma GetCluster_reads: "emits reads (GetCluster K (NewClusterIndex name (storeOf E pvd)) ident)"
  unfolding GetCluster_def NewClusterIndex_def storeOf_def Let_def
  by (simp add: ossStore_def) (intro emits_intro conjI impI GetObject_reads, auto)

lemma store_calls:
  "emits (reads \<union> range BlobWrite) (os_PutObject (storeOf E pvd) d k)"
  "emits (reads \<union> range BlobWrite) (os_EnsureBucket (storeOf E pvd) b)"
  "emits (reads \<union> range BlobWrite) (os_DeleteObject (storeOf E pvd) k)"
  "emits (reads \<union> range BlobWrite) (os_ListObject (storeOf E pvd) k)"
  unfolding storeOf_def
  by (rule emits_mono [OF oss.put_one] emits_mono [OF oss.ensure_one] emits_mono [OF oss.delete_one]
      emits_mono [OF oss.list_one], force)+

lemma SaveCluster_calls:
  "emits (reads \<union> range BlobWrite) (SaveCluster K (NewClusterIndex name (storeOf E pvd)) ident)"
  unfolding SaveCluster_def NewClusterIndex_def Let_def putEnsuring_def
  by (auto intro!: emits_intro store_calls)

lemma SaveCluster_emits: "emits UNIV (SaveCluster K (NewClusterIndex name (storeOf E pvd)) ident)"
  by (rule emits_mono [OF SaveCluster_calls]) simp

lemma GetCluster_emits: "emits UNIV (GetCluster K (NewClusterIndex name (storeOf E pvd)) ident)"
  by (rule emits_mono [OF GetCluster_reads]) simp

lemma RemoveCluster_calls: "emits (reads \<union> range BlobWrite) (RemoveCluster (NewClusterIndex name (storeOf E pvd)) ident)"
  unfolding RemoveCluster_def NewClusterIndex_def Let_def by (auto intro!: emits_intro store_calls)

lemma ListNodePools_calls: "emits (reads \<union> {c. \<exists>b. c = BPutBucket b}) (ListNodePools K (NewNodePoolIndex name (storeOf E pvd)) sel)"
  unfolding ListNodePools_def NewNodePoolIndex_def Let_def storeOf_def by (auto intro!: emits_intro oss.list_one)

lemma SetDefaultCA_reads: "emits reads (SetDefaultCA E spec)"
  unfolding SetDefaultCA_def by (intro emits_intro) auto

lemma SetDefaultCA_run:
  "SetDefaultCA E boot tr = (Ret spec, t) \<Longrightarrow> k8s_RootCA (cs_Kubernetes spec) \<noteq> None"
  by (auto simp: SetDefaultCA_def signCert_def run_simps split: option.splits sum.splits)

lemma timeNow_run: "timeNow E tr = (Ret (butlast (e_format_time E (e_now E tr))), tr @ [CNow])"
  by (simp add: timeNow_def now_def run_simps)

lemma timeNow_reads: "emits reads (timeNow E)"
  unfolding timeNow_def now_def by (intro emits_intro) auto

text \<open>The provider is called by \<open>createNew\<close> right after the record is saved.\<close>

lemma createNew_creates:
  assumes c: "PCreate spec \<in> set (new_calls (createNew E K (NewClusterIndex name (storeOf E pvd)) boot ident) tr)"
  obtains t where "SaveCluster K (NewClusterIndex name (storeOf E pvd)) ident tr = (Ret None, t)" and "spec = boot"
    and "prefix (t @ [PCreate spec]) (snd (createNew E K (NewClusterIndex name (storeOf E pvd)) boot ident tr))"
proof -
  let ?save = "SaveCluster K (NewClusterIndex name (storeOf E pvd))"
  define g where "g = (\<lambda>r :: gerr + ClusterId. case r of
       Inl e \<Rightarrow> andThen (deref (bi_Provider (cs_Bind boot))) (\<lambda>p.
         ret (Some (Errorf (''call provider ['' @ prvd_Name p @ ''] create: '' @ err_msg e))))
     | Inr nid \<Rightarrow> andThen (?save nid) (\<lambda>_. ret None))"
  define f where "f = (\<lambda>err. case err of
     Some e \<Rightarrow> ret (Some (Wrap e (''create cluster: '' @ om_Name (cid_Meta ident))))
   | None \<Rightarrow> andThen (perform (PCreate boot) (\<lambda>tr. e_create_cluster E tr boot)) g)"
  have eq: "createNew E K (NewClusterIndex name (storeOf E pvd)) boot ident = andThen (?save ident) f"
    unfolding createNew_def f_def g_def ..
  have g: "emits (reads \<union> range BlobWrite) (g r)" for r
    unfolding g_def deref_def by (intro emits_intro SaveCluster_calls)
  have f: "emits UNIV (f err)" for err
    unfolding f_def by (intro emits_intro emits_mono [OF g]) auto
  obtain err t where save: "?save ident tr = (Ret err, t)" and c1: "PCreate spec \<in> set (new_calls (f err) t)"
    and run: "andThen (?save ident) f tr = f err t"
    by (rule late_call [OF SaveCluster_calls _ f c [unfolded eq]]) auto
  from c1 have err: "err = None" by (cases err) (auto simp: f_def new_calls_ret)
  have ft: "f None t = g (e_create_cluster E t boot) (t @ [PCreate boot])" by (simp add: f_def andThen_perform)
  from emitsD [OF g, of "e_create_cluster E t boot" "t @ [PCreate boot]"] obtain new where
    new: "snd (f None t) = t @ PCreate boot # new" "set new \<subseteq> reads \<union> range BlobWrite"
    unfolding ft by auto
  with c1 err have "spec = boot" by (auto simp: new_calls_def)
  with that save err run eq new show thesis by auto
qed

lemma createWith_creates:
  assumes c: "PCreate spec \<in> set (new_calls (createWith E K cfg pvd boot) tr)"
  obtains t0 e t1 created updated t2 where "prefix tr t0"
    and "GetCluster K (NewClusterIndex (cs_ClusterID spec) (storeOf E pvd)) (cs_ClusterID spec) t0 = (Ret (Inl e), t1)"
    and "contains (err_msg e) ''NoSuchKey''"
    and "SaveCluster K (NewClusterIndex (cs_ClusterID spec) (storeOf E pvd)) (newCluster cfg spec created updated) t1 =
       (Ret None, t2)"
    and "prefix (t2 @ [PCreate spec]) (snd (createWith E K cfg pvd boot tr))"
    and "k8s_RootCA (cs_Kubernetes spec) \<noteq> None"
proof -
  define idx where "idx b = NewClusterIndex (cs_ClusterID b) (storeOf E pvd)" for b :: ClusterSpec
  define h where "h b created updated r = (case r of
      Inr _ \<Rightarrow> ret (Wrapf None (''cluster ['' @ cs_ClusterID b @ ''] already exists''))
    | Inl e \<Rightarrow> if \<not> contains (err_msg e) ''NoSuchKey'' then ret (Some (Wrap e ''create cluster''))
        else createNew E K (idx b) b (newCluster cfg b created updated))" for b created updated and r :: "gerr + ClusterId"
  define g where "g b = andThen (timeNow E) (\<lambda>created. andThen (timeNow E) (\<lambda>updated.
      andThen (GetCluster K (idx b) (cs_ClusterID b)) (h b created updated)))" for b
  have eq: "createWith E K cfg pvd boot = andThen (SetDefaultCA E boot) g"
    unfolding createWith_def g_def h_def idx_def Let_def ..
  have h: "emits UNIV (h b x y r)" for b x y r
    unfolding h_def createNew_def deref_def idx_def by (intro emits_intro SaveCluster_emits) auto
  have g: "emits UNIV (g b)" for b
    unfolding g_def idx_def by (intro emits_intro emits_mono [OF timeNow_reads] GetCluster_emits h) auto
  obtain b t where ca: "SetDefaultCA E boot tr = (Ret b, t)" "prefix tr t"
    and c1: "PCreate spec \<in> set (new_calls (g b) t)" and run: "andThen (SetDefaultCA E boot) g tr = g b t"
    by (rule late_call [OF SetDefaultCA_reads _ g c [unfolded eq]]) auto
  obtain x y where now: "g b t = andThen (GetCluster K (idx b) (cs_ClusterID b)) (h b x y) (t @ [CNow, CNow])"
    by (simp add: g_def andThen_apply timeNow_run)
  have "emits UNIV (andThen (GetCluster K (idx b) (cs_ClusterID b)) (h b x y))"
    unfolding idx_def by (intro emits_andThen GetCluster_emits h)
  from emitsD [OF this, of "t @ [CNow, CNow]"] obtain new where
    "snd (andThen (GetCluster K (idx b) (cs_ClusterID b)) (h b x y) (t @ [CNow, CNow])) = (t @ [CNow, CNow]) @ new" by blast
  with c1 now
  have c2: "PCreate spec \<in> set (new_calls (andThen (GetCluster K (idx b) (cs_ClusterID b)) (h b x y)) (t @ [CNow, CNow]))"
    by (simp add: new_calls_def)
  obtain r t1 where get: "GetCluster K (idx b) (cs_ClusterID b) (t @ [CNow, CNow]) = (Ret r, t1)"
    and c3: "PCreate spec \<in> set (new_calls (h b x y r) t1)" and run2: "andThen (GetCluster K (idx b) (cs_ClusterID b)) (h b x y) (t @ [CNow, CNow]) = h b x y r t1"
    by (rule late_call [OF GetCluster_reads [of K "cs_ClusterID b" E pvd "cs_ClusterID b", folded idx_def] _ h c2]) auto
  from c3 obtain e where e: "r = Inl e" "contains (err_msg e) ''NoSuchKey''"
    and hr: "h b x y r = createNew E K (idx b) b (newCluster cfg b x y)"
    by (cases r) (auto simp: h_def new_calls_ret split: if_splits)
  obtain t2 where "SaveCluster K (idx b) (newCluster cfg b x y) t1 = (Ret None, t2)" "spec = b"
    "prefix (t2 @ [PCreate spec]) (snd (createNew E K (idx b) b (newCluster cfg b x y) t1))"
    using createNew_creates [OF c3 [unfolded hr idx_def]] unfolding idx_def by blast
  with that [of "t @ [CNow, CNow]" e t1 x y t2] ca get e run run2 now hr eq SetDefaultCA_run [OF ca(1)] show thesis
    by (auto simp: idx_def)
qed

text \<open>The pools of a cluster are deleted in order, up to the first failure.\<close>

lemma deletePools_run:
  assumes "deletePools E nps tr = (Ret None, t)"
  shows "t = tr @ map PDeleteNodeGroup nps"
  using assms
proof (induction nps arbitrary: tr)
  case (Cons np nps)
  from Cons.prems have "deletePools E nps (tr @ [PDeleteNodeGroup np]) = (Ret None, t)"
    by (auto simp: deletePools_def do_call_def run_simps split: option.splits)
  from Cons.IH [OF this] show ?case by simp
qed (simp add: deletePools_def)

lemma deletePools_calls: "emits (range GroupWrite) (deletePools E nps)"
  unfolding deletePools_def by (intro emits_intro) auto

lemma RemoveCluster_emits: "emits UNIV (RemoveCluster (NewClusterIndex name (storeOf E pvd)) ident)"
  by (rule emits_mono [OF RemoveCluster_calls]) simp

lemma deleteFound_removes:
  assumes c: "BDeleteObject b k \<in> set (new_calls (deleteFound E K (storeOf E pvd) name force ident) tr)"
  obtains nodepools t where "ListNodePools K (NewNodePoolIndex name (storeOf E pvd)) [] tr = (Ret (Inr nodepools), t)"
    and "prefix (t @ map PDeleteNodeGroup nodepools @ [PDelete ident]) (snd (deleteFound E K (storeOf E pvd) name force ident tr))"
    and "force \<or> e_err E (t @ map PDeleteNodeGroup nodepools) (PDelete ident) = None"
proof -
  let ?rm = "RemoveCluster (NewClusterIndex name (storeOf E pvd)) name"
  define h where "h = (\<lambda>err. case err of
     Some e \<Rightarrow> if force then ?rm else ret (Some (Errorf (''delete cluster: '' @ err_msg e)))
   | None \<Rightarrow> ?rm)"
  define g where "g = (\<lambda>err. case err of Some e \<Rightarrow> ret (Some e) | None \<Rightarrow> andThen (do_call E (PDelete ident)) h)"
  define f where "f = (\<lambda>r. case r of
     Inl e \<Rightarrow> ret (Some (Wrap e ''get nodepool oss backups'')) | Inr nps \<Rightarrow> andThen (deletePools E nps) g)"
  have eq: "deleteFound E K (storeOf E pvd) name force ident =
      andThen (ListNodePools K (NewNodePoolIndex name (storeOf E pvd)) []) f"
    unfolding deleteFound_def f_def g_def h_def ..
  have h: "emits UNIV (h err)" for err unfolding h_def by (intro emits_intro RemoveCluster_emits)
  have g: "emits UNIV (g err)" for err unfolding g_def by (intro emits_intro h) auto
  have f: "emits UNIV (f r)" for r unfolding f_def by (intro emits_intro g emits_mono [OF deletePools_calls]) auto
  obtain r t where l: "ListNodePools K (NewNodePoolIndex name (storeOf E pvd)) [] tr = (Ret r, t)"
    and c1: "BDeleteObject b k \<in> set (new_calls (f r) t)"
    and run: "deleteFound E K (storeOf E pvd) name force ident tr = f r t"
    unfolding eq by (rule late_call [OF ListNodePools_calls _ f c [unfolded eq]]) auto
  from c1 obtain nps where r: "r = Inr nps" by (cases r) (auto simp: f_def new_calls_ret)
  obtain err t1 where d: "deletePools E nps t = (Ret err, t1)" and c2: "BDeleteObject b k \<in> set (new_calls (g err) t1)"
    and run1: "f r t = g err t1"
    by (rule late_call [OF deletePools_calls _ g c1 [unfolded r f_def sum.case]]) (auto simp: r f_def)
  from c2 have err: "err = None" by (cases err) (auto simp: g_def new_calls_ret)
  with d have t1: "t1 = t @ map PDeleteNodeGroup nps" by (auto dest: deletePools_run)
  have gt: "g None t1 = h (e_err E t1 (PDelete ident)) (t1 @ [PDelete ident])" by (simp add: g_def do_call_def andThen_perform)
  from emitsD [OF h] have "prefix (t1 @ [PDelete ident]) (snd (g None t1))" unfolding gt by (metis prefixI)
  moreover have "force \<or> e_err E t1 (PDelete ident) = None"
    using c2 unfolding err by (auto simp: new_calls_def gt h_def split: option.splits if_splits)
  ultimately show thesis using that l r run run1 err t1 by auto
qed

section \<open>Examples\<close>

definition iaasOptions :: WdripOptions where
  "iaasOptions = zeroOptions\<lparr>wo_Config := ''cfg'', wo_ClusterName := ''c1'', wo_RecoverFrom := ''c2'', wo_Default := Some contextCFG0\<rparr>"

definition iaasCodec :: codec where
  "iaasCodec = codec0\<lparr>cd_uncluster := (\<lambda>b. Inr recoverExample)\<rparr>"

definition signed0 :: ClusterSpec where
  "signed0 = bound0\<lparr>cs_Kubernetes := (cs_Kubernetes bound0)\<lparr>k8s_RootCA := Some \<lparr>kc_Key = ''key'', kc_Cert = ''crt''\<rparr>\<rparr>\<rparr>"

definition iaasDecoders :: decoders where
  "iaasDecoders = (decoders0 dev0)\<lparr>d_yaml_spec := (\<lambda>s. Inr signed0)\<rparr>"

definition iaasEnv :: env where
  "iaasEnv = store_env\<lparr>e_read_file := (\<lambda>tr f. Inr []), e_create_cluster := (\<lambda>tr s. Inr recoverExample)\<rparr>"

definition iaasArgs :: CommandLineArgs where
  "iaasArgs = \<lparr>cl_ForceDelete = False, cl_InstanceID = [], cl_Command = [], cl_NodePoolID = []\<rparr>"

text \<open>A storage with the records of the clusters \<open>c1\<close> and \<open>c2\<close> in it.\<close>

definition recorded :: "call list" where
  "recorded = [BPutObject ''b'' ''wdrip/clusters/c1.json'' ''c'', BPutObject ''b'' ''wdrip/clusters/c2.json'' ''c'']"

section \<open>Properties\<close>

text \<open>
  C12: a cluster is recorded before it is created. When Create calls the provider, the record of the cluster
  had been looked up and was missing, a record of the same specification, which has a root certificate,
  was then saved successfully, and the call to the provider is the next interaction after it.
\<close>
theorem CreateCluster_records_first:
  assumes "PCreate spec \<in> set (new_calls (CreateCluster E D K cfg) tr)"
  shows "\<exists>ctx opts t pvd t0 e t1 created updated t2.
    NewContext (envHost E D) cfg None tr = (Ret (ctx, opts, None), t) \<and> ctx_Provider ctx = Some pvd \<and> prefix t t0 \<and>
    GetCluster K (NewClusterIndex (cs_ClusterID spec) (storeOf E pvd)) (cs_ClusterID spec) t0 = (Ret (Inl e), t1) \<and>
    contains (err_msg e) ''NoSuchKey'' \<and>
    SaveCluster K (NewClusterIndex (cs_ClusterID spec) (storeOf E pvd)) (newCluster opts spec created updated) t1 =
       (Ret None, t2) \<and>
    prefix (t2 @ [PCreate spec]) (snd (CreateCluster E D K cfg tr)) \<and> k8s_RootCA (cs_Kubernetes spec) \<noteq> None"
proof -
  let ?k = "\<lambda>ctx cfg pvd. andThen (deref (BootCFG ctx)) (createWith E K cfg pvd)"
  have emits: "emits UNIV (?k ctx cfg pvd)" for ctx cfg pvd
    unfolding createWith_def createNew_def deref_def Let_def
    by (intro emits_intro emits_mono [OF SetDefaultCA_reads] emits_mono [OF timeNow_reads] GetCluster_emits SaveCluster_emits) auto
  obtain ctx opts pvd t where ctx: "NewContext (envHost E D) cfg None tr = (Ret (ctx, opts, None), t)"
    "ctx_Provider ctx = Some pvd" and c: "PCreate spec \<in> set (new_calls (?k ctx opts pvd) t)"
    and run: "CreateCluster E D K cfg tr = ?k ctx opts pvd t"
    unfolding CreateCluster_def by (rule withContext_late [OF assms [unfolded CreateCluster_def] _ emits])
      (auto simp: contextCalls_def)
  from c obtain boot where boot: "BootCFG ctx = Some boot" by (cases "BootCFG ctx") (auto simp: deref_def new_calls_def)
  then have k: "?k ctx opts pvd t = createWith E K opts pvd boot t" by (simp add: deref_def)
  with c have "PCreate spec \<in> set (new_calls (createWith E K opts pvd boot) t)" by (simp add: new_calls_def)
  from createWith_creates [OF this] ctx run k show ?thesis by metis
qed

theorem CreateCluster_records_first_witness:
  "\<exists>spec. PCreate spec \<in> set (new_calls (CreateCluster iaasEnv (decoders0 dev0) iaasCodec iaasOptions) []) \<and>
    k8s_RootCA (cs_Kubernetes spec) \<noteq> None"
proof -
  have "list_ex (\<lambda>c. case c of ClusterCall (CreateClusterC s) \<Rightarrow> True | _ \<Rightarrow> False)
      (new_calls (CreateCluster iaasEnv (decoders0 dev0) iaasCodec iaasOptions) [])" by code_simp
  then obtain c where in_calls: "c \<in> set (new_calls (CreateCluster iaasEnv (decoders0 dev0) iaasCodec iaasOptions) [])"
    and create: "case c of ClusterCall (CreateClusterC s) \<Rightarrow> True | _ \<Rightarrow> False" unfolding list_ex_iff by blast
  from create obtain spec where "c = PCreate spec" by (simp split: call.splits cluster_call.splits)
  with in_calls have c: "PCreate spec \<in> set (new_calls (CreateCluster iaasEnv (decoders0 dev0) iaasCodec iaasOptions) [])"
    by simp
  from CreateCluster_records_first [OF c] c show ?thesis by blast
qed

text \<open>
  C40: creating a cluster that exists already reports success. When the record of the cluster is found, Create
  wraps the error of that lookup, which is nil, and so returns nil; nothing is changed and the provider is
  not called.
\<close>
theorem CreateCluster_existing:
  assumes ctx: "NewContext (envHost E D) cfg None tr = (Ret (ctx, opts, None), t)" "ctx_Provider ctx = Some pvd"
    "BootCFG ctx = Some boot" and ca: "k8s_RootCA (cs_Kubernetes boot) \<noteq> None"
    and get: "GetCluster K (NewClusterIndex (cs_ClusterID boot) (storeOf E pvd)) (cs_ClusterID boot) (t @ [CNow, CNow]) =
       (Ret (Inr found), t1)"
  shows "CreateCluster E D K cfg tr = (Ret None, t1) \<and> set (new_calls (CreateCluster E D K cfg) tr) \<subseteq> contextCalls"
proof -
  from ca have "SetDefaultCA E boot t = (Ret boot, t)" by (auto simp: SetDefaultCA_def)
  with ctx get have run: "CreateCluster E D K cfg tr = (Ret None, t1)"
    by (simp add: CreateCluster_def withContext_def andThen_apply Provider_of_def deref_def createWith_def timeNow_run Wrapf_def Let_def)
  from emitsD [OF env_host.NewContext_quiet, of E D cfg None tr] ctx(1) obtain new where
    new: "t = tr @ new" "set new \<subseteq> contextCalls" by (auto simp: contextCalls_def)
  from emitsD [OF GetCluster_reads [of K "cs_ClusterID boot" E pvd "cs_ClusterID boot"], of "t @ [CNow, CNow]"] get obtain new'
    where "t1 = t @ [CNow, CNow] @ new'" "set new' \<subseteq> reads" by auto
  with new run show ?thesis by (auto simp: new_calls_def contextCalls_def)
qed

theorem CreateCluster_existing_witness:
  "\<exists>t1. CreateCluster iaasEnv iaasDecoders iaasCodec iaasOptions recorded = (Ret None, t1)"
proof -
  have "case NewContext (envHost iaasEnv iaasDecoders) iaasOptions None recorded of
      (Ret (ctx, opts, None), t) \<Rightarrow> ctx_Provider ctx = Some devel0 \<and> BootCFG ctx = Some signed0 \<and>
        (case GetCluster iaasCodec (NewClusterIndex (cs_ClusterID signed0) (storeOf iaasEnv devel0)) (cs_ClusterID signed0) (t @ [CNow, CNow]) of
          (Ret (Inr found), t1) \<Rightarrow> True | _ \<Rightarrow> False)
    | _ \<Rightarrow> False" by code_simp
  then obtain ctx opts t where ctx: "NewContext (envHost iaasEnv iaasDecoders) iaasOptions None recorded = (Ret (ctx, opts, None), t)"
    "ctx_Provider ctx = Some devel0" "BootCFG ctx = Some signed0"
    and get: "case GetCluster iaasCodec (NewClusterIndex (cs_ClusterID signed0) (storeOf iaasEnv devel0)) (cs_ClusterID signed0) (t @ [CNow, CNow]) of
          (Ret (Inr found), t1) \<Rightarrow> True | _ \<Rightarrow> False"
    by (cases "NewContext (envHost iaasEnv iaasDecoders) iaasOptions None recorded") (simp split: outcome.splits prod.splits option.splits)
  from get obtain found t1 where
    "GetCluster iaasCodec (NewClusterIndex (cs_ClusterID signed0) (storeOf iaasEnv devel0)) (cs_ClusterID signed0) (t @ [CNow, CNow]) = (Ret (Inr found), t1)"
    by (simp split: outcome.splits prod.splits sum.splits)
  from CreateCluster_existing [OF ctx _ this] show ?thesis by (simp add: signed0_def)
qed



text \<open>
  C19: recovery keeps the identity of the cluster. The cluster that the provider is asked to recover has the
  name, id, endpoints, region, provider and resource id of its own record, also when it is recovered from
  another cluster, from which everything else of its specification then comes.
\<close>
theorem RecoverCluster_keeps_identity:
  assumes "PRecover ident \<in> set (new_calls (RecoverCluster E D K cfg) tr)"
  shows "\<exists>ctx opts pvd t own t1. NewContext (envHost E D) cfg None tr = (Ret (ctx, opts, None), t) \<and>
    ctx_Provider ctx = Some pvd \<and>
    GetCluster K (NewClusterIndex (wo_ClusterName opts) (storeOf E pvd)) (wo_ClusterName opts) t = (Ret (Inr own), t1) \<and>
    cid_Meta ident = cid_Meta own \<and>
    (let c = cis_Cluster (cid_Spec ident); d = cis_Cluster (cid_Spec own) in
      cs_ClusterID c = cs_ClusterID d \<and> cs_Endpoint c = cs_Endpoint d \<and> bi_Provider (cs_Bind c) = bi_Provider (cs_Bind d) \<and>
      bi_Region (cs_Bind c) = bi_Region (cs_Bind d) \<and> bi_ResourceId (cs_Bind c) = bi_ResourceId (cs_Bind d) \<and>
      (if wo_RecoverFrom opts = wo_ClusterName opts then ident = own
       else \<exists>source t2. GetCluster K (NewClusterIndex (wo_RecoverFrom opts) (storeOf E pvd)) (wo_RecoverFrom opts) t1 =
           (Ret (Inr source), t2) \<and> c = recoverSpec (cis_Cluster (cid_Spec source)) d))"
proof -
  define f where "f = (\<lambda>r. case r of Inl e \<Rightarrow> ret (Some e) | Inr ident \<Rightarrow> do_call E (PRecover ident))"
  define g where "g opts pvd = (\<lambda>r. case r of
      Inl e \<Rightarrow> ret (Some (Wrap e (''no cluster found by name '' @ wo_ClusterName opts)))
    | Inr own \<Rightarrow> andThen (recoverFrom E K pvd opts own) f)" for opts :: WdripOptions and pvd
  define h where "h = (\<lambda>(ctx :: Context) opts pvd.
    andThen (GetCluster K (NewClusterIndex (wo_ClusterName opts) (storeOf E pvd)) (wo_ClusterName opts)) (g opts pvd))"
  have eq: "RecoverCluster E D K cfg = withContext E D initMsg Some cfg h"
    unfolding RecoverCluster_def h_def g_def f_def ..
  have f: "emits UNIV (f r)" for r unfolding f_def by (intro emits_intro) auto
  have source: "emits reads (recoverFrom E K pvd opts own)" for pvd opts own
    unfolding recoverFrom_def by (intro emits_intro GetCluster_reads)
  have g: "emits UNIV (g opts pvd r)" for opts pvd r unfolding g_def by (intro emits_intro emits_mono [OF source] f) auto
  have h: "emits UNIV (h ctx opts pvd)" for ctx opts pvd unfolding h_def by (intro emits_intro GetCluster_emits g)
  obtain ctx opts pvd t where ctx: "NewContext (envHost E D) cfg None tr = (Ret (ctx, opts, None), t)"
    "ctx_Provider ctx = Some pvd" and c: "PRecover ident \<in> set (new_calls (h ctx opts pvd) t)"
    by (rule withContext_late [OF assms [unfolded eq] _ h]) (auto simp: contextCalls_def)
  obtain r t1 where get: "GetCluster K (NewClusterIndex (wo_ClusterName opts) (storeOf E pvd)) (wo_ClusterName opts) t = (Ret r, t1)"
    and c1: "PRecover ident \<in> set (new_calls (g opts pvd r) t1)"
    by (rule late_call [OF GetCluster_reads _ g c [unfolded h_def]]) auto
  from c1 obtain own where r: "r = Inr own" by (cases r) (auto simp: g_def new_calls_ret)
  obtain r' t2 where src: "recoverFrom E K pvd opts own t1 = (Ret r', t2)" and c2: "PRecover ident \<in> set (new_calls (f r') t2)"
    by (rule late_call [OF source _ f c1 [unfolded r g_def sum.case]]) auto
  from c2 have "r' = Inr ident" by (cases r') (auto simp: f_def new_calls_ret new_calls_def do_call_def perform_apply)
  from src [unfolded this] have "if wo_RecoverFrom opts = wo_ClusterName opts then ident = own
     else \<exists>source t2. GetCluster K (NewClusterIndex (wo_RecoverFrom opts) (storeOf E pvd)) (wo_RecoverFrom opts) t1 =
         (Ret (Inr source), t2) \<and> ident = onCluster (recoverSpec (cis_Cluster (cid_Spec source))) own"
    by (auto simp: recoverFrom_def andThen_Ret_iff split: sum.splits if_splits) (metis sum.exhaust)
  with ctx get r show ?thesis
    by (intro exI [of _ ctx] exI [of _ opts] exI [of _ pvd] exI [of _ t] exI [of _ own] exI [of _ t1])
      (auto simp: Let_def onCluster_def recoverSpec_def split: if_splits)
qed

theorem RecoverCluster_keeps_identity_witness:
  "\<exists>ident own t t1 pvd. PRecover ident \<in> set (new_calls (RecoverCluster iaasEnv (decoders0 dev0) iaasCodec iaasOptions) recorded) \<and>
    GetCluster iaasCodec (NewClusterIndex ''c1'' (storeOf iaasEnv pvd)) ''c1'' t = (Ret (Inr own), t1) \<and>
    cid_Meta ident = cid_Meta own"
proof -
  have "list_ex (\<lambda>c. case c of ClusterCall (RecoverClusterC s) \<Rightarrow> True | _ \<Rightarrow> False)
      (new_calls (RecoverCluster iaasEnv (decoders0 dev0) iaasCodec iaasOptions) recorded)" by code_simp
  then obtain c where in_calls: "c \<in> set (new_calls (RecoverCluster iaasEnv (decoders0 dev0) iaasCodec iaasOptions) recorded)"
    and create: "case c of ClusterCall (RecoverClusterC s) \<Rightarrow> True | _ \<Rightarrow> False" unfolding list_ex_iff by blast
  from create obtain ident where "c = PRecover ident" by (simp split: call.splits cluster_call.splits)
  with in_calls have c: "PRecover ident \<in> set (new_calls (RecoverCluster iaasEnv (decoders0 dev0) iaasCodec iaasOptions) recorded)"
    by simp
  have name: "case NewContext (envHost iaasEnv (decoders0 dev0)) iaasOptions None recorded of
      (Ret (ctx, opts, None), t) \<Rightarrow> wo_ClusterName opts = ''c1'' | _ \<Rightarrow> False" by code_simp
  from RecoverCluster_keeps_identity [OF c] obtain ctx opts pvd t own t1 where
    run: "NewContext (envHost iaasEnv (decoders0 dev0)) iaasOptions None recorded = (Ret (ctx, opts, None), t)" and own:
    "GetCluster iaasCodec (NewClusterIndex (wo_ClusterName opts) (storeOf iaasEnv pvd)) (wo_ClusterName opts) t = (Ret (Inr own), t1)"
    "cid_Meta ident = cid_Meta own" by blast
  from name run have "wo_ClusterName opts = ''c1''" by simp
  from c own [unfolded this] show ?thesis by blast
qed

end
