(* ===== verification/Spec2Isabelle.thy ===== *)
theory Spec2Isabelle
  imports Controllers Heal_Loop Node_Cache Monit Iaas
begin

text \<open>
  A verification library for the self-healing Kubernetes operator of this repository.
\<close>

section \<open>The operator on top of the provider\<close>

text \<open>
  The environment \<open>E\<close> of the operator in which the provider's answers are those of its implementation:
  \<open>ScalingGroupDetail\<close> answers what \<open>GroupDetail\<close> computes, and \<open>DeleteNodeGroup\<close> what the definition of
  that name computes. \<open>u\<close> is what has been requested of the cloud when the operator makes a call.
\<close>

definition answerDetail :: "(ScaleGroupDetail \<times> gerr option) outcome \<Rightarrow> gerr + (string \<times> Instance) list" where
  "answerDetail r = (case r of
     Ret (d, None) \<Rightarrow> Inr (sd_Instances d) | Ret (d, Some e) \<Rightarrow> Inl e | Panic s \<Rightarrow> Inl (Errorf s))"

definition answerErr :: "gerr option outcome \<Rightarrow> gerr option" where
  "answerErr r = (case r of Ret e \<Rightarrow> e | Panic s \<Rightarrow> Some (Errorf s))"

definition instanceIDs :: Option where
  "instanceIDs = \<lparr>opt_Action = ActionInstanceIDS, opt_Value = \<lparr>val_Key = [], val_Val = VNil\<rparr>\<rparr>"

definition provided :: "cloud \<Rightarrow> Devel \<Rightarrow> Context \<Rightarrow> (call list \<Rightarrow> ccall list) \<Rightarrow> env \<Rightarrow> env" where
  "provided C n ctx u E = E\<lparr>
     e_scaling_group := (\<lambda>tr gid. answerDetail (fst (GroupDetail C n ctx gid instanceIDs (u tr)))),
     e_err := (\<lambda>tr c. case c of
         GroupWrite (DeleteNodeGroupC np) \<Rightarrow> answerErr (fst (DeleteNodeGroup C np (u tr)))
       | _ \<Rightarrow> e_err E tr c)\<rparr>"

lemma provided_simps [simp]:
  "e_nodepool (provided C n ctx u E) = e_nodepool E" "e_checking (provided C n ctx u E) = e_checking E"
  "e_hash_object (provided C n ctx u E) = e_hash_object E" "e_object (provided C n ctx u E) = e_object E"
  "e_scaling_group (provided C n ctx u E) tr gid = answerDetail (fst (GroupDetail C n ctx gid instanceIDs (u tr)))"
  "e_err (provided C n ctx u E) tr (PDeleteNodeGroup np) = answerErr (fst (DeleteNodeGroup C np (u tr)))"
  by (simp_all add: provided_def)

subsection \<open>Lost groups\<close>

text \<open>A group that is gone, or the first of the answer in another network than the cluster's.\<close>

definition lost :: "cloud \<Rightarrow> string \<Rightarrow> string \<Rightarrow> ccall list \<Rightarrow> bool" where
  "lost C gid vpc t = (case c_groups C t [gid] [] of Inl _ \<Rightarrow> False | Inr [] \<Rightarrow> True | Inr (g # _) \<Rightarrow> eg_VpcId g \<noteq> vpc)"

lemma lost_detail:
  assumes "Stack ctx = Some stack" and "stack_val stack ''k8s_vpc'' = VStr vpc" and "gid \<noteq> []" and "lost C gid vpc t"
  obtains e where "answerDetail (fst (GroupDetail C n ctx gid instanceIDs t)) = Inl e"
    and "contains (err_msg e) ''ScalingGroupNotFound'' \<or> contains (err_msg e) ''InvalidVPC''"
proof -
  have gone: "contains (err_msg (ScalingGroupNotFound gid)) ''ScalingGroupNotFound''"
    using contains_mid [of "''sgroupid ['' @ gid @ ''] not found[''" "''ScalingGroupNotFound''" "'']''"]
    by (simp add: ScalingGroupNotFound_def Errorf_def)
  have vpc: "contains (err_msg InvalidVPC) ''InvalidVPC''" by (simp add: InvalidVPC_def Errorf_def)
  have "answerDetail (fst (GroupDetail C n ctx gid instanceIDs t)) =
      (case c_groups C t [gid] [] of Inr [] \<Rightarrow> Inl (ScalingGroupNotFound gid) | _ \<Rightarrow> Inl InvalidVPC)"
    using assms by (auto simp: answerDetail_def GroupDetail_def stackString_def assert_string_def groupDetail_def
        andThen_perform lost_def Let_def split: sum.splits list.splits)
  with gone vpc show thesis
    by (intro that [of "case c_groups C t [gid] [] of Inr [] \<Rightarrow> ScalingGroupNotFound gid | _ \<Rightarrow> InvalidVPC"])
      (auto split: sum.splits list.splits)
qed

lemma FixNodePool_lost:
  assumes "made E h" and "\<not> e_checking E tr" and "inf_Bind (nps_Infra (np_Spec np)) = Some bind"
    and "e_scaling_group E (tr @ [CGetChecking]) (bind_ScalingGroupId bind) = Inl e"
  shows "FixNodePool E h np tr = (Ret (Some (Wrap (Wrap e (''group '' @ bind_ScalingGroupId bind @ '' detail'')) ''get nodepool ecs'')),
    tr @ [CGetChecking, PScalingGroupDetail (bind_ScalingGroupId bind) ActionInstanceIDS])"
  using assms unfolding made_def
  by (auto simp: FixNodePool_def wTripleGetter_def NodePoolECS_def ScalingGroupDetail_def run_simps)

text \<open>A pool without a binding gets a group.\<close>

lemma applyPool_creates:
  assumes "rnp_prvd r = ossStore E b" and "inf_Bind (nps_Infra (np_Spec np)) = None"
    and "e_hash_object E (np_Spec np) = Inr hasho"
  shows "prefix (tr @ [PCreateNodeGroup np]) (snd (applyPool E r np tr))"
proof -
  have backup: "emits UNIV (EnsureNodePoolBackup E r np)" by (rule emits_mono [OF backup_emits(1) [OF assms(1)]]) simp
  have patch: "emits UNIV (Patch E (ONodePool np) (onPool f) PatchSpec)" for f by (rule poolPatch_emits) auto
  have "prefix (snd (perform (PCreateNodeGroup np) (\<lambda>tr. e_create_group E tr np) tr)) (snd (createPool E r np tr))"
    unfolding createPool_def by (rule prefix_andThen) (intro emits_intro backup patch)
  moreover have "prefix (snd (createPool E r np tr)) (snd (applyPool E r np tr))"
    unfolding applyPool_def assms sum.case option.case by (rule prefix_andThen) (intro emits_intro patch)
  ultimately show ?thesis by (auto simp: perform_apply intro: prefix_order.trans)
qed

text \<open>A deleted pool is let go as soon as the provider reports that its group is deleted.\<close>

lemma deletePool_success:
  assumes "e_err E tr (PDeleteNodeGroup np) = None" and "DeleteNodePoolBackup E r np (tr @ [PDeleteNodeGroup np]) = (Ret None, t)"
    and "Patch E (ONodePool np) (onPool dropFinalizer) PatchSpec t = (Ret None, t')"
  shows "deletePool E r np tr = (Ret (zeroResult, None), t')"
  using assms by (simp add: deletePool_def do_call_def run_simps)

section \<open>Examples\<close>

definition noGroups :: cloud where
  "noGroups = cloud0\<lparr>c_groups := (\<lambda>tr ids nm. Inr [])\<rparr>"

definition busyGroups :: cloud where
  "busyGroups = cloud0\<lparr>c_err := (\<lambda>tr c. case c of EssW (DeleteScalingGroup r f g) \<Rightarrow> Some (Errorf ''IncorrectScalingGroupStatus'') | _ \<Rightarrow> None)\<rparr>"

definition provided0 :: "cloud \<Rightarrow> NodePool \<Rightarrow> env" where
  "provided0 C np = provided C devel0 context0 (\<lambda>tr. []) (pool_env np)"

section \<open>Properties across components\<close>



text \<open>
  C14: a node pool can disappear while its scaling group stays. Let the operator run on the implementation of
  the provider, and the cloud refuse to delete the group of a deleted pool with any error whose message
  does not contain "not found": then Reconcile, once the backup and the finalizer are gone, reports success,
  because the provider's DeleteNodeGroup reports only errors that do contain it.
\<close>
theorem refused_deletion_succeeds:
  assumes np: "e_nodepool E tr ns name = Inr np" "om_Deleted (np_Meta np)" "inf_Bind (nps_Infra (np_Spec np)) = Some bind"
      "bind_ScalingGroupId bind \<noteq> []"
    and refused: "c_err C (u (tr @ [KGetNodePool ns name])) (EssW (DeleteScalingGroup [] True (bind_ScalingGroupId bind))) = Some e"
      "\<not> contains (err_msg e) ''not found''"
    and rest: "DeleteNodePoolBackup (provided C n ctx u E) r np (tr @ [KGetNodePool ns name, PDeleteNodeGroup np]) = (Ret None, t)"
      "Patch (provided C n ctx u E) (ONodePool np) (onPool dropFinalizer) PatchSpec t = (Ret None, t')"
  shows "NodePoolReconcile (provided C n ctx u E) r ns name tr = (Ret (zeroResult, None), t')"
proof -
  let ?P = "provided C n ctx u E"
  have "e_err ?P (tr @ [KGetNodePool ns name]) (PDeleteNodeGroup np) = None"
    using np refused by (simp add: DeleteNodeGroup_def change_def run_simps answerErr_def)
  from deletePool_success [OF this, of r t t'] rest np(1,2) show ?thesis
    by (simp add: NodePoolReconcile_def run_simps)
qed

theorem refused_deletion_succeeds_witness:
  "\<exists>t'. NodePoolReconcile (provided0 busyGroups gone_pool) (pools0 (provided0 busyGroups gone_pool)) ''kube-system'' ''np1'' [] =
     (Ret (zeroResult, None), t')"
proof -
  let ?P = "provided busyGroups devel0 context0 (\<lambda>tr. []) (pool_env gone_pool)"
  let ?r = "pools0 (provided0 busyGroups gone_pool)"
  have "case DeleteNodePoolBackup ?P ?r gone_pool ([] @ [KGetNodePool ''kube-system'' ''np1'', PDeleteNodeGroup gone_pool]) of
      (Ret None, t) \<Rightarrow> (case Patch ?P (ONodePool gone_pool) (onPool dropFinalizer) PatchSpec t of (Ret None, t') \<Rightarrow> True | _ \<Rightarrow> False)
    | _ \<Rightarrow> False" by code_simp
  then obtain t t' where rest:
    "DeleteNodePoolBackup ?P ?r gone_pool ([] @ [KGetNodePool ''kube-system'' ''np1'', PDeleteNodeGroup gone_pool]) = (Ret None, t)"
    "Patch ?P (ONodePool gone_pool) (onPool dropFinalizer) PatchSpec t = (Ret None, t')"
    by (simp split: prod.splits outcome.splits option.splits)
  have "NodePoolReconcile ?P ?r ''kube-system'' ''np1'' [] = (Ret (zeroResult, None), t')"
    by (rule refused_deletion_succeeds [OF _ _ _ _ _ _ rest, where e = "Errorf ''IncorrectScalingGroupStatus''"
          and bind = "\<lparr>bind_VswitchIDS = [], bind_ScalingGroupId = ''asg-1'', bind_ConfigurationId = ''asc-1''\<rparr>"])
      (simp_all add: pool_env_def gone_pool_def pool0_def nodepool0_def busyGroups_def Errorf_def)
  then show ?thesis by (simp add: provided0_def)
qed

end
